(* ===== verification/Prelude.thy ===== *)
theory Prelude
  imports Main "HOL-Library.Word"
begin

unbundle bit_operations_syntax

text \<open>
  Vocabulary shared by every component of the model of the Soroban host.

  \<^item> Rust's unsigned machine integers are words (\<open>u32\<close>, \<open>u64\<close>, \<dots>); the
    \<open>saturating_*\<close> and \<open>checked_*\<close> operations of the standard library are defined
    here for every width and characterised over \<^typ>\<open>nat\<close> in the collection
    \<open>sat_simps\<close>.
  \<^item> Rust's signed integers (\<open>i64\<close>, \<open>i128\<close>) are \<^typ>\<open>int\<close> with the range
    written out: \<open>sat_i64\<close> clamps, \<open>wrap_i64\<close> is the two's complement
    wrap-around of an unchecked operator in a release build.
  \<^item> \<open>Error\<close> is the host's error value, \<open>Ordering\<close> the result of a comparison.
  \<^item> A fallible host operation that works on a mutable state is a function
    \<open>'s \<Rightarrow> (Error + 'a) \<times> 's\<close>. The state survives an error, as it does behind the
    \<open>RefCell\<close>s of the source: \<open>bindM\<close> is the \<open>?\<close> operator.
\<close>

named_theorems sat_simps \<open>characterisations of saturating and checked arithmetic\<close>
named_theorems m_simps \<open>inversion of successful runs of monadic host operations\<close>

section \<open>Machine integers\<close>

type_synonym u8 = "8 word"
type_synonym u32 = "32 word"
type_synonym u64 = "64 word"
type_synonym u128 = "128 word"
type_synonym u256 = "256 word"

definition saturating_add :: "'a::len word \<Rightarrow> 'a word \<Rightarrow> 'a word" where
  "saturating_add a b = (if unat a + unat b < 2 ^ LENGTH('a) then a + b else - 1)"

definition saturating_sub :: "'a::len word \<Rightarrow> 'a word \<Rightarrow> 'a word" where
  "saturating_sub a b = (if b \<le> a then a - b else 0)"

definition saturating_mul :: "'a::len word \<Rightarrow> 'a word \<Rightarrow> 'a word" where
  "saturating_mul a b = (if unat a * unat b < 2 ^ LENGTH('a) then a * b else - 1)"

definition checked_add :: "'a::len word \<Rightarrow> 'a word \<Rightarrow> 'a word option" where
  "checked_add a b = (if unat a + unat b < 2 ^ LENGTH('a) then Some (a + b) else None)"

definition checked_sub :: "'a::len word \<Rightarrow> 'a word \<Rightarrow> 'a word option" where
  "checked_sub a b = (if b \<le> a then Some (a - b) else None)"

definition checked_div :: "'a::len word \<Rightarrow> 'a word \<Rightarrow> 'a word option" where
  "checked_div a b = (if b = 0 then None else Some (a div b))"

lemma unat_minus_one_word: "unat (- 1 :: 'a::len word) = 2 ^ LENGTH('a) - 1"
  by (simp add: unsigned_minus_1_eq_mask mask_eq_exp_minus_1)

lemma unat_add_nowrap:
  "unat a + unat b < 2 ^ LENGTH('a) \<Longrightarrow> unat (a + b) = unat a + unat (b :: 'a::len word)"
  by (simp add: unat_word_ariths)

lemma unat_mult_nowrap:
  "unat a * unat b < 2 ^ LENGTH('a) \<Longrightarrow> unat (a * b) = unat a * unat (b :: 'a::len word)"
  by (simp add: unat_word_ariths)

lemma unat_sub_nowrap: "b \<le> a \<Longrightarrow> unat (a - b) = unat a - unat (b :: 'a::len word)"
  by (rule unat_sub)

lemma unat_saturating_add [sat_simps]:
  "unat (saturating_add a b) = min (unat a + unat b) (2 ^ LENGTH('a) - 1)"
  for a b :: "'a::len word"
  by (auto simp: saturating_add_def unat_add_nowrap unat_minus_one_word)

lemma unat_saturating_mul [sat_simps]:
  "unat (saturating_mul a b) = min (unat a * unat b) (2 ^ LENGTH('a) - 1)"
  for a b :: "'a::len word"
  by (auto simp: saturating_mul_def unat_mult_nowrap unat_minus_one_word)

lemma unat_saturating_sub [sat_simps]:
  "unat (saturating_sub a b) = unat a - unat b"
  for a b :: "'a::len word"
  by (auto simp: saturating_sub_def unat_sub_nowrap word_le_nat_alt)

lemma uint_saturating_add: "uint (saturating_add a b) = min (uint a + uint b) (2 ^ LENGTH('a) - 1)"
  for a b :: "'a::len word"
proof -
  have "int (unat (saturating_add a b)) = min (int (unat a) + int (unat b)) (2 ^ LENGTH('a) - 1)"
    unfolding unat_saturating_add by (simp add: of_nat_diff of_nat_min)
  then show ?thesis by simp
qed

lemma checked_add_Some [sat_simps]:
  "checked_add a b = Some c \<longleftrightarrow> unat c = unat a + unat b"
  for a b c :: "'a::len word"
proof
  assume "checked_add a b = Some c"
  then show "unat c = unat a + unat b"
    by (auto simp: checked_add_def unat_add_nowrap split: if_splits)
next
  assume h: "unat c = unat a + unat b"
  then have lt: "unat a + unat b < 2 ^ LENGTH('a)"
    using unsigned_less [of c, where 'a = nat] by simp
  then have "unat (a + b) = unat c" using h by (simp add: unat_add_nowrap)
  then have "a + b = c" by (simp add: word_unat_eq_iff)
  with lt show "checked_add a b = Some c" by (simp add: checked_add_def)
qed

lemma checked_add_None [sat_simps]:
  "checked_add a b = None \<longleftrightarrow> 2 ^ LENGTH('a) \<le> unat a + unat b"
  for a b :: "'a::len word"
  by (auto simp: checked_add_def)

lemma checked_sub_Some [sat_simps]:
  "checked_sub a b = Some c \<longleftrightarrow> unat a = unat b + unat c"
  for a b c :: "'a::len word"
proof
  assume "checked_sub a b = Some c"
  then show "unat a = unat b + unat c"
    by (auto simp: checked_sub_def unat_sub_nowrap word_le_nat_alt split: if_splits)
next
  assume h: "unat a = unat b + unat c"
  then have le: "b \<le> a" by (simp add: word_le_nat_alt)
  with h have "unat (a - b) = unat c" by (simp add: unat_sub_nowrap)
  then have "a - b = c" by (simp add: word_unat_eq_iff)
  with le show "checked_sub a b = Some c" by (simp add: checked_sub_def)
qed

lemma checked_sub_None [sat_simps]:
  "checked_sub a b = None \<longleftrightarrow> unat a < unat b"
  for a b :: "'a::len word"
  by (auto simp: checked_sub_def word_le_nat_alt)

lemma saturating_add_0 [simp]: "saturating_add a 0 = a"
  by (simp add: saturating_add_def)

lemma saturating_sub_0 [simp]: "saturating_sub a 0 = a"
  by (simp add: saturating_sub_def)

lemma saturating_mul_1 [simp]: "saturating_mul a 1 = a"
  by (auto simp: saturating_mul_def word_unat_eq_iff)

definition i64_MIN :: int where "i64_MIN = - (2 ^ 63)"
definition i64_MAX :: int where "i64_MAX = 2 ^ 63 - 1"
definition i128_MIN :: int where "i128_MIN = - (2 ^ 127)"
definition i128_MAX :: int where "i128_MAX = 2 ^ 127 - 1"

definition in_i64 :: "int \<Rightarrow> bool" where
  "in_i64 x \<longleftrightarrow> i64_MIN \<le> x \<and> x \<le> i64_MAX"

definition in_i128 :: "int \<Rightarrow> bool" where
  "in_i128 x \<longleftrightarrow> i128_MIN \<le> x \<and> x \<le> i128_MAX"

text \<open>The exact result clamped to the type's range: every signed \<open>saturating_*\<close>.\<close>

definition sat_i64 :: "int \<Rightarrow> int" where
  "sat_i64 x = max i64_MIN (min i64_MAX x)"

definition sat_i128 :: "int \<Rightarrow> int" where
  "sat_i128 x = max i128_MIN (min i128_MAX x)"

definition wrap_i64 :: "int \<Rightarrow> int" where
  "wrap_i64 x = (x + 2 ^ 63) mod 2 ^ 64 - 2 ^ 63"

definition checked_i64 :: "int \<Rightarrow> int option" where
  "checked_i64 x = (if in_i64 x then Some x else None)"

definition checked_i128 :: "int \<Rightarrow> int option" where
  "checked_i128 x = (if in_i128 x then Some x else None)"

lemmas i64_defs = in_i64_def i64_MIN_def i64_MAX_def
lemmas i128_defs = in_i128_def i128_MIN_def i128_MAX_def

lemma in_i64_sat [simp]: "in_i64 (sat_i64 x)"
  by (simp add: sat_i64_def i64_defs)

lemma sat_i64_id: "in_i64 x \<Longrightarrow> sat_i64 x = x"
  by (simp add: sat_i64_def in_i64_def)

lemma sat_i64_mono: "x \<le> y \<Longrightarrow> sat_i64 x \<le> sat_i64 y"
  by (simp add: sat_i64_def)

lemma sat_i64_nonneg: "0 \<le> x \<Longrightarrow> 0 \<le> sat_i64 x"
  by (simp add: sat_i64_def i64_defs)

lemma sat_i64_of_nonneg: "0 \<le> x \<Longrightarrow> sat_i64 x = min i64_MAX x"
  by (simp add: sat_i64_def i64_defs)

lemma sat_i128_id: "in_i128 x \<Longrightarrow> sat_i128 x = x"
  by (simp add: sat_i128_def in_i128_def)

lemma sat_i128_mono: "x \<le> y \<Longrightarrow> sat_i128 x \<le> sat_i128 y"
  by (simp add: sat_i128_def)

lemma sat_i128_nonneg: "0 \<le> x \<Longrightarrow> 0 \<le> sat_i128 x"
  by (simp add: sat_i128_def i128_defs)

lemma wrap_i64_id: "in_i64 x \<Longrightarrow> wrap_i64 x = x"
  by (simp add: wrap_i64_def i64_defs)

lemma in_i64_wrap [simp]: "in_i64 (wrap_i64 x)"
  unfolding wrap_i64_def i64_defs by (auto intro: pos_mod_sign order_trans)

lemma checked_i128_Some [sat_simps]: "checked_i128 x = Some y \<longleftrightarrow> y = x \<and> in_i128 x"
  by (auto simp: checked_i128_def)

lemma checked_i64_Some [sat_simps]: "checked_i64 x = Some y \<longleftrightarrow> y = x \<and> in_i64 x"
  by (auto simp: checked_i64_def)

lemma checked_i64_None [sat_simps]: "checked_i64 x = None \<longleftrightarrow> \<not> in_i64 x"
  by (auto simp: checked_i64_def)

lemma checked_i128_None [sat_simps]: "checked_i128 x = None \<longleftrightarrow> \<not> in_i128 x"
  by (auto simp: checked_i128_def)


section \<open>Errors and orderings\<close>

text \<open>
  The error types and codes of the XDR interface, with the constructor names the source
  uses. \<open>Error::from_contract_error\<close> carries an arbitrary 32-bit code.
\<close>

datatype ScErrorType =
  WasmVm | Context | Storage | Object | Crypto | Events | Budget | Value | Auth

datatype ScErrorCode =
  ArithDomain | IndexBounds | InvalidInput | MissingValue | ExistingValue |
  ExceededLimit | InvalidAction | InternalError | UnexpectedType | UnexpectedSize

datatype Error = Err ScErrorType ScErrorCode | ContractErr u32

datatype Ordering = Less | Equal | Greater

fun reverse_ord :: "Ordering \<Rightarrow> Ordering" where
  "reverse_ord Less = Greater"
| "reverse_ord Equal = Equal"
| "reverse_ord Greater = Less"

definition cmp_of :: "'a::linorder \<Rightarrow> 'a \<Rightarrow> Ordering" where
  "cmp_of a b = (if a < b then Less else if a = b then Equal else Greater)"

lemma cmp_of_simps [simp]:
  "cmp_of a b = Less \<longleftrightarrow> a < b"
  "cmp_of a b = Equal \<longleftrightarrow> a = b"
  "cmp_of a b = Greater \<longleftrightarrow> b < a"
  by (auto simp: cmp_of_def)

lemma cmp_of_less: "a < b \<Longrightarrow> cmp_of a b = Less"
  by simp

section \<open>Fallible operations on a mutable state\<close>

type_synonym ('s, 'a) hm = "'s \<Rightarrow> (Error + 'a) \<times> 's"

definition retM :: "'a \<Rightarrow> ('s, 'a) hm" where
  "retM x = (\<lambda>s. (Inr x, s))"

definition throwM :: "Error \<Rightarrow> ('s, 'a) hm" where
  "throwM e = (\<lambda>s. (Inl e, s))"

definition bindM :: "('s, 'a) hm \<Rightarrow> ('a \<Rightarrow> ('s, 'b) hm) \<Rightarrow> ('s, 'b) hm" where
  "bindM m f = (\<lambda>s. case m s of (Inl e, s') \<Rightarrow> (Inl e, s') | (Inr x, s') \<Rightarrow> f x s')"

abbreviation thenM :: "('s, 'a) hm \<Rightarrow> ('s, 'b) hm \<Rightarrow> ('s, 'b) hm" where
  "thenM m n \<equiv> bindM m (\<lambda>_. n)"

definition getM :: "('s \<Rightarrow> 'a) \<Rightarrow> ('s, 'a) hm" where
  "getM f = (\<lambda>s. (Inr (f s), s))"

definition modifyM :: "('s \<Rightarrow> 's) \<Rightarrow> ('s, unit) hm" where
  "modifyM f = (\<lambda>s. (Inr (), f s))"

definition guardM :: "bool \<Rightarrow> Error \<Rightarrow> ('s, unit) hm" where
  "guardM b e = (if b then retM () else throwM e)"

definition okOrM :: "'a option \<Rightarrow> Error \<Rightarrow> ('s, 'a) hm" where
  "okOrM x e = (case x of None \<Rightarrow> throwM e | Some y \<Rightarrow> retM y)"

text \<open>Running an operation on one component of a larger state.\<close>

definition zoomM :: "('t \<Rightarrow> 's) \<Rightarrow> ('s \<Rightarrow> 't \<Rightarrow> 't) \<Rightarrow> ('s, 'a) hm \<Rightarrow> ('t, 'a) hm" where
  "zoomM gt st m = (\<lambda>t. case m (gt t) of (r, s) \<Rightarrow> (r, st s t))"

lemma bindM_Inr [m_simps]:
  "bindM m f s = (Inr y, s'') \<longleftrightarrow> (\<exists>x s'. m s = (Inr x, s') \<and> f x s' = (Inr y, s''))"
  by (auto simp: bindM_def split: prod.splits sum.splits)

lemma bindM_Inl:
  "bindM m f s = (Inl e, s'') \<longleftrightarrow>
     m s = (Inl e, s'') \<or> (\<exists>x s'. m s = (Inr x, s') \<and> f x s' = (Inl e, s''))"
  by (auto simp: bindM_def split: prod.splits sum.splits)

lemma retM_Inr [m_simps]: "retM x s = (Inr y, s') \<longleftrightarrow> y = x \<and> s' = s"
  by (auto simp: retM_def)

lemma retM_not_Inl [simp]: "retM x s \<noteq> (Inl e, s')"
  by (simp add: retM_def)

lemma throwM_not_Inr [simp]: "throwM e s \<noteq> (Inr y, s')"
  by (simp add: throwM_def)

lemma throwM_Inl [m_simps]: "throwM e s = (Inl e', s') \<longleftrightarrow> e' = e \<and> s' = s"
  by (auto simp: throwM_def)

lemma getM_Inr [m_simps]: "getM f s = (Inr y, s') \<longleftrightarrow> y = f s \<and> s' = s"
  by (auto simp: getM_def)

lemma modifyM_Inr [m_simps]: "modifyM f s = (Inr y, s') \<longleftrightarrow> s' = f s"
  by (auto simp: modifyM_def)

lemma guardM_Inr [m_simps]: "guardM b e s = (Inr y, s') \<longleftrightarrow> b \<and> s' = s"
  by (auto simp: guardM_def m_simps)

lemma okOrM_Inr [m_simps]: "okOrM x e s = (Inr y, s') \<longleftrightarrow> x = Some y \<and> s' = s"
  by (auto simp: okOrM_def m_simps split: option.splits)

lemma zoomM_Inr [m_simps]:
  "zoomM g u m t = (Inr y, t') \<longleftrightarrow> (\<exists>s'. m (g t) = (Inr y, s') \<and> t' = u s' t)"
  by (auto simp: zoomM_def split: prod.splits)

lemma retM_bind [simp]: "bindM (retM x) f = f x"
  by (simp add: bindM_def retM_def)

lemma bindM_retM [simp]: "bindM m retM = m"
  by (auto simp: bindM_def retM_def fun_eq_iff split: prod.splits sum.splits)

lemma getM_bind [simp]: "bindM (getM h) f s = f (h s) s"
  by (simp add: bindM_def getM_def)

lemma modifyM_bind [simp]: "bindM (modifyM h) f s = f () (h s)"
  by (simp add: bindM_def modifyM_def)

lemma retM_apply: "retM x s = (Inr x, s)" and throwM_apply: "throwM e s = (Inl e, s)"
  by (simp_all add: retM_def throwM_def)

lemma modifyM_apply: "modifyM h s = (Inr (), h s)"
  by (simp add: modifyM_def)

lemma bindM_run: "m s = (Inr x, s') \<Longrightarrow> bindM m f s = f x s'"
  by (simp add: bindM_def)

lemma bindM_run_err: "m s = (Inl e, s') \<Longrightarrow> bindM m f s = (Inl e, s')"
  by (simp add: bindM_def)

lemma bindM_case:
  "m s = (r, s') \<Longrightarrow> bindM m f s = (case r of Inl e \<Rightarrow> (Inl e, s') | Inr x \<Rightarrow> f x s')"
  by (simp add: bindM_def split: sum.split)

lemma throwM_bind [simp]: "bindM (throwM e) f = throwM e"
  by (simp add: bindM_def throwM_def)

lemma bindM_assoc: "bindM (bindM m f) g = bindM m (\<lambda>x. bindM (f x) g)"
  by (auto simp: bindM_def fun_eq_iff split: prod.splits sum.splits)

lemma bindM_cong [fundef_cong]:
  assumes "m s = m' s'"
    and "\<And>x t. m' s' = (Inr x, t) \<Longrightarrow> f x t = f' x t"
  shows "bindM m f s = bindM m' f' s'"
  using assms by (auto simp: bindM_def split: prod.splits sum.splits)

lemmas m_defs = bindM_def retM_def throwM_def getM_def modifyM_def guardM_def okOrM_def zoomM_def

text \<open>
  \<open>keepsM I m\<close>: the state predicate \<open>I\<close> survives the operation on every path, errors
  included. Interior mutability makes this the form an invariant takes in the host.
\<close>

definition keepsM :: "('s \<Rightarrow> bool) \<Rightarrow> ('s, 'a) hm \<Rightarrow> bool" where
  "keepsM I m \<longleftrightarrow> (\<forall>s. I s \<longrightarrow> I (snd (m s)))"

lemma keepsM_ret [intro!, simp]: "keepsM I (retM x)"
  by (simp add: keepsM_def retM_def)

lemma keepsM_throw [intro!, simp]: "keepsM I (throwM e)"
  by (simp add: keepsM_def throwM_def)

lemma keepsM_get [intro!, simp]: "keepsM I (getM f)"
  by (simp add: keepsM_def getM_def)

lemma keepsM_guard [intro!, simp]: "keepsM I (guardM b e)"
  by (simp add: guardM_def)

lemma keepsM_okOr [intro!, simp]: "keepsM I (okOrM x e)"
  by (simp add: okOrM_def split: option.splits)

lemma keepsM_bind [intro]:
  "keepsM I m \<Longrightarrow> (\<And>x. keepsM I (f x)) \<Longrightarrow> keepsM I (bindM m f)"
  by (fastforce simp: keepsM_def bindM_def split: prod.splits sum.splits)

lemma keepsM_D: "keepsM I m \<Longrightarrow> m s = (r, s') \<Longrightarrow> I s \<Longrightarrow> I s'"
  by (force simp: keepsM_def)

text \<open>
  \<open>relM R m\<close>: every run relates its start to its end state by \<open>R\<close>; \<open>pureM m\<close>: no run changes the
  state.
\<close>

definition relM :: "('s \<Rightarrow> 's \<Rightarrow> bool) \<Rightarrow> ('s, 'a) hm \<Rightarrow> bool" where
  "relM R m \<longleftrightarrow> (\<forall>s. R s (snd (m s)))"

abbreviation pureM :: "('s, 'a) hm \<Rightarrow> bool" where
  "pureM \<equiv> relM (\<lambda>s s'. s' = s)"

lemma pureM_simps [intro!, simp]:
  "pureM (retM x)" "pureM (throwM e)" "pureM (getM f)" "pureM (guardM c e)" "pureM (okOrM y e)"
  by (auto simp: relM_def m_defs split: option.splits)

lemma relM_pure: "reflp R \<Longrightarrow> pureM m \<Longrightarrow> relM R m"
  by (simp add: relM_def reflpD)

lemma relM_bind:
  assumes "transp R" "relM R m" "\<And>x. relM R (f x)"
  shows "relM R (bindM m f)"
  unfolding relM_def
proof
  fix s
  obtain r s' where m: "m s = (r, s')" by (cases "m s")
  have 1: "R s s'" using assms(2) m by (metis relM_def snd_conv)
  show "R s (snd (bindM m f s))"
  proof (cases r)
    case (Inr x)
    have "R s' (snd (f x s'))" using assms(3) by (simp add: relM_def)
    with 1 have "R s (snd (f x s'))" using assms(1) by (blast dest: transpD)
    then show ?thesis by (simp add: bindM_def m Inr)
  qed (use 1 m in \<open>simp add: bindM_def\<close>)
qed

lemma pureM_bind [intro]:
  assumes "pureM m" "\<And>x. pureM (f x)" shows "pureM (bindM m f)"
  by (rule relM_bind [OF _ assms]) (rule transpI, simp)

lemma pureM_if [intro]: "pureM m \<Longrightarrow> pureM n \<Longrightarrow> pureM (if c then m else n)"
  by simp

lemma pureM_run: "pureM m \<Longrightarrow> m s = (r, s') \<Longrightarrow> s' = s"
  unfolding relM_def by (drule spec [of _ s]) simp

section \<open>Lists\<close>

lemma sorted_wrt_nth_iff:
  "sorted_wrt P xs \<longleftrightarrow> (\<forall>i j. i < j \<longrightarrow> j < length xs \<longrightarrow> P (xs ! i) (xs ! j))"
  by (auto simp: sorted_wrt_iff_nth_less)

lemma take_Cons_drop: "i < length xs \<Longrightarrow> take i xs @ xs ! i # drop (Suc i) xs = xs"
  by (rule id_take_nth_drop [symmetric])

lemma take_upd_drop: "i < length xs \<Longrightarrow> take i xs @ y # drop (Suc i) xs = xs[i := y]"
  by (simp add: upd_conv_take_nth_drop)

end
