(* ===== verification/Fees.thy ===== *)
theory Fees
  imports Prelude
begin

text \<open>
  Model of \<^verbatim>\<open>soroban-env-host/src/fees.rs\<close>: resource fees, the ledger write fee and rent.

  Sizes and ledger numbers are \<open>u32\<close> words, fee rates and fees are \<open>i64\<close> values
  (\<^typ>\<open>int\<close>, every operation clamped by \<^const>\<open>sat_i64\<close> where the source saturates).
  \<open>num_integer::div_ceil\<close> is a function of a third-party crate: it is the parameter \<open>dc\<close>
  of the definitions, and its documented contract, ceiled integer division, is the locale
  \<open>ceiled_division\<close>. The theorems show that fees of a sane configuration are never negative,
  grow with the resources they pay for, that the write fee starts at the low rate and meets the
  high rate exactly at the target bucket list size, that the rent charged is exactly the rent
  due for the ledgers and bytes a change adds, and that splitting a rent extension into two
  never makes it cheaper.
\<close>

section \<open>The contract of \<open>div_ceil\<close>\<close>

locale ceiled_division =
  fixes dc :: "int \<Rightarrow> int \<Rightarrow> int"
  assumes dc_upper: "0 < b \<Longrightarrow> a \<le> b * dc a b"
    and dc_lower: "0 < b \<Longrightarrow> b * (dc a b - 1) < a"
begin

lemma dc_leI: "0 < b \<Longrightarrow> a \<le> b * q \<Longrightarrow> dc a b \<le> q"
proof (rule ccontr)
  assume b: "0 < b" and q: "a \<le> b * q" and "\<not> dc a b \<le> q"
  then have "b * q \<le> b * (dc a b - 1)" by (intro mult_left_mono) auto
  with dc_lower [OF b, of a] q show False by linarith
qed

lemma dc_mono: "0 < b \<Longrightarrow> a \<le> a' \<Longrightarrow> dc a b \<le> dc a' b"
  by (rule dc_leI) (auto intro: order_trans dc_upper)

lemma dc_mult [simp]: "0 < b \<Longrightarrow> dc (q * b) b = q"
proof (rule antisym)
  assume b: "0 < b"
  then show "dc (q * b) b \<le> q" by (intro dc_leI) (simp_all add: mult.commute)
  from dc_upper [OF b, of "q * b"] have "b * q \<le> b * dc (q * b) b" by (simp add: mult.commute)
  with b show "q \<le> dc (q * b) b" by simp
qed

lemma dc_zero [simp]: "0 < b \<Longrightarrow> dc 0 b = 0"
  using dc_mult [of b 0] by simp

lemma dc_nonneg: "0 < b \<Longrightarrow> 0 \<le> a \<Longrightarrow> 0 \<le> dc a b"
  using dc_mono [of b 0 a] by simp

lemma dc_subadd: "0 < b \<Longrightarrow> a \<le> x + y \<Longrightarrow> dc a b \<le> dc x b + dc y b"
  by (rule dc_leI) (use dc_upper [of b x] dc_upper [of b y] in \<open>auto simp: distrib_left\<close>)

lemma dc_le_self:
  assumes b: "0 < b" and a: "0 \<le> a"
  shows "dc a b \<le> a"
proof (rule dc_leI [OF b])
  from a b have "a * 1 \<le> a * b" by (intro mult_left_mono) auto
  then show "a \<le> b * a" by (simp add: mult.commute)
qed

end

definition div_ceil :: "int \<Rightarrow> int \<Rightarrow> int" where
  "div_ceil a b = - ((- a) div b)"

interpretation cd: ceiled_division div_ceil
proof unfold_locales
  fix a b :: int
  assume b: "0 < b"
  have eq: "b * ((- a) div b) + (- a) mod b = - a" by (rule mult_div_mod_eq)
  have bounds: "0 \<le> (- a) mod b" "(- a) mod b < b" using b by simp_all
  show "a \<le> b * div_ceil a b"
    using eq bounds unfolding div_ceil_def mult_minus_right by linarith
  show "b * (div_ceil a b - 1) < a"
    using eq bounds unfolding div_ceil_def right_diff_distrib mult_minus_right by linarith
qed

section \<open>Resource fee\<close>

definition TX_BASE_RESULT_SIZE :: u32 where "TX_BASE_RESULT_SIZE = 300"
definition TTL_ENTRY_SIZE :: u32 where "TTL_ENTRY_SIZE = 48"
definition INSTRUCTIONS_INCREMENT :: int where "INSTRUCTIONS_INCREMENT = 10000"
definition DATA_SIZE_1KB_INCREMENT :: int where "DATA_SIZE_1KB_INCREMENT = 1024"

record TransactionResources =
  instructions :: u32
  read_entries :: u32
  write_entries :: u32
  read_bytes :: u32
  write_bytes :: u32
  contract_events_size_bytes :: u32
  transaction_size_bytes :: u32

record FeeConfiguration =
  fee_per_instruction_increment :: int
  fee_per_read_entry :: int
  fee_per_write_entry :: int
  fee_per_read_1kb :: int
  fee_per_write_1kb :: int
  fee_per_historical_1kb :: int
  fee_per_contract_event_1kb :: int
  fee_per_transaction_size_1kb :: int

definition compute_fee_per_increment :: "(int \<Rightarrow> int \<Rightarrow> int) \<Rightarrow> u32 \<Rightarrow> int \<Rightarrow> int \<Rightarrow> int" where
  "compute_fee_per_increment dc resource_value fee_rate increment =
     dc (sat_i64 (uint resource_value * fee_rate)) increment"

definition compute_transaction_resource_fee ::
  "(int \<Rightarrow> int \<Rightarrow> int) \<Rightarrow> TransactionResources \<Rightarrow> FeeConfiguration \<Rightarrow> int \<times> int" where
  "compute_transaction_resource_fee dc r c =
     (let compute_fee = compute_fee_per_increment dc (instructions r)
            (fee_per_instruction_increment c) INSTRUCTIONS_INCREMENT;
          ledger_read_entry_fee = sat_i64 (fee_per_read_entry c *
            uint (saturating_add (read_entries r) (write_entries r)));
          ledger_write_entry_fee = sat_i64 (fee_per_write_entry c * uint (write_entries r));
          ledger_read_bytes_fee = compute_fee_per_increment dc (read_bytes r)
            (fee_per_read_1kb c) DATA_SIZE_1KB_INCREMENT;
          ledger_write_bytes_fee = compute_fee_per_increment dc (write_bytes r)
            (fee_per_write_1kb c) DATA_SIZE_1KB_INCREMENT;
          historical_fee = compute_fee_per_increment dc
            (saturating_add (transaction_size_bytes r) TX_BASE_RESULT_SIZE)
            (fee_per_historical_1kb c) DATA_SIZE_1KB_INCREMENT;
          events_fee = compute_fee_per_increment dc (contract_events_size_bytes r)
            (fee_per_contract_event_1kb c) DATA_SIZE_1KB_INCREMENT;
          bandwidth_fee = compute_fee_per_increment dc (transaction_size_bytes r)
            (fee_per_transaction_size_1kb c) DATA_SIZE_1KB_INCREMENT;
          refundable_fee = events_fee;
          non_refundable_fee = sat_i64 (sat_i64 (sat_i64 (sat_i64 (sat_i64 (sat_i64
            (compute_fee + ledger_read_entry_fee) + ledger_write_entry_fee) +
            ledger_read_bytes_fee) + ledger_write_bytes_fee) + historical_fee) + bandwidth_fee)
      in (non_refundable_fee, refundable_fee))"

section \<open>Write fee\<close>

record WriteFeeConfiguration =
  bucket_list_target_size_bytes :: int
  write_fee_1kb_bucket_list_low :: int
  write_fee_1kb_bucket_list_high :: int
  bucket_list_write_fee_growth_factor :: u32

definition clamp_fee_i64 :: "int \<Rightarrow> int" where
  "clamp_fee_i64 x = (if x < 0 then i64_MAX else x)"

definition clamp_fee_i128 :: "int \<Rightarrow> int" where
  "clamp_fee_i128 x = (if x < 0 then i64_MAX else
     (case checked_i64 x of Some y \<Rightarrow> y | None \<Rightarrow> i64_MAX))"

definition compute_write_fee_per_1kb ::
  "(int \<Rightarrow> int \<Rightarrow> int) \<Rightarrow> int \<Rightarrow> WriteFeeConfiguration \<Rightarrow> int" where
  "compute_write_fee_per_1kb dc bucket_list_size_bytes c =
     (let fee_rate_multiplier = clamp_fee_i64 (sat_i64
            (write_fee_1kb_bucket_list_high c - write_fee_1kb_bucket_list_low c));
          target = bucket_list_target_size_bytes c;
          size_before = min bucket_list_size_bytes target;
          fee0 = clamp_fee_i128 (dc (sat_i128 (fee_rate_multiplier * size_before)) target);
          fee1 = sat_i64 (fee0 + write_fee_1kb_bucket_list_low c)
      in if bucket_list_size_bytes > target then
           (let size_after = wrap_i64 (bucket_list_size_bytes - target);
                post = clamp_fee_i128 (dc (sat_i128 (sat_i128 (fee_rate_multiplier * size_after) *
                  uint (bucket_list_write_fee_growth_factor c))) target)
            in sat_i64 (fee1 + post))
         else fee1)"

section \<open>Rent\<close>

record LedgerEntryRentChange =
  is_persistent :: bool
  old_size_bytes :: u32
  new_size_bytes :: u32
  old_live_until_ledger :: u32
  new_live_until_ledger :: u32

record RentFeeConfiguration =
  rent_fee_per_write_1kb :: int
  rent_fee_per_write_entry :: int
  persistent_rent_rate_denominator :: int
  temporary_rent_rate_denominator :: int

definition exclusive_ledger_diff :: "u32 \<Rightarrow> u32 \<Rightarrow> u32 option" where
  "exclusive_ledger_diff lo hi = checked_sub hi lo"

definition inclusive_ledger_diff :: "u32 \<Rightarrow> u32 \<Rightarrow> u32 option" where
  "inclusive_ledger_diff lo hi =
     map_option (\<lambda>diff. saturating_add diff 1) (exclusive_ledger_diff lo hi)"

definition entry_is_new :: "LedgerEntryRentChange \<Rightarrow> bool" where
  "entry_is_new e \<longleftrightarrow> old_size_bytes e = 0 \<and> old_live_until_ledger e = 0"

definition extension_ledgers :: "LedgerEntryRentChange \<Rightarrow> u32 \<Rightarrow> u32 option" where
  "extension_ledgers e current_ledger =
     (let ledger_before_extension =
        (if entry_is_new e then saturating_sub current_ledger 1 else old_live_until_ledger e)
      in exclusive_ledger_diff ledger_before_extension (new_live_until_ledger e))"

definition prepaid_ledgers :: "LedgerEntryRentChange \<Rightarrow> u32 \<Rightarrow> u32 option" where
  "prepaid_ledgers e current_ledger =
     (if entry_is_new e then None
      else inclusive_ledger_diff current_ledger (old_live_until_ledger e))"

definition size_increase :: "LedgerEntryRentChange \<Rightarrow> u32 option" where
  "size_increase e = checked_sub (new_size_bytes e) (old_size_bytes e)"

definition rent_fee_for_size_and_ledgers ::
  "(int \<Rightarrow> int \<Rightarrow> int) \<Rightarrow> bool \<Rightarrow> u32 \<Rightarrow> u32 \<Rightarrow> RentFeeConfiguration \<Rightarrow> int" where
  "rent_fee_for_size_and_ledgers dc persistent entry_size rent_ledgers c =
     (let num = sat_i64 (sat_i64 (uint entry_size * rent_fee_per_write_1kb c) *
            uint rent_ledgers);
          storage_coef = (if persistent then persistent_rent_rate_denominator c
            else temporary_rent_rate_denominator c);
          denom = sat_i64 (DATA_SIZE_1KB_INCREMENT * storage_coef)
      in dc num denom)"

definition rent_fee_per_entry_change ::
  "(int \<Rightarrow> int \<Rightarrow> int) \<Rightarrow> LedgerEntryRentChange \<Rightarrow> RentFeeConfiguration \<Rightarrow> u32 \<Rightarrow> int" where
  "rent_fee_per_entry_change dc e c current_ledger =
     (let fee0 = (case extension_ledgers e current_ledger of
            Some rent_ledgers \<Rightarrow> sat_i64 (0 + rent_fee_for_size_and_ledgers dc
              (is_persistent e) (new_size_bytes e) rent_ledgers c)
          | None \<Rightarrow> 0)
      in (case (prepaid_ledgers e current_ledger, size_increase e) of
            (Some rent_ledgers, Some entry_size) \<Rightarrow> sat_i64 (fee0 +
              rent_fee_for_size_and_ledgers dc (is_persistent e) entry_size rent_ledgers c)
          | _ \<Rightarrow> fee0))"

text \<open>The loop of \<open>compute_rent_fee\<close>: its three accumulators after each entry.\<close>

definition compute_rent_fee_step ::
  "(int \<Rightarrow> int \<Rightarrow> int) \<Rightarrow> RentFeeConfiguration \<Rightarrow> u32 \<Rightarrow> LedgerEntryRentChange \<Rightarrow>
     int \<times> int \<times> u32 \<Rightarrow> int \<times> int \<times> u32" where
  "compute_rent_fee_step dc c seq e = (\<lambda>(fee, extended_entries, key_size).
     (let fee' = sat_i64 (fee + rent_fee_per_entry_change dc e c seq)
      in if old_live_until_ledger e < new_live_until_ledger e
         then (fee', sat_i64 (extended_entries + 1), saturating_add key_size TTL_ENTRY_SIZE)
         else (fee', extended_entries, key_size)))"

definition compute_rent_fee ::
  "(int \<Rightarrow> int \<Rightarrow> int) \<Rightarrow> LedgerEntryRentChange list \<Rightarrow> RentFeeConfiguration \<Rightarrow> u32 \<Rightarrow> int" where
  "compute_rent_fee dc changed_entries c current_ledger_seq =
     (case fold (compute_rent_fee_step dc c current_ledger_seq) changed_entries (0, 0, 0) of
        (fee, extended_entries, key_size) \<Rightarrow>
          (let fee1 = sat_i64 (fee + sat_i64 (rent_fee_per_write_entry c * extended_entries))
           in sat_i64 (fee1 + compute_fee_per_increment dc key_size
                (rent_fee_per_write_1kb c) DATA_SIZE_1KB_INCREMENT)))"

section \<open>Resource fees of a sane configuration\<close>

definition sane_fee_configuration :: "FeeConfiguration \<Rightarrow> bool" where
  "sane_fee_configuration c \<longleftrightarrow>
     0 \<le> fee_per_instruction_increment c \<and> 0 \<le> fee_per_read_entry c \<and>
     0 \<le> fee_per_write_entry c \<and> 0 \<le> fee_per_read_1kb c \<and> 0 \<le> fee_per_write_1kb c \<and>
     0 \<le> fee_per_historical_1kb c \<and> 0 \<le> fee_per_contract_event_1kb c \<and>
     0 \<le> fee_per_transaction_size_1kb c"

definition resources_le :: "TransactionResources \<Rightarrow> TransactionResources \<Rightarrow> bool" where
  "resources_le r r' \<longleftrightarrow>
     instructions r \<le> instructions r' \<and> read_entries r \<le> read_entries r' \<and>
     write_entries r \<le> write_entries r' \<and> read_bytes r \<le> read_bytes r' \<and>
     write_bytes r \<le> write_bytes r' \<and>
     contract_events_size_bytes r \<le> contract_events_size_bytes r' \<and>
     transaction_size_bytes r \<le> transaction_size_bytes r'"

lemmas fee_consts = INSTRUCTIONS_INCREMENT_def DATA_SIZE_1KB_INCREMENT_def
  TX_BASE_RESULT_SIZE_def TTL_ENTRY_SIZE_def

lemma sat_i64_le: "0 \<le> x \<Longrightarrow> sat_i64 x \<le> x"
  by (simp add: sat_i64_def i64_defs)

lemma sat_i64_subadd: "0 \<le> x \<Longrightarrow> 0 \<le> y \<Longrightarrow> sat_i64 (x + y) \<le> sat_i64 x + sat_i64 y"
  by (auto simp: sat_i64_def i64_defs)

lemma sat_i64_add_mono: "x \<le> x' \<Longrightarrow> y \<le> y' \<Longrightarrow> sat_i64 (x + y) \<le> sat_i64 (x' + y')"
  by (intro sat_i64_mono add_mono)

lemma in_i64_bounded: "0 \<le> x \<Longrightarrow> x \<le> i64_MAX \<Longrightarrow> in_i64 x"
  by (simp add: i64_defs)

lemma in_i64_le: "in_i64 x \<Longrightarrow> x \<le> i64_MAX"
  by (simp add: i64_defs)

lemma sat_i64_le_MAX: "sat_i64 x \<le> i64_MAX"
  by (simp add: sat_i64_def i64_defs)

context ceiled_division begin

lemma fee_per_increment_nonneg:
  "0 \<le> rate \<Longrightarrow> 0 < inc \<Longrightarrow> 0 \<le> compute_fee_per_increment dc v rate inc"
  unfolding compute_fee_per_increment_def by (intro dc_nonneg sat_i64_nonneg) simp_all

lemma fee_per_increment_le_MAX:
  "0 \<le> rate \<Longrightarrow> 0 < inc \<Longrightarrow> compute_fee_per_increment dc v rate inc \<le> i64_MAX"
  unfolding compute_fee_per_increment_def
  by (rule order_trans [OF dc_le_self sat_i64_le_MAX]) (simp_all add: sat_i64_nonneg)

lemma fee_per_increment_mono:
  "0 \<le> rate \<Longrightarrow> 0 < inc \<Longrightarrow> v \<le> v' \<Longrightarrow>
   compute_fee_per_increment dc v rate inc \<le> compute_fee_per_increment dc v' rate inc"
  unfolding compute_fee_per_increment_def
  by (intro dc_mono sat_i64_mono mult_right_mono) (simp_all add: word_le_def)

lemma fee_per_increment_exact:
  "0 \<le> rate \<Longrightarrow> uint v * rate \<le> i64_MAX \<Longrightarrow>
   compute_fee_per_increment dc v rate inc = dc (uint v * rate) inc"
  unfolding compute_fee_per_increment_def by (simp add: sat_i64_id in_i64_bounded)

lemma resource_fee_bounds:
  assumes "sane_fee_configuration c"
  shows "0 \<le> fst (compute_transaction_resource_fee dc r c)"
    and "fst (compute_transaction_resource_fee dc r c) \<le> i64_MAX"
    and "0 \<le> snd (compute_transaction_resource_fee dc r c)"
    and "snd (compute_transaction_resource_fee dc r c) \<le> i64_MAX"
  using assms
  by (auto simp: compute_transaction_resource_fee_def Let_def sane_fee_configuration_def fee_consts
      intro!: sat_i64_nonneg add_nonneg_nonneg fee_per_increment_nonneg fee_per_increment_le_MAX
        sat_i64_le_MAX mult_nonneg_nonneg)

lemma resource_fee_mono:
  assumes c: "sane_fee_configuration c" and r: "resources_le r r'"
  shows "fst (compute_transaction_resource_fee dc r c)
           \<le> fst (compute_transaction_resource_fee dc r' c)"
    and "snd (compute_transaction_resource_fee dc r c)
           \<le> snd (compute_transaction_resource_fee dc r' c)"
  using c r
  by (auto simp: compute_transaction_resource_fee_def Let_def sane_fee_configuration_def
      resources_le_def fee_consts word_le_def uint_saturating_add
      intro!: sat_i64_mono add_mono fee_per_increment_mono mult_left_mono)

end

text \<open>
  C23: for a configuration with no negative rate, both fee components of any user-supplied
  resources, however large, lie between 0 and \<open>i64::MAX\<close>, and neither component decreases
  when any resource grows: saturation never lets a bigger transaction pay less.
\<close>

theorem resource_fee_nonneg_and_monotone:
  assumes "ceiled_division dc" and "sane_fee_configuration c" and "resources_le r r'"
  shows "0 \<le> fst (compute_transaction_resource_fee dc r c)
    \<and> 0 \<le> snd (compute_transaction_resource_fee dc r c)
    \<and> fst (compute_transaction_resource_fee dc r c)
         \<le> fst (compute_transaction_resource_fee dc r' c)
    \<and> snd (compute_transaction_resource_fee dc r c)
         \<le> snd (compute_transaction_resource_fee dc r' c)
    \<and> fst (compute_transaction_resource_fee dc r' c) \<le> i64_MAX
    \<and> snd (compute_transaction_resource_fee dc r' c) \<le> i64_MAX"
  using assms
  by (simp add: ceiled_division.resource_fee_bounds ceiled_division.resource_fee_mono)

definition sample_resources :: TransactionResources where
  "sample_resources = \<lparr>instructions = 25000, read_entries = 3, write_entries = 2,
     read_bytes = 1500, write_bytes = 700, contract_events_size_bytes = 300,
     transaction_size_bytes = 900\<rparr>"

definition sample_fees :: FeeConfiguration where
  "sample_fees = \<lparr>fee_per_instruction_increment = 100, fee_per_read_entry = 10,
     fee_per_write_entry = 20, fee_per_read_1kb = 5, fee_per_write_1kb = 30,
     fee_per_historical_1kb = 7, fee_per_contract_event_1kb = 11,
     fee_per_transaction_size_1kb = 13\<rparr>"

theorem resource_fee_nonneg_and_monotone_witness:
  "resources_le sample_resources (sample_resources\<lparr>instructions := - 1\<rparr>)
   \<and> compute_transaction_resource_fee div_ceil sample_resources sample_fees = (390, 4)
   \<and> 390 \<le> fst (compute_transaction_resource_fee div_ceil
        (sample_resources\<lparr>instructions := - 1\<rparr>) sample_fees)"
proof -
  have le: "resources_le sample_resources (sample_resources\<lparr>instructions := - 1\<rparr>)"
    by (simp add: resources_le_def sample_resources_def)
  have sane: "sane_fee_configuration sample_fees"
    by (simp add: sane_fee_configuration_def sample_fees_def)
  have v: "compute_transaction_resource_fee div_ceil sample_resources sample_fees = (390, 4)"
    by (simp add: compute_transaction_resource_fee_def sample_resources_def sample_fees_def
          compute_fee_per_increment_def fee_consts,
        simp add: saturating_add_def, simp add: div_ceil_def sat_i64_def i64_defs)
  from resource_fee_nonneg_and_monotone [OF cd.ceiled_division_axioms sane le] v le
  show ?thesis by simp
qed

section \<open>The write fee curve\<close>

definition sane_write_fee_configuration :: "WriteFeeConfiguration \<Rightarrow> bool" where
  "sane_write_fee_configuration c \<longleftrightarrow>
     0 < bucket_list_target_size_bytes c \<and> bucket_list_target_size_bytes c \<le> i64_MAX \<and>
     0 \<le> write_fee_1kb_bucket_list_low c \<and>
     write_fee_1kb_bucket_list_low c \<le> write_fee_1kb_bucket_list_high c \<and>
     write_fee_1kb_bucket_list_high c \<le> i64_MAX"

lemma clamp_fee_i128_nonneg: "0 \<le> x \<Longrightarrow> clamp_fee_i128 x = min x i64_MAX"
  by (auto simp: clamp_fee_i128_def checked_i64_def i64_defs)

lemma clamp_fee_i128_mono: "0 \<le> x \<Longrightarrow> x \<le> y \<Longrightarrow> clamp_fee_i128 x \<le> clamp_fee_i128 y"
  by (simp add: clamp_fee_i128_nonneg)

lemma mult_i64_in_i128:
  assumes "0 \<le> x" "x \<le> i64_MAX" "0 \<le> y" "y \<le> i64_MAX"
  shows "in_i128 (x * y)"
proof -
  have "x * y \<le> i64_MAX * i64_MAX" using assms by (intro mult_mono) auto
  moreover have "0 \<le> x * y" using assms by simp
  ultimately show ?thesis by (simp add: i128_defs i64_MAX_def)
qed

lemma fee_multiplier_sane:
  assumes "sane_write_fee_configuration c"
  shows "clamp_fee_i64 (sat_i64 (write_fee_1kb_bucket_list_high c - write_fee_1kb_bucket_list_low c))
    = write_fee_1kb_bucket_list_high c - write_fee_1kb_bucket_list_low c"
  using assms
  by (simp add: clamp_fee_i64_def sat_i64_id in_i64_bounded sane_write_fee_configuration_def)

context ceiled_division begin

lemma write_fee_up_to_target:
  assumes c: "sane_write_fee_configuration c"
    and sz: "0 \<le> sz" "sz \<le> bucket_list_target_size_bytes c"
  shows "compute_write_fee_per_1kb dc sz c = write_fee_1kb_bucket_list_low c +
    dc ((write_fee_1kb_bucket_list_high c - write_fee_1kb_bucket_list_low c) * sz)
       (bucket_list_target_size_bytes c)" (is "_ = ?low + dc (?m * sz) ?t")
    and "dc ((write_fee_1kb_bucket_list_high c - write_fee_1kb_bucket_list_low c) * sz)
       (bucket_list_target_size_bytes c)
       \<le> write_fee_1kb_bucket_list_high c - write_fee_1kb_bucket_list_low c"
proof -
  note sane = c [unfolded sane_write_fee_configuration_def]
  have m: "0 \<le> ?m" "?m \<le> i64_MAX" and t: "0 < ?t" using sane by auto
  have "in_i128 (?m * sz)" using m sz sane by (intro mult_i64_in_i128) auto
  then have nosat: "sat_i128 (?m * sz) = ?m * sz" by (rule sat_i128_id)
  show le: "dc (?m * sz) ?t \<le> ?m"
    using t mult_left_mono [OF sz(2) m(1)] by (intro dc_leI) (simp_all add: mult.commute)
  have nn: "0 \<le> dc (?m * sz) ?t" using m sz t by (intro dc_nonneg) auto
  have sum: "in_i64 (dc (?m * sz) ?t + ?low)"
    using nn le sane by (intro in_i64_bounded) auto
  show "compute_write_fee_per_1kb dc sz c = ?low + dc (?m * sz) ?t"
    using sz nn le m sum unfolding compute_write_fee_per_1kb_def Let_def fee_multiplier_sane [OF c]
    by (simp add: nosat clamp_fee_i128_nonneg sat_i64_id min_absorb1 add.commute)
qed

lemma write_fee_past_target:
  assumes c: "sane_write_fee_configuration c"
    and sz: "bucket_list_target_size_bytes c < sz" "sz \<le> i64_MAX"
  defines "m \<equiv> write_fee_1kb_bucket_list_high c - write_fee_1kb_bucket_list_low c"
    and "t \<equiv> bucket_list_target_size_bytes c"
  shows "compute_write_fee_per_1kb dc sz c = sat_i64 (write_fee_1kb_bucket_list_high c +
    clamp_fee_i128 (dc (sat_i128 (m * (sz - t) *
      uint (bucket_list_write_fee_growth_factor c))) t))"
proof -
  note sane = c [unfolded sane_write_fee_configuration_def]
  have m: "0 \<le> m" "m \<le> i64_MAX" and t: "0 < t" using sane by (auto simp: m_def t_def)
  have at_target: "compute_write_fee_per_1kb dc t c = write_fee_1kb_bucket_list_high c"
    using write_fee_up_to_target(1) [OF c, of t] t by (simp add: t_def m_def)
  have first: "sat_i64 (clamp_fee_i128 (dc (sat_i128 (m * min sz t)) t)
      + write_fee_1kb_bucket_list_low c) = write_fee_1kb_bucket_list_high c"
    using at_target sz unfolding compute_write_fee_per_1kb_def Let_def fee_multiplier_sane [OF c]
    by (simp add: m_def t_def)
  have wrap: "wrap_i64 (sz - t) = sz - t"
    using sz sane by (intro wrap_i64_id in_i64_bounded) (auto simp: t_def)
  have "in_i128 (m * (sz - t))" using m sz sane by (intro mult_i64_in_i128) (auto simp: t_def)
  then have nosat: "sat_i128 (m * (sz - t)) = m * (sz - t)" by (rule sat_i128_id)
  show ?thesis
    using sz first wrap nosat
    unfolding compute_write_fee_per_1kb_def Let_def fee_multiplier_sane [OF c]
    by (simp add: m_def t_def)
qed

lemma write_fee_ge_high:
  assumes c: "sane_write_fee_configuration c"
    and sz: "bucket_list_target_size_bytes c < sz" "sz \<le> i64_MAX"
  shows "write_fee_1kb_bucket_list_high c \<le> compute_write_fee_per_1kb dc sz c"
  unfolding write_fee_past_target [OF assms]
proof -
  note sane = c [unfolded sane_write_fee_configuration_def]
  let ?post = "clamp_fee_i128 (dc (sat_i128 ((write_fee_1kb_bucket_list_high c -
    write_fee_1kb_bucket_list_low c) * (sz - bucket_list_target_size_bytes c) *
    uint (bucket_list_write_fee_growth_factor c))) (bucket_list_target_size_bytes c))"
  have "0 \<le> ?post" using sane sz
    by (subst clamp_fee_i128_nonneg)
       (auto intro!: dc_nonneg sat_i128_nonneg mult_nonneg_nonneg simp: i64_MAX_def)
  then have "sat_i64 (write_fee_1kb_bucket_list_high c) \<le> sat_i64 (write_fee_1kb_bucket_list_high c + ?post)"
    by (intro sat_i64_mono) simp
  then show "write_fee_1kb_bucket_list_high c \<le> sat_i64 (write_fee_1kb_bucket_list_high c + ?post)"
    using sane by (simp add: sat_i64_id in_i64_bounded)
qed

lemma write_fee_mono:
  assumes c: "sane_write_fee_configuration c" and "0 \<le> s" "s \<le> s'" "s' \<le> i64_MAX"
  shows "compute_write_fee_per_1kb dc s c \<le> compute_write_fee_per_1kb dc s' c"
proof -
  note sane = c [unfolded sane_write_fee_configuration_def]
  let ?t = "bucket_list_target_size_bytes c"
  consider "s' \<le> ?t" | "s \<le> ?t" "?t < s'" | "?t < s" by linarith
  then show ?thesis
  proof cases
    case 1
    with assms sane show ?thesis
      by (auto simp: write_fee_up_to_target intro!: dc_mono mult_left_mono)
  next
    case 2
    then have "compute_write_fee_per_1kb dc s c \<le> write_fee_1kb_bucket_list_high c"
      using assms write_fee_up_to_target [OF c, of s] by linarith
    also have "\<dots> \<le> compute_write_fee_per_1kb dc s' c" using 2 assms by (intro write_fee_ge_high)
    finally show ?thesis .
  next
    case 3
    let ?p = "\<lambda>s. (write_fee_1kb_bucket_list_high c - write_fee_1kb_bucket_list_low c) * (s - ?t) *
      uint (bucket_list_write_fee_growth_factor c)"
    have "?p s \<le> ?p s'" using assms sane by (intro mult_right_mono mult_left_mono) auto
    moreover have "0 \<le> ?p s" using 3 sane by simp
    ultimately have "clamp_fee_i128 (dc (sat_i128 (?p s)) ?t) \<le> clamp_fee_i128 (dc (sat_i128 (?p s')) ?t)"
      using sane by (intro clamp_fee_i128_mono dc_nonneg dc_mono sat_i128_mono sat_i128_nonneg) simp_all
    with 3 assms show ?thesis
      by (simp add: write_fee_past_target) (intro sat_i64_mono, simp)
  qed
qed

end

text \<open>
  C24: the ledger write fee. For a sane configuration it is the low rate on an empty bucket
  list, exactly the high rate at the target size, between the two below the target, at least
  the high rate above it, and it never decreases as the bucket list grows.
\<close>

theorem write_fee_curve:
  assumes "ceiled_division dc" and "sane_write_fee_configuration c"
    and "0 \<le> s" and "s \<le> s'" and "s' \<le> i64_MAX"
  shows "compute_write_fee_per_1kb dc 0 c = write_fee_1kb_bucket_list_low c
    \<and> compute_write_fee_per_1kb dc (bucket_list_target_size_bytes c) c
        = write_fee_1kb_bucket_list_high c
    \<and> compute_write_fee_per_1kb dc s c \<le> compute_write_fee_per_1kb dc s' c
    \<and> (s \<le> bucket_list_target_size_bytes c \<longrightarrow>
         compute_write_fee_per_1kb dc s c \<le> write_fee_1kb_bucket_list_high c)
    \<and> (bucket_list_target_size_bytes c < s' \<longrightarrow>
         write_fee_1kb_bucket_list_high c \<le> compute_write_fee_per_1kb dc s' c)"
proof -
  note cd = ceiled_division.write_fee_up_to_target [OF assms(1,2)]
    ceiled_division.write_fee_ge_high [OF assms(1,2)]
    ceiled_division.write_fee_mono [OF assms(1,2)]
  have t: "0 < bucket_list_target_size_bytes c"
    using assms(2) by (simp add: sane_write_fee_configuration_def)
  with assms show ?thesis
    using cd(2) [of s]
    by (auto simp: cd(1,3,4) ceiled_division.dc_zero ceiled_division.dc_mult)
qed

definition sample_write_fees :: WriteFeeConfiguration where
  "sample_write_fees = \<lparr>bucket_list_target_size_bytes = 1000,
     write_fee_1kb_bucket_list_low = 100, write_fee_1kb_bucket_list_high = 1100,
     bucket_list_write_fee_growth_factor = 50\<rparr>"

theorem write_fee_curve_witness:
  "compute_write_fee_per_1kb div_ceil 0 sample_write_fees = 100
   \<and> compute_write_fee_per_1kb div_ceil 1000 sample_write_fees = 1100
   \<and> compute_write_fee_per_1kb div_ceil 500 sample_write_fees
       \<le> compute_write_fee_per_1kb div_ceil 1001 sample_write_fees
   \<and> 1100 \<le> compute_write_fee_per_1kb div_ceil 1001 sample_write_fees"
proof -
  have "sane_write_fee_configuration sample_write_fees"
    by (simp add: sane_write_fee_configuration_def sample_write_fees_def i64_MAX_def)
  from write_fee_curve [OF cd.ceiled_division_axioms this, of 500 1001]
  show ?thesis by (simp add: sample_write_fees_def i64_MAX_def)
qed

section \<open>Rent of a sane configuration\<close>

definition sane_rent_configuration :: "RentFeeConfiguration \<Rightarrow> bool" where
  "sane_rent_configuration c \<longleftrightarrow>
     0 \<le> rent_fee_per_write_1kb c \<and> 0 \<le> rent_fee_per_write_entry c \<and>
     0 < persistent_rent_rate_denominator c \<and> 0 < temporary_rent_rate_denominator c"

lemma rent_denom_pos:
  "sane_rent_configuration c \<Longrightarrow>
   0 < sat_i64 (1024 * (if p then persistent_rent_rate_denominator c
        else temporary_rent_rate_denominator c))"
  by (auto simp: sane_rent_configuration_def sat_i64_def i64_defs)

context ceiled_division begin

lemma rent_nonneg:
  "sane_rent_configuration c \<Longrightarrow> 0 \<le> rent_fee_for_size_and_ledgers dc p sz n c"
  using rent_denom_pos [of c p] unfolding rent_fee_for_size_and_ledgers_def Let_def fee_consts
  by (intro dc_nonneg) (auto intro!: sat_i64_nonneg mult_nonneg_nonneg simp: sane_rent_configuration_def)

lemma rent_zero:
  assumes "sane_rent_configuration c" and "sz = 0 \<or> n = 0"
  shows "rent_fee_for_size_and_ledgers dc p sz n c = 0"
proof -
  have "sat_i64 (sat_i64 (uint sz * rent_fee_per_write_1kb c) * uint n) = 0"
    using assms(2) by (auto simp: sat_i64_def i64_defs)
  then show ?thesis using rent_denom_pos [OF assms(1), of p]
    by (simp add: rent_fee_for_size_and_ledgers_def Let_def fee_consts)
qed

lemma rent_subadd:
  assumes c: "sane_rent_configuration c" and n: "unat n = unat n1 + unat n2"
  shows "rent_fee_for_size_and_ledgers dc p sz n c
    \<le> rent_fee_for_size_and_ledgers dc p sz n1 c + rent_fee_for_size_and_ledgers dc p sz n2 c"
proof -
  let ?r = "sat_i64 (uint sz * rent_fee_per_write_1kb c)"
  have r: "0 \<le> ?r" using c by (simp add: sane_rent_configuration_def sat_i64_nonneg)
  have "int (unat n) = int (unat n1) + int (unat n2)" using n by simp
  then have "uint n = uint n1 + uint n2" by simp
  then have "?r * uint n = ?r * uint n1 + ?r * uint n2" by (simp add: distrib_left)
  then have "sat_i64 (?r * uint n) \<le> sat_i64 (?r * uint n1) + sat_i64 (?r * uint n2)"
    using r sat_i64_subadd [of "?r * uint n1" "?r * uint n2"] by simp
  then show ?thesis
    using dc_subadd [OF rent_denom_pos [OF c, of p]]
    by (simp add: rent_fee_for_size_and_ledgers_def Let_def fee_consts)
qed

lemma dc_div_ceil: "0 < b \<Longrightarrow> dc a b = div_ceil a b"
  using dc_leI [of b a "div_ceil a b"] cd.dc_leI [of b a "dc a b"] dc_upper [of b a] cd.dc_upper [of b a]
  by (intro antisym) simp_all

end

text \<open>
  What the rent is meant to be, on integers. Rent buys ledgers at a price per byte and ledger,
  rounded up. A change pays for the ledgers added to the lifetime at the new size, and for the
  bytes added over the ledgers that were already paid for. Every extended entry is also
  written once, with the 48 bytes of its lifetime entry. The caps are the widths of the
  source's integers.
\<close>

definition rent_price :: "RentFeeConfiguration \<Rightarrow> bool \<Rightarrow> int \<Rightarrow> int \<Rightarrow> int" where
  "rent_price c persistent bytes ledgers =
     div_ceil (min i64_MAX (bytes * rent_fee_per_write_1kb c * ledgers))
       (min i64_MAX (1024 * (if persistent then persistent_rent_rate_denominator c
          else temporary_rent_rate_denominator c)))"

definition ledgers_bought :: "u32 \<Rightarrow> LedgerEntryRentChange \<Rightarrow> int" where
  "ledgers_bought seq e = max 0 (uint (new_live_until_ledger e) -
     (if entry_is_new e then max 0 (uint seq - 1) else uint (old_live_until_ledger e)))"

definition ledgers_held :: "u32 \<Rightarrow> LedgerEntryRentChange \<Rightarrow> int" where
  "ledgers_held seq e = (if entry_is_new e then 0
     else min (2 ^ 32 - 1) (max 0 (uint (old_live_until_ledger e) - uint seq + 1)))"

definition bytes_added :: "LedgerEntryRentChange \<Rightarrow> int" where
  "bytes_added e = max 0 (uint (new_size_bytes e) - uint (old_size_bytes e))"

definition rent_due :: "RentFeeConfiguration \<Rightarrow> u32 \<Rightarrow> LedgerEntryRentChange \<Rightarrow> int" where
  "rent_due c seq e = rent_price c (is_persistent e) (uint (new_size_bytes e)) (ledgers_bought seq e)
     + rent_price c (is_persistent e) (bytes_added e) (ledgers_held seq e)"

definition extended_count :: "LedgerEntryRentChange list \<Rightarrow> int" where
  "extended_count es = int (length (filter (\<lambda>e. old_live_until_ledger e < new_live_until_ledger e) es))"

definition ttl_write_due :: "RentFeeConfiguration \<Rightarrow> int \<Rightarrow> int" where
  "ttl_write_due c n = rent_fee_per_write_entry c * n
     + div_ceil (min i64_MAX (min (2 ^ 32 - 1) (48 * n) * rent_fee_per_write_1kb c)) 1024"

definition rent_total :: "RentFeeConfiguration \<Rightarrow> u32 \<Rightarrow> LedgerEntryRentChange list \<Rightarrow> int" where
  "rent_total c seq es = (\<Sum>e\<leftarrow>es. rent_due c seq e) + ttl_write_due c (extended_count es)"

text \<open>A change that pays: the lifetime is extended, or an entry that is still live grows.\<close>

definition rent_payable :: "u32 \<Rightarrow> LedgerEntryRentChange \<Rightarrow> bool" where
  "rent_payable seq e \<longleftrightarrow> old_live_until_ledger e < new_live_until_ledger e \<or>
     \<not> entry_is_new e \<and> seq \<le> old_live_until_ledger e \<and> old_size_bytes e < new_size_bytes e"

lemma cap_mult: "0 \<le> n \<Longrightarrow> 0 \<le> x \<Longrightarrow> min i64_MAX (min i64_MAX x * n) = min i64_MAX (x * n)" for x n :: int
proof (cases "x \<le> i64_MAX \<or> n = 0")
  case False
  assume "0 \<le> n"
  with False have "i64_MAX * 1 \<le> i64_MAX * n" and "i64_MAX * n \<le> x * n"
    by (intro mult_left_mono mult_right_mono; simp add: i64_defs)+
  with False show ?thesis by (simp add: min_def)
qed (auto simp: min_def i64_defs)

lemma i64_MAX_nonneg: "0 \<le> i64_MAX"
  by (simp add: i64_MAX_def)

lemma cap_add: "0 \<le> y \<Longrightarrow> min i64_MAX (min i64_MAX x + y) = min i64_MAX (x + y)" for x y :: int
  by (auto simp: min_def)

lemma sat_sum: "0 \<le> x \<Longrightarrow> 0 \<le> y \<Longrightarrow> sat_i64 (min i64_MAX x + min i64_MAX y) = min i64_MAX (x + y)"
  by (auto simp: sat_i64_def i64_defs min_def)

lemma rent_price_zero:
  assumes "sane_rent_configuration c" "0 \<le> bytes" "0 \<le> ledgers"
  shows "0 \<le> rent_price c p bytes ledgers"
    and "bytes = 0 \<or> ledgers = 0 \<Longrightarrow> rent_price c p bytes ledgers = 0"
    and "0 < rent_fee_per_write_1kb c \<Longrightarrow> rent_price c p bytes ledgers = 0 \<longleftrightarrow> bytes = 0 \<or> ledgers = 0"
proof -
  let ?d = "min i64_MAX (1024 * (if p then persistent_rent_rate_denominator c
      else temporary_rent_rate_denominator c))"
  let ?n = "min i64_MAX (bytes * rent_fee_per_write_1kb c * ledgers)"
  have d: "0 < ?d" using assms(1) by (auto simp: sane_rent_configuration_def i64_MAX_def)
  have n: "0 \<le> ?n" using assms by (simp add: sane_rent_configuration_def i64_MAX_def)
  then show "0 \<le> rent_price c p bytes ledgers" unfolding rent_price_def by (rule cd.dc_nonneg [OF d])
  show zero: "rent_price c p bytes ledgers = 0" if "bytes = 0 \<or> ledgers = 0"
  proof -
    have "?n = 0" using that by (auto simp: i64_MAX_def)
    then show ?thesis unfolding rent_price_def by (simp only: cd.dc_zero [OF d])
  qed
  have "0 < rent_price c p bytes ledgers" if "0 < rent_fee_per_write_1kb c" "bytes \<noteq> 0" "ledgers \<noteq> 0"
  proof -
    have "0 < ?n" using that assms by (simp add: i64_MAX_def)
    also have "\<dots> \<le> ?d * rent_price c p bytes ledgers"
      unfolding rent_price_def by (rule cd.dc_upper [OF d])
    finally show ?thesis using d by (simp add: zero_less_mult_iff)
  qed
  with zero show "0 < rent_fee_per_write_1kb c \<Longrightarrow>
      rent_price c p bytes ledgers = 0 \<longleftrightarrow> bytes = 0 \<or> ledgers = 0" by force
qed

lemma rent_amounts_nonneg: "0 \<le> ledgers_bought seq e" "0 \<le> ledgers_held seq e" "0 \<le> bytes_added e"
  by (simp_all add: ledgers_bought_def ledgers_held_def bytes_added_def)

lemma rent_due_nonneg: "sane_rent_configuration c \<Longrightarrow> 0 \<le> rent_due c seq e"
  by (simp add: rent_due_def rent_price_zero(1) rent_amounts_nonneg)

lemma ttl_write_due_zero:
  assumes "sane_rent_configuration c" "0 \<le> n"
  shows "0 \<le> ttl_write_due c n" and "n = 0 \<Longrightarrow> ttl_write_due c n = 0"
    and "0 < rent_fee_per_write_1kb c \<Longrightarrow> ttl_write_due c n = 0 \<longleftrightarrow> n = 0"
proof -
  let ?m = "min i64_MAX (min (2 ^ 32 - 1) (48 * n) * rent_fee_per_write_1kb c)"
  have m: "0 \<le> ?m" and e: "0 \<le> rent_fee_per_write_entry c * n"
    using assms by (simp_all add: sane_rent_configuration_def i64_MAX_def)
  have "0 \<le> div_ceil ?m 1024" using m by (intro cd.dc_nonneg) simp_all
  with e show ge: "0 \<le> ttl_write_due c n" by (simp add: ttl_write_due_def)
  show zero: "n = 0 \<Longrightarrow> ttl_write_due c n = 0" by (simp add: ttl_write_due_def i64_MAX_def div_ceil_def)
  have "0 < ttl_write_due c n" if "0 < rent_fee_per_write_1kb c" "n \<noteq> 0"
  proof -
    have "0 < ?m" using that assms by (simp add: i64_MAX_def)
    also have "\<dots> \<le> 1024 * div_ceil ?m 1024" by (rule cd.dc_upper) simp
    finally show ?thesis using e by (simp add: ttl_write_due_def)
  qed
  with zero show "0 < rent_fee_per_write_1kb c \<Longrightarrow> ttl_write_due c n = 0 \<longleftrightarrow> n = 0" by force
qed

lemma rent_total_nonneg: "sane_rent_configuration c \<Longrightarrow> 0 \<le> rent_total c seq es"
  by (auto simp: rent_total_def extended_count_def rent_due_nonneg
      intro!: add_nonneg_nonneg sum_list_nonneg ttl_write_due_zero(1))

text \<open>Which changes pay.\<close>

lemma unextended_buys_nothing:
  "\<not> old_live_until_ledger e < new_live_until_ledger e \<Longrightarrow> ledgers_bought seq e = 0"
  by (auto simp: ledgers_bought_def entry_is_new_def word_less_def not_less)

lemma growth_iff:
  "bytes_added e = 0 \<or> ledgers_held seq e = 0 \<longleftrightarrow>
   \<not> (\<not> entry_is_new e \<and> seq \<le> old_live_until_ledger e \<and> old_size_bytes e < new_size_bytes e)"
  by (auto simp: bytes_added_def ledgers_held_def word_less_def word_le_def)

lemma rent_due_zero:
  assumes c: "sane_rent_configuration c"
  shows "\<not> rent_payable seq e \<Longrightarrow> rent_due c seq e = 0"
    and "0 < rent_fee_per_write_1kb c \<Longrightarrow> rent_due c seq e = 0 \<Longrightarrow>
      \<not> old_live_until_ledger e < new_live_until_ledger e \<Longrightarrow> \<not> rent_payable seq e"
  using growth_iff [of e seq] unextended_buys_nothing [of e seq]
    rent_price_zero(1,2) [OF c, of "uint (new_size_bytes e)" "ledgers_bought seq e" "is_persistent e"]
    rent_price_zero [OF c, of "bytes_added e" "ledgers_held seq e" "is_persistent e"] rent_amounts_nonneg(1,2) [of seq e]
    rent_amounts_nonneg(3) [of e]
  by (auto simp: rent_due_def rent_payable_def)

lemma extended_count_zero:
  "extended_count es = 0 \<longleftrightarrow> (\<forall>e\<in>set es. \<not> old_live_until_ledger e < new_live_until_ledger e)"
  by (simp add: extended_count_def filter_empty_conv)

lemma rent_total_zero:
  assumes c: "sane_rent_configuration c"
  shows "\<forall>e\<in>set es. \<not> rent_payable seq e \<Longrightarrow> rent_total c seq es = 0"
    and "0 < rent_fee_per_write_1kb c \<Longrightarrow> rent_total c seq es = 0 \<Longrightarrow> \<forall>e\<in>set es. \<not> rent_payable seq e"
proof -
  have n: "0 \<le> extended_count es" by (simp add: extended_count_def)
  have sum: "(\<Sum>e\<leftarrow>es. rent_due c seq e) = 0 \<longleftrightarrow> (\<forall>e\<in>set es. rent_due c seq e = 0)"
    by (subst sum_list_nonneg_eq_0_iff) (auto simp: rent_due_nonneg [OF c])
  have ge: "0 \<le> (\<Sum>e\<leftarrow>es. rent_due c seq e)"
    by (rule sum_list_nonneg) (auto simp: rent_due_nonneg [OF c])
  show "rent_total c seq es = 0" if none: "\<forall>e\<in>set es. \<not> rent_payable seq e"
  proof -
    have "extended_count es = 0" using none by (simp add: extended_count_zero rent_payable_def)
    then have "ttl_write_due c (extended_count es) = 0" by (simp add: ttl_write_due_zero(2) [OF c])
    then show ?thesis using none sum by (simp add: rent_total_def rent_due_zero(1) [OF c])
  qed
  assume rate: "0 < rent_fee_per_write_1kb c" and "rent_total c seq es = 0"
  then have "(\<Sum>e\<leftarrow>es. rent_due c seq e) = 0" "ttl_write_due c (extended_count es) = 0"
    using ge ttl_write_due_zero(1) [OF c n] by (auto simp: rent_total_def)
  then show "\<forall>e\<in>set es. \<not> rent_payable seq e"
    using sum rent_due_zero(2) [OF c rate] ttl_write_due_zero(3) [OF c n rate] by (auto simp: extended_count_zero)
qed

text \<open>The computed rent is the rent due.\<close>

lemma uint_ledger_diff:
  "(case exclusive_ledger_diff lo hi of Some d \<Rightarrow> uint d | None \<Rightarrow> 0) = max 0 (uint hi - uint lo)"
  by (auto simp: exclusive_ledger_diff_def checked_sub_def word_le_def uint_sub_lem [THEN iffD1])

lemma uint_saturating_pred: "uint (saturating_sub x 1) = max 0 (uint x - 1)" for x :: u32
proof -
  have "int (n - 1) = max 0 (int n - 1)" for n by simp
  then show ?thesis by (simp only: uint_nat unat_saturating_sub unat_1)
qed

lemma paid_ledgers:
  "(case extension_ledgers e seq of Some d \<Rightarrow> uint d | None \<Rightarrow> 0) = ledgers_bought seq e"
  "(case prepaid_ledgers e seq of Some d \<Rightarrow> uint d | None \<Rightarrow> 0) = ledgers_held seq e"
  "(case size_increase e of Some d \<Rightarrow> uint d | None \<Rightarrow> 0) = bytes_added e"
proof -
  show "(case extension_ledgers e seq of Some d \<Rightarrow> uint d | None \<Rightarrow> 0) = ledgers_bought seq e"
    by (simp add: extension_ledgers_def uint_ledger_diff ledgers_bought_def uint_saturating_pred)
  show "(case size_increase e of Some d \<Rightarrow> uint d | None \<Rightarrow> 0) = bytes_added e"
    using uint_ledger_diff [of "old_size_bytes e" "new_size_bytes e"]
    by (simp add: size_increase_def exclusive_ledger_diff_def bytes_added_def)
  show "(case prepaid_ledgers e seq of Some d \<Rightarrow> uint d | None \<Rightarrow> 0) = ledgers_held seq e"
    by (auto simp: prepaid_ledgers_def inclusive_ledger_diff_def exclusive_ledger_diff_def ledgers_held_def
        checked_sub_def uint_saturating_add word_le_def uint_sub_lem [THEN iffD1])
qed

context ceiled_division begin

lemma rent_fee_price:
  assumes "sane_rent_configuration c"
  shows "rent_fee_for_size_and_ledgers dc p sz n c = rent_price c p (uint sz) (uint n)"
proof -
  have x: "0 \<le> uint sz * rent_fee_per_write_1kb c" using assms by (simp add: sane_rent_configuration_def)
  then have "sat_i64 (sat_i64 (uint sz * rent_fee_per_write_1kb c) * uint n) =
      min i64_MAX (uint sz * rent_fee_per_write_1kb c * uint n)"
    by (simp add: sat_i64_of_nonneg cap_mult i64_MAX_nonneg)
  moreover have "sat_i64 (1024 * k) = min i64_MAX (1024 * k)" if "0 < k" for k
    using that by (simp add: sat_i64_of_nonneg)
  ultimately show ?thesis
    using assms dc_div_ceil [OF rent_denom_pos [OF assms]]
    by (auto simp: rent_fee_for_size_and_ledgers_def rent_price_def Let_def DATA_SIZE_1KB_INCREMENT_def
        sane_rent_configuration_def)
qed

lemma rent_change_due:
  assumes c: "sane_rent_configuration c"
  shows "rent_fee_per_entry_change dc e c seq = min i64_MAX (rent_due c seq e)"
proof -
  let ?p = "rent_price c (is_persistent e)"
  let ?b = "?p (uint (new_size_bytes e)) (ledgers_bought seq e)" and ?h = "?p (bytes_added e) (ledgers_held seq e)"
  have nn: "0 \<le> ?b" "0 \<le> ?h" by (simp_all add: rent_price_zero(1) [OF c] rent_amounts_nonneg)
  have ext: "(case extension_ledgers e seq of
        Some n \<Rightarrow> sat_i64 (0 + rent_fee_for_size_and_ledgers dc (is_persistent e) (new_size_bytes e) n c)
      | None \<Rightarrow> 0) = min i64_MAX ?b"
    using paid_ledgers(1) [of e seq] nn(1)
    by (cases "extension_ledgers e seq")
      (auto simp: rent_fee_price [OF c] sat_i64_of_nonneg rent_price_zero(2) [OF c] i64_MAX_def)
  show ?thesis
  proof (cases "prepaid_ledgers e seq = None \<or> size_increase e = None")
    case True
    then have "ledgers_held seq e = 0 \<or> bytes_added e = 0"
      using paid_ledgers(2) [of e seq] paid_ledgers(3) [of e] by auto
    then have "?h = 0" using rent_price_zero(2) [OF c rent_amounts_nonneg(3,2)] by blast
    with True ext show ?thesis
      by (auto simp: rent_fee_per_entry_change_def rent_due_def Let_def split: option.splits)
  next
    case False
    then obtain n z where nz: "prepaid_ledgers e seq = Some n" "size_increase e = Some z" by auto
    then have "ledgers_held seq e = uint n" "bytes_added e = uint z"
      using paid_ledgers(2) [of e seq] paid_ledgers(3) [of e] by auto
    then show ?thesis
      using nz ext nn by (simp add: rent_fee_per_entry_change_def rent_due_def Let_def rent_fee_price [OF c]
          sat_i64_of_nonneg cap_add i64_MAX_def)
  qed
qed

lemma rent_fold_due:
  assumes c: "sane_rent_configuration c"
  shows "0 \<le> a \<Longrightarrow> 0 \<le> n \<Longrightarrow> uint k = min (2 ^ 32 - 1) (48 * n) \<Longrightarrow>
    \<exists>k'. fold (compute_rent_fee_step dc c seq) es (min i64_MAX a, min i64_MAX n, k) =
        (min i64_MAX (a + (\<Sum>e\<leftarrow>es. rent_due c seq e)), min i64_MAX (n + extended_count es), k')
      \<and> uint k' = min (2 ^ 32 - 1) (48 * (n + extended_count es))"
proof (induction es arbitrary: a n k)
  case (Cons e es)
  let ?n = "n + (if old_live_until_ledger e < new_live_until_ledger e then 1 else 0)"
  let ?k = "if old_live_until_ledger e < new_live_until_ledger e then saturating_add k TTL_ENTRY_SIZE else k"
  have due: "0 \<le> rent_due c seq e" by (rule rent_due_nonneg [OF c])
  have fee: "sat_i64 (min i64_MAX a + min i64_MAX (rent_due c seq e)) = min i64_MAX (a + rent_due c seq e)"
    by (rule sat_sum [OF Cons.prems(1) due])
  have cnt: "sat_i64 (min i64_MAX n + 1) = min i64_MAX (n + 1)"
    using sat_sum [OF Cons.prems(2), of 1] by (simp add: i64_MAX_def)
  have k: "uint ?k = min (2 ^ 32 - 1) (48 * ?n)"
    using Cons.prems(2,3) by (auto simp: uint_saturating_add TTL_ENTRY_SIZE_def min_def)
  have "compute_rent_fee_step dc c seq e (min i64_MAX a, min i64_MAX n, k) =
      (min i64_MAX (a + rent_due c seq e), min i64_MAX ?n, ?k)"
    by (simp add: compute_rent_fee_step_def Let_def rent_change_due [OF c] fee cnt)
  moreover have "?n + extended_count es = n + extended_count (e # es)" by (simp add: extended_count_def)
  ultimately show ?case using Cons.IH [OF _ _ k, of "a + rent_due c seq e"] Cons.prems due
    by (simp add: add.assoc)
qed (simp add: extended_count_def)

lemma rent_fee_due:
  assumes c: "sane_rent_configuration c"
  shows "compute_rent_fee dc es c seq = min i64_MAX (rent_total c seq es)"
proof -
  let ?s = "\<Sum>e\<leftarrow>es. rent_due c seq e" and ?n = "extended_count es"
  let ?w = "rent_fee_per_write_entry c" and ?r = "rent_fee_per_write_1kb c"
  obtain k where f: "fold (compute_rent_fee_step dc c seq) es (0, 0, 0) = (min i64_MAX ?s, min i64_MAX ?n, k)"
    and k: "uint k = min (2 ^ 32 - 1) (48 * ?n)"
    using rent_fold_due [OF c, of 0 0 0 seq es] by (auto simp: i64_MAX_def)
  have nn: "0 \<le> ?s" "0 \<le> ?n" "0 \<le> ?w" "0 \<le> ?r"
    using c by (auto simp: sane_rent_configuration_def extended_count_def rent_due_nonneg intro!: sum_list_nonneg)
  have key: "compute_fee_per_increment dc k ?r 1024 = div_ceil (min i64_MAX (uint k * ?r)) 1024"
    using nn(4) by (simp add: compute_fee_per_increment_def sat_i64_of_nonneg dc_div_ceil)
  have key0: "0 \<le> div_ceil (min i64_MAX (uint k * ?r)) 1024"
    using nn(4) by (intro cd.dc_nonneg) (simp_all add: i64_MAX_def)
  have wr: "sat_i64 (?w * min i64_MAX ?n) = min i64_MAX (?w * ?n)"
    using nn cap_mult [of ?w ?n] by (simp add: sat_i64_of_nonneg i64_MAX_def mult.commute)
  have "compute_rent_fee dc es c seq = sat_i64 (sat_i64 (min i64_MAX ?s + min i64_MAX (?w * ?n))
      + div_ceil (min i64_MAX (uint k * ?r)) 1024)"
    by (simp add: compute_rent_fee_def f Let_def DATA_SIZE_1KB_INCREMENT_def key wr)
  also have "\<dots> = min i64_MAX (?s + ?w * ?n + div_ceil (min i64_MAX (uint k * ?r)) 1024)"
    using nn key0 mult_nonneg_nonneg [OF nn(3,2)]
    by (simp add: sat_sum sat_i64_of_nonneg cap_add i64_MAX_nonneg)
  finally show ?thesis by (simp add: rent_total_def ttl_write_due_def k add.assoc)
qed

end

text \<open>
  C25: the rent charged is exactly the rent due. In a sane configuration the fee of a list of
  changes is \<open>rent_total\<close>, capped at \<open>i64::MAX\<close>: every ledger added to a lifetime is paid for at
  the new size, every byte added is paid for over the ledgers held before, and every extended
  entry pays for writing its lifetime. So the fee is never negative, it is 0 when no change
  extends a lifetime or enlarges an entry that is still live, and it is positive as soon as one
  does, if the rate per byte is.
\<close>

theorem rent_fee_exact:
  assumes "ceiled_division dc" and "sane_rent_configuration c"
  shows "compute_rent_fee dc changes c seq = min i64_MAX (rent_total c seq changes)
    \<and> 0 \<le> compute_rent_fee dc changes c seq
    \<and> ((\<forall>e \<in> set changes. \<not> rent_payable seq e) \<longrightarrow> compute_rent_fee dc changes c seq = 0)
    \<and> (0 < rent_fee_per_write_1kb c \<and> (\<exists>e \<in> set changes. rent_payable seq e) \<longrightarrow>
         0 < compute_rent_fee dc changes c seq)"
proof -
  note total = ceiled_division.rent_fee_due [OF assms]
    and ge = rent_total_nonneg [OF assms(2), of seq changes] and zero = rent_total_zero [OF assms(2)]
  have "0 < i64_MAX" by (simp add: i64_MAX_def)
  with ge zero show ?thesis unfolding total by (auto simp: min_def order_less_le)
qed

definition sample_rent :: RentFeeConfiguration where
  "sample_rent = \<lparr>rent_fee_per_write_1kb = 1000, rent_fee_per_write_entry = 50,
     persistent_rent_rate_denominator = 10, temporary_rent_rate_denominator = 20\<rparr>"

definition sample_change :: "u32 \<Rightarrow> u32 \<Rightarrow> LedgerEntryRentChange" where
  "sample_change old new = \<lparr>is_persistent = True, old_size_bytes = 200, new_size_bytes = 200,
     old_live_until_ledger = old, new_live_until_ledger = new\<rparr>"

lemma sane_sample_rent: "sane_rent_configuration sample_rent"
  by (simp add: sane_rent_configuration_def sample_rent_def)

definition sample_growth :: LedgerEntryRentChange where
  "sample_growth = \<lparr>is_persistent = True, old_size_bytes = 100, new_size_bytes = 300,
     old_live_until_ledger = 109, new_live_until_ledger = 109\<rparr>"

theorem rent_fee_exact_witness:
  "compute_rent_fee div_ceil [sample_change 100 150, sample_growth] sample_rent 90 = 977 + 50 + 47 + 391
   \<and> compute_rent_fee div_ceil [sample_change 100 100] sample_rent 90 = 0"
proof -
  have "rent_total sample_rent 90 [sample_change 100 150, sample_growth] = 977 + 50 + 47 + 391"
    and "\<forall>e \<in> set [sample_change 100 100]. \<not> rent_payable 90 e"
    by (simp_all add: rent_total_def rent_due_def rent_price_def ledgers_bought_def ledgers_held_def bytes_added_def
        ttl_write_due_def extended_count_def rent_payable_def sample_rent_def sample_change_def sample_growth_def
        entry_is_new_def div_ceil_def i64_MAX_def)
  with rent_fee_exact [OF cd.ceiled_division_axioms sane_sample_rent, of "[sample_change 100 150, sample_growth]" 90]
    rent_fee_exact [OF cd.ceiled_division_axioms sane_sample_rent, of "[sample_change 100 100]" 90]
  show ?thesis by (simp add: i64_MAX_def)
qed

section \<open>Splitting an extension\<close>

definition extend_only :: "LedgerEntryRentChange \<Rightarrow> bool" where
  "extend_only e \<longleftrightarrow> \<not> entry_is_new e \<and> new_size_bytes e = old_size_bytes e \<and>
     old_live_until_ledger e < new_live_until_ledger e"

context ceiled_division begin

lemma extend_only_change:
  assumes c: "sane_rent_configuration c" and e: "extend_only e"
  shows "rent_fee_per_entry_change dc e c seq = sat_i64 (rent_fee_for_size_and_ledgers dc
    (is_persistent e) (new_size_bytes e) (new_live_until_ledger e - old_live_until_ledger e) c)"
proof -
  have "extension_ledgers e seq = Some (new_live_until_ledger e - old_live_until_ledger e)"
    using e by (auto simp: extend_only_def extension_ledgers_def exclusive_ledger_diff_def
        Let_def checked_sub_def)
  moreover have "size_increase e = Some 0"
    using e by (simp add: extend_only_def size_increase_def checked_sub_def)
  ultimately show ?thesis
    by (simp add: rent_fee_per_entry_change_def Let_def rent_zero [OF c] sat_i64_id
        split: option.split)
qed

lemma extend_only_fee:
  assumes c: "sane_rent_configuration c" and e: "extend_only e"
  shows "compute_rent_fee dc [e] c seq =
    sat_i64 (sat_i64 (rent_fee_per_entry_change dc e c seq + sat_i64 (rent_fee_per_write_entry c))
      + compute_fee_per_increment dc TTL_ENTRY_SIZE (rent_fee_per_write_1kb c) 1024)"
proof -
  have "rent_fee_per_entry_change dc e c seq = sat_i64 (rent_fee_per_entry_change dc e c seq)"
    by (simp add: extend_only_change [OF assms] sat_i64_id)
  moreover have "sat_i64 1 = 1" by (simp add: sat_i64_def i64_defs)
  moreover have "saturating_add 0 TTL_ENTRY_SIZE = TTL_ENTRY_SIZE"
    by (simp add: saturating_add_def TTL_ENTRY_SIZE_def)
  ultimately show ?thesis
    using e by (simp add: compute_rent_fee_def compute_rent_fee_step_def extend_only_def
        Let_def DATA_SIZE_1KB_INCREMENT_def)
qed

lemma split_extension:
  assumes c: "sane_rent_configuration c"
    and e: "extend_only e"
    and mid: "old_live_until_ledger e < mid" "mid < new_live_until_ledger e"
  shows "compute_rent_fee dc [e] c seq
    \<le> compute_rent_fee dc [e\<lparr>new_live_until_ledger := mid\<rparr>] c seq1
      + compute_rent_fee dc [e\<lparr>old_live_until_ledger := mid\<rparr>] c seq2"
proof -
  let ?e1 = "e\<lparr>new_live_until_ledger := mid\<rparr>" and ?e2 = "e\<lparr>old_live_until_ledger := mid\<rparr>"
  let ?R = "\<lambda>e. rent_fee_for_size_and_ledgers dc (is_persistent e) (new_size_bytes e)
    (new_live_until_ledger e - old_live_until_ledger e) c"
  let ?w = "sat_i64 (rent_fee_per_write_entry c)"
  let ?k = "compute_fee_per_increment dc TTL_ENTRY_SIZE (rent_fee_per_write_1kb c) 1024"
  have e1: "extend_only ?e1" and e2: "extend_only ?e2"
    using e mid by (auto simp: extend_only_def entry_is_new_def)
  have "?R e \<le> ?R ?e1 + ?R ?e2"
    using mid by (simp, intro rent_subadd [OF c])
      (simp add: unat_sub_nowrap word_less_nat_alt word_le_nat_alt)
  moreover have nn: "0 \<le> ?R e" "0 \<le> ?R ?e1" "0 \<le> ?R ?e2" "0 \<le> ?w" "0 \<le> ?k"
    using c rent_nonneg [OF c]
    by (auto simp: sane_rent_configuration_def intro!: sat_i64_nonneg fee_per_increment_nonneg)
  moreover have "in_i64 ?w" by simp
  moreover have "?k \<le> i64_MAX"
    using c by (intro fee_per_increment_le_MAX) (auto simp: sane_rent_configuration_def)
  ultimately show ?thesis
    unfolding extend_only_fee [OF c e] extend_only_fee [OF c e1] extend_only_fee [OF c e2]
      extend_only_change [OF c e] extend_only_change [OF c e1] extend_only_change [OF c e2]
    by (simp add: sat_i64_of_nonneg min_def i64_MAX_def)
qed

end

text \<open>
  C27: extending an entry's lifetime in two steps (through any intermediate ledger, at any two
  current ledgers) never costs less rent than extending it at once, rounding and saturation
  included.
\<close>

theorem rent_split_extension_not_cheaper:
  assumes "ceiled_division dc" and "sane_rent_configuration c" and "extend_only e"
    and "old_live_until_ledger e < mid" and "mid < new_live_until_ledger e"
  shows "compute_rent_fee dc [e] c seq
    \<le> compute_rent_fee dc [e\<lparr>new_live_until_ledger := mid\<rparr>] c seq1
      + compute_rent_fee dc [e\<lparr>old_live_until_ledger := mid\<rparr>] c seq2"
  using assms by (rule ceiled_division.split_extension)

theorem rent_split_extension_not_cheaper_witness:
  "compute_rent_fee div_ceil [sample_change 100 200] sample_rent 90
   \<le> compute_rent_fee div_ceil [sample_change 100 150] sample_rent 90
     + compute_rent_fee div_ceil [sample_change 150 200] sample_rent 120"
  using rent_split_extension_not_cheaper [OF cd.ceiled_division_axioms sane_sample_rent,
      of "sample_change 100 200" 150 90 90 120]
  by (simp add: extend_only_def entry_is_new_def sample_change_def)

end
