(* ===== verification/Budget_Meter.thy ===== *)
theory Budget_Meter
  imports Prelude
begin

text \<open>
  Model of \<^verbatim>\<open>soroban-env-host/src/budget.rs\<close> and \<^verbatim>\<open>budget/{model,dimension,limits}.rs\<close>:
  the metering state every host operation charges.

  A \<open>BudgetDimension\<close> (CPU instructions, memory bytes) holds a linear cost model per
  \<open>ContractCostType\<close>, a limit and a running count, plus a shadow limit and count used for work
  that must not affect fees. The cost-model and tracker arrays have exactly one element per cost
  type, so they are functions on \<open>ContractCostType\<close>. The order of the variants is XDR's: it is
  the parameter \<open>variants\<close> of \<open>dimension_try_from_config\<close>, the only place that depends on it.

  The theorems: a successful charge is exact and stays within the limit, a failed one reports
  \<open>(Budget, ExceededLimit)\<close> exactly when a limit is passed, running over the limit is
  permanent, shadow work leaves every metered count untouched, the fuel handed to the VM never
  overruns the CPU limit when it is charged back, and the recursion guard admits exactly
  \<open>depth_limit\<close> nested levels and restores the limit on every path.
\<close>

section \<open>Cost model (model.rs)\<close>

definition COST_MODEL_LIN_TERM_SCALE_BITS :: nat where
  "COST_MODEL_LIN_TERM_SCALE_BITS = 7"

definition from_unscaled_u64 :: "u64 \<Rightarrow> u64" where
  "from_unscaled_u64 u = push_bit COST_MODEL_LIN_TERM_SCALE_BITS u"

definition unscale :: "u64 \<Rightarrow> u64" where
  "unscale u = drop_bit COST_MODEL_LIN_TERM_SCALE_BITS u"

definition safe_div :: "u64 \<Rightarrow> u64 \<Rightarrow> u64" where
  "safe_div u rhs = (case checked_div u rhs of Some v \<Rightarrow> v | None \<Rightarrow> 0)"

record MeteredCostComponent =
  const_term :: u64
  lin_term :: u64

record ContractCostParamEntry =
  param_const_term :: int
  param_linear_term :: int

definition component_try_from ::
  "ContractCostParamEntry \<Rightarrow> Error + MeteredCostComponent" where
  "component_try_from entry =
     (if param_const_term entry < 0 \<or> param_linear_term entry < 0
      then Inl (Err Context InvalidInput)
      else Inr \<lparr>const_term = word_of_int (param_const_term entry),
                lin_term = word_of_int (param_linear_term entry)\<rparr>)"

definition cost_evaluate :: "MeteredCostComponent \<Rightarrow> u64 option \<Rightarrow> u64" where
  "cost_evaluate cm input =
     (case input of
        Some i \<Rightarrow>
          (if lin_term cm \<noteq> 0
           then saturating_add (const_term cm) (unscale (saturating_mul (lin_term cm) i))
           else const_term cm)
      | None \<Rightarrow> const_term cm)"

section \<open>Cost types and their trackers\<close>

datatype ContractCostType =
  WasmInsnExec | MemAlloc | MemCpy | MemCmp | DispatchHostFunction | VisitObject |
  ValSer | ValDeser | ComputeSha256Hash | ComputeEd25519PubKey | VerifyEd25519Sig |
  VmInstantiation | VmCachedInstantiation | InvokeVmFunction | ComputeKeccak256Hash |
  ComputeEcdsaSecp256k1Sig | RecoverEcdsaSecp256k1Key | Int256AddSub | Int256Mul |
  Int256Div | Int256Pow | Int256Shift | ChaCha20DrawBytes

record CostTracker =
  iterations :: u64
  inputs :: "u64 option"
  trk_cpu :: u64
  trk_mem :: u64

record BudgetTracker =
  cost_tracker :: "ContractCostType \<Rightarrow> CostTracker"
  meter_count :: u32
  time_tracker :: "ContractCostType \<Rightarrow> u64"

text \<open>Cost types with a linear input start with \<open>Some 0\<close>, constant ones with \<open>None\<close>.\<close>

fun has_linear_input :: "ContractCostType \<Rightarrow> bool" where
  "has_linear_input WasmInsnExec = False"
| "has_linear_input MemAlloc = True"
| "has_linear_input MemCpy = True"
| "has_linear_input MemCmp = True"
| "has_linear_input DispatchHostFunction = False"
| "has_linear_input VisitObject = False"
| "has_linear_input ValSer = True"
| "has_linear_input ValDeser = True"
| "has_linear_input ComputeSha256Hash = True"
| "has_linear_input ComputeEd25519PubKey = False"
| "has_linear_input VerifyEd25519Sig = True"
| "has_linear_input VmInstantiation = True"
| "has_linear_input VmCachedInstantiation = True"
| "has_linear_input InvokeVmFunction = False"
| "has_linear_input ComputeKeccak256Hash = True"
| "has_linear_input ComputeEcdsaSecp256k1Sig = False"
| "has_linear_input RecoverEcdsaSecp256k1Key = False"
| "has_linear_input Int256AddSub = False"
| "has_linear_input Int256Mul = False"
| "has_linear_input Int256Div = False"
| "has_linear_input Int256Pow = False"
| "has_linear_input Int256Shift = False"
| "has_linear_input ChaCha20DrawBytes = True"

definition default_tracker :: BudgetTracker where
  "default_tracker = \<lparr>cost_tracker = (\<lambda>ty. \<lparr>iterations = 0,
       inputs = (if has_linear_input ty then Some 0 else None), trk_cpu = 0, trk_mem = 0\<rparr>),
     meter_count = 0, time_tracker = (\<lambda>_. 0)\<rparr>"

definition tracker_track_time ::
  "ContractCostType \<Rightarrow> u64 \<Rightarrow> BudgetTracker \<Rightarrow> BudgetTracker" where
  "tracker_track_time ty duration t =
     t\<lparr>time_tracker := (time_tracker t)(ty := time_tracker t ty + duration)\<rparr>"

definition tracker_get_time :: "BudgetTracker \<Rightarrow> ContractCostType \<Rightarrow> u64" where
  "tracker_get_time t ty = time_tracker t ty"

section \<open>Dimensions (dimension.rs)\<close>

record BudgetDimension =
  cost_models :: "ContractCostType \<Rightarrow> MeteredCostComponent"
  limit :: u64
  total_count :: u64
  shadow_limit :: u64
  shadow_total_count :: u64

fun collect_components ::
  "ContractCostParamEntry list \<Rightarrow> Error + MeteredCostComponent list" where
  "collect_components [] = Inr []"
| "collect_components (p # ps) =
     (case component_try_from p of
        Inl e \<Rightarrow> Inl e
      | Inr m \<Rightarrow> (case collect_components ps of Inl e \<Rightarrow> Inl e | Inr ms \<Rightarrow> Inr (m # ms)))"

definition dimension_try_from_config ::
  "ContractCostType list \<Rightarrow> ContractCostParamEntry list \<Rightarrow> Error + BudgetDimension" where
  "dimension_try_from_config variants cost_params =
     (case collect_components cost_params of
        Inl e \<Rightarrow> Inl e
      | Inr models \<Rightarrow>
          (if length models \<noteq> length variants then Inl (Err Budget InternalError)
           else Inr \<lparr>cost_models = (\<lambda>ty. case map_of (zip variants models) ty of
                        Some m \<Rightarrow> m | None \<Rightarrow> \<lparr>const_term = 0, lin_term = 0\<rparr>),
                      limit = 0, total_count = 0, shadow_limit = 0, shadow_total_count = 0\<rparr>))"

definition get_remaining :: "BudgetDimension \<Rightarrow> u64" where
  "get_remaining d = saturating_sub (limit d) (total_count d)"

definition dimension_reset :: "u64 \<Rightarrow> BudgetDimension \<Rightarrow> BudgetDimension" where
  "dimension_reset l d =
     d\<lparr>limit := l, total_count := 0, shadow_limit := l, shadow_total_count := 0\<rparr>"

definition check_budget_limit :: "bool \<Rightarrow> BudgetDimension \<Rightarrow> Error + unit" where
  "check_budget_limit is_shadow d =
     (let over_limit = (if is_shadow then shadow_total_count d > shadow_limit d
                        else total_count d > limit d)
      in if over_limit then Inl (Err Budget ExceededLimit) else Inr ())"

definition dimension_charge ::
  "ContractCostType \<Rightarrow> u64 \<Rightarrow> u64 option \<Rightarrow> bool \<Rightarrow> BudgetDimension \<Rightarrow>
     u64 \<times> BudgetDimension" where
  "dimension_charge ty iters input is_shadow d =
     (let amount = saturating_mul (cost_evaluate (cost_models d ty) input) iters
      in (amount,
          if is_shadow
          then d\<lparr>shadow_total_count := saturating_add (shadow_total_count d) amount\<rparr>
          else d\<lparr>total_count := saturating_add (total_count d) amount\<rparr>))"

section \<open>The budget (budget.rs)\<close>

record BudgetImpl =
  cpu_insns :: BudgetDimension
  mem_bytes :: BudgetDimension
  tracker :: BudgetTracker
  is_in_shadow_mode :: bool
  depth_limit :: u32

type_synonym 'a metered = "(BudgetImpl, 'a) hm"

definition DEFAULT_HOST_DEPTH_LIMIT :: u32 where "DEFAULT_HOST_DEPTH_LIMIT = 100"
definition DEFAULT_CPU_INSN_LIMIT :: u64 where "DEFAULT_CPU_INSN_LIMIT = 100000000"
definition DEFAULT_MEM_BYTES_LIMIT :: u64 where "DEFAULT_MEM_BYTES_LIMIT = 40 * 1024 * 1024"

definition budget_try_from_configs ::
  "ContractCostType list \<Rightarrow> u64 \<Rightarrow> u64 \<Rightarrow> ContractCostParamEntry list \<Rightarrow>
     ContractCostParamEntry list \<Rightarrow> Error + BudgetImpl" where
  "budget_try_from_configs variants cpu_limit mem_limit cpu_params mem_params =
     (case dimension_try_from_config variants cpu_params of
        Inl e \<Rightarrow> Inl e
      | Inr cpu \<Rightarrow>
          (case dimension_try_from_config variants mem_params of
             Inl e \<Rightarrow> Inl e
           | Inr mem \<Rightarrow> Inr \<lparr>cpu_insns = dimension_reset cpu_limit cpu,
                mem_bytes = dimension_reset mem_limit mem, tracker = default_tracker,
                is_in_shadow_mode = False, depth_limit = DEFAULT_HOST_DEPTH_LIMIT\<rparr>))"

text \<open>
  The tracker update at the head of \<open>BudgetImpl::charge\<close>: the count and the iterations are
  updated before the mismatch between the cost type and its input is reported.
\<close>

definition track_inputs ::
  "u64 option \<Rightarrow> u64 \<Rightarrow> u64 option \<Rightarrow> Error + u64 option" where
  "track_inputs old iters input =
     (case (old, input) of
        (None, None) \<Rightarrow> Inr None
      | (Some t, Some i) \<Rightarrow> Inr (Some (saturating_add t (saturating_mul i iters)))
      | _ \<Rightarrow> Inl (Err Budget InternalError))"

definition upd_cost_tracker ::
  "ContractCostType \<Rightarrow> (CostTracker \<Rightarrow> CostTracker) \<Rightarrow> BudgetImpl \<Rightarrow> BudgetImpl" where
  "upd_cost_tracker ty f b = b\<lparr>tracker := (tracker b)\<lparr>cost_tracker :=
     (cost_tracker (tracker b))(ty := f (cost_tracker (tracker b) ty))\<rparr>\<rparr>"

definition charge_track :: "ContractCostType \<Rightarrow> u64 \<Rightarrow> u64 option \<Rightarrow> unit metered" where
  "charge_track ty iters input b =
     (if is_in_shadow_mode b then (Inr (), b)
      else (let b1 = b\<lparr>tracker := (tracker b)\<lparr>meter_count :=
                  saturating_add (meter_count (tracker b)) 1\<rparr>\<rparr>;
                b2 = upd_cost_tracker ty
                  (\<lambda>t. t\<lparr>iterations := saturating_add (iterations t) iters\<rparr>) b1
            in case track_inputs (inputs (cost_tracker (tracker b2) ty)) iters input of
                 Inl e \<Rightarrow> (Inl e, b2)
               | Inr i \<Rightarrow> (Inr (), upd_cost_tracker ty (\<lambda>t. t\<lparr>inputs := i\<rparr>) b2)))"

definition charge_cpu :: "ContractCostType \<Rightarrow> u64 \<Rightarrow> u64 option \<Rightarrow> unit metered" where
  "charge_cpu ty iters input b =
     (case dimension_charge ty iters input (is_in_shadow_mode b) (cpu_insns b) of
        (charged, d) \<Rightarrow>
          (let b1 = b\<lparr>cpu_insns := d\<rparr>;
               b2 = (if is_in_shadow_mode b then b1
                     else upd_cost_tracker ty
                       (\<lambda>t. t\<lparr>trk_cpu := saturating_add (trk_cpu t) charged\<rparr>) b1)
           in (check_budget_limit (is_in_shadow_mode b) d, b2)))"

definition charge_mem :: "ContractCostType \<Rightarrow> u64 \<Rightarrow> u64 option \<Rightarrow> unit metered" where
  "charge_mem ty iters input b =
     (case dimension_charge ty iters input (is_in_shadow_mode b) (mem_bytes b) of
        (charged, d) \<Rightarrow>
          (let b1 = b\<lparr>mem_bytes := d\<rparr>;
               b2 = (if is_in_shadow_mode b then b1
                     else upd_cost_tracker ty
                       (\<lambda>t. t\<lparr>trk_mem := saturating_add (trk_mem t) charged\<rparr>) b1)
           in (check_budget_limit (is_in_shadow_mode b) d, b2)))"

definition bulk_charge :: "ContractCostType \<Rightarrow> u64 \<Rightarrow> u64 option \<Rightarrow> unit metered" where
  "bulk_charge ty iters input =
     thenM (charge_track ty iters input)
       (thenM (charge_cpu ty iters input) (charge_mem ty iters input))"

definition charge :: "ContractCostType \<Rightarrow> u64 option \<Rightarrow> unit metered" where
  "charge ty input = bulk_charge ty 1 input"

definition get_wasmi_fuel_remaining :: "BudgetImpl \<Rightarrow> u64" where
  "get_wasmi_fuel_remaining b =
     (let cpu_remaining = get_remaining (cpu_insns b);
          cpu_per_fuel = max (const_term (cost_models (cpu_insns b) WasmInsnExec)) 1
      in (case checked_div cpu_remaining cpu_per_fuel of Some v \<Rightarrow> v | None \<Rightarrow> 0))"

definition set_shadow_limits :: "u64 \<Rightarrow> u64 \<Rightarrow> unit metered" where
  "set_shadow_limits cpu mem = modifyM (\<lambda>b. b\<lparr>
     cpu_insns := (cpu_insns b)\<lparr>shadow_limit := cpu\<rparr>,
     mem_bytes := (mem_bytes b)\<lparr>shadow_limit := mem\<rparr>\<rparr>)"

text \<open>
  \<open>with_shadow_mode\<close> discards the result of \<open>f\<close> and every error; it only runs \<open>f\<close> when
  neither shadow count is over its limit, and always puts the mode back.
\<close>

definition with_shadow_mode :: "'a metered \<Rightarrow> BudgetImpl \<Rightarrow> BudgetImpl" where
  "with_shadow_mode f b =
     (let prev = is_in_shadow_mode b;
          b1 = b\<lparr>is_in_shadow_mode := True\<rparr>;
          b2 = (case check_budget_limit True (cpu_insns b1) of
                  Inl _ \<Rightarrow> b1
                | Inr _ \<Rightarrow> (case check_budget_limit True (mem_bytes b1) of
                     Inl _ \<Rightarrow> b1
                   | Inr _ \<Rightarrow> snd (f b1)))
      in b2\<lparr>is_in_shadow_mode := prev\<rparr>)"

section \<open>Depth limiter (limits.rs)\<close>

definition enter :: "unit metered" where
  "enter b = (case checked_sub (depth_limit b) 1 of
     Some depth \<Rightarrow> (Inr (), b\<lparr>depth_limit := depth\<rparr>)
   | None \<Rightarrow> (Inl (Err Context ExceededLimit), b))"

definition leave :: "unit metered" where
  "leave b = (case checked_add (depth_limit b) 1 of
     Some depth \<Rightarrow> (Inr (), b\<lparr>depth_limit := depth\<rparr>)
   | None \<Rightarrow> (Inl (Err Context InternalError), b))"

definition with_limited_depth :: "'a metered \<Rightarrow> 'a metered" where
  "with_limited_depth f = thenM enter
     (\<lambda>b. case f b of (res, b1) \<Rightarrow>
        (case leave b1 of (Inl e, b2) \<Rightarrow> (Inl e, b2) | (Inr _, b2) \<Rightarrow> (res, b2)))"

section \<open>Default cost parameters\<close>

definition cost_component :: "u64 \<Rightarrow> u64 \<Rightarrow> MeteredCostComponent" where
  "cost_component c l = \<lparr>const_term = c, lin_term = l\<rparr>"

fun default_cpu_model :: "ContractCostType \<Rightarrow> MeteredCostComponent" where
  "default_cpu_model WasmInsnExec = cost_component 4 0"
| "default_cpu_model MemAlloc = cost_component 434 (safe_div (from_unscaled_u64 1) 8)"
| "default_cpu_model MemCpy = cost_component 42 (safe_div (from_unscaled_u64 1) 8)"
| "default_cpu_model MemCmp = cost_component 44 (safe_div (from_unscaled_u64 1) 8)"
| "default_cpu_model DispatchHostFunction = cost_component 310 0"
| "default_cpu_model VisitObject = cost_component 61 0"
| "default_cpu_model ValSer = cost_component 230 29"
| "default_cpu_model ValDeser = cost_component 59052 4001"
| "default_cpu_model ComputeSha256Hash = cost_component 3738 7012"
| "default_cpu_model ComputeEd25519PubKey = cost_component 40253 0"
| "default_cpu_model VerifyEd25519Sig = cost_component 377524 4068"
| "default_cpu_model VmInstantiation = cost_component 451626 45405"
| "default_cpu_model VmCachedInstantiation = cost_component 451626 45405"
| "default_cpu_model InvokeVmFunction = cost_component 1948 0"
| "default_cpu_model ComputeKeccak256Hash = cost_component 3766 5969"
| "default_cpu_model ComputeEcdsaSecp256k1Sig = cost_component 710 0"
| "default_cpu_model RecoverEcdsaSecp256k1Key = cost_component 2315295 0"
| "default_cpu_model Int256AddSub = cost_component 4404 0"
| "default_cpu_model Int256Mul = cost_component 4947 0"
| "default_cpu_model Int256Div = cost_component 4911 0"
| "default_cpu_model Int256Pow = cost_component 4286 0"
| "default_cpu_model Int256Shift = cost_component 913 0"
| "default_cpu_model ChaCha20DrawBytes = cost_component 1058 501"

fun default_mem_model :: "ContractCostType \<Rightarrow> MeteredCostComponent" where
  "default_mem_model WasmInsnExec = cost_component 0 0"
| "default_mem_model MemAlloc = cost_component 16 (from_unscaled_u64 1)"
| "default_mem_model MemCpy = cost_component 0 0"
| "default_mem_model MemCmp = cost_component 0 0"
| "default_mem_model DispatchHostFunction = cost_component 0 0"
| "default_mem_model VisitObject = cost_component 0 0"
| "default_mem_model ValSer = cost_component 242 (from_unscaled_u64 3)"
| "default_mem_model ValDeser = cost_component 0 (from_unscaled_u64 3)"
| "default_mem_model ComputeSha256Hash = cost_component 0 0"
| "default_mem_model ComputeEd25519PubKey = cost_component 0 0"
| "default_mem_model VerifyEd25519Sig = cost_component 0 0"
| "default_mem_model VmInstantiation = cost_component 130065 5064"
| "default_mem_model VmCachedInstantiation = cost_component 130065 5064"
| "default_mem_model InvokeVmFunction = cost_component 14 0"
| "default_mem_model ComputeKeccak256Hash = cost_component 0 0"
| "default_mem_model ComputeEcdsaSecp256k1Sig = cost_component 0 0"
| "default_mem_model RecoverEcdsaSecp256k1Key = cost_component 181 0"
| "default_mem_model Int256AddSub = cost_component 99 0"
| "default_mem_model Int256Mul = cost_component 99 0"
| "default_mem_model Int256Div = cost_component 99 0"
| "default_mem_model Int256Pow = cost_component 99 0"
| "default_mem_model Int256Shift = cost_component 99 0"
| "default_mem_model ChaCha20DrawBytes = cost_component 0 0"

definition budget_default :: BudgetImpl where
  "budget_default =
     (let zero = (\<lambda>m. \<lparr>cost_models = m, limit = 0, total_count = 0,
                      shadow_limit = 0, shadow_total_count = 0\<rparr>)
      in \<lparr>cpu_insns = dimension_reset DEFAULT_CPU_INSN_LIMIT (zero default_cpu_model),
          mem_bytes = dimension_reset DEFAULT_MEM_BYTES_LIMIT (zero default_mem_model),
          tracker = default_tracker, is_in_shadow_mode = False,
          depth_limit = DEFAULT_HOST_DEPTH_LIMIT\<rparr>)"

section \<open>Cost evaluation\<close>

lemma unat_unscale: "unat (unscale u) = unat u div 128"
  by (simp add: unscale_def COST_MODEL_LIN_TERM_SCALE_BITS_def drop_bit_eq_div unat_div_distrib)

lemma unat_cost_evaluate:
  "unat (cost_evaluate cm (Some i)) =
     min (unat (const_term cm) + min (unat (lin_term cm) * unat i) (2 ^ 64 - 1) div 128) (2 ^ 64 - 1)"
proof (cases "lin_term cm = 0")
  case True
  then show ?thesis using unsigned_less [of "const_term cm", where 'a = nat]
    by (simp add: cost_evaluate_def)
next
  case False
  then show ?thesis
    by (simp add: cost_evaluate_def unat_saturating_add unat_unscale unat_saturating_mul)
qed

text \<open>
  C22: the linear cost model. While the linear term times the input fits 64 bits and the sum
  does too, the cost is exactly the constant term plus the scaled-down linear part; in general
  a larger input never costs less, and no input costs less than the constant term.
\<close>

theorem cost_evaluate_linear_and_monotone:
  assumes "unat i \<le> unat j"
  shows "unat (cost_evaluate cm (Some i)) \<le> unat (cost_evaluate cm (Some j))
    \<and> cost_evaluate cm None \<le> cost_evaluate cm (Some i)
    \<and> (unat (lin_term cm) * unat i < 2 ^ 64 \<longrightarrow>
         unat (const_term cm) + unat (lin_term cm) * unat i div 128 < 2 ^ 64 \<longrightarrow>
         unat (cost_evaluate cm (Some i)) =
           unat (const_term cm) + unat (lin_term cm) * unat i div 128)"
proof -
  have "unat (lin_term cm) * unat i \<le> unat (lin_term cm) * unat j" using assms by simp
  then have "min (unat (lin_term cm) * unat i) (2 ^ 64 - 1) div 128
      \<le> min (unat (lin_term cm) * unat j) (2 ^ 64 - 1) div 128"
    by (intro div_le_mono min.mono) simp_all
  then have mono: "unat (cost_evaluate cm (Some i)) \<le> unat (cost_evaluate cm (Some j))"
    unfolding unat_cost_evaluate by (intro min.mono) simp_all
  have "unat (const_term cm) < 2 ^ 64" using unsigned_less [of "const_term cm", where 'a = nat] by simp
  then have "cost_evaluate cm None \<le> cost_evaluate cm (Some i)"
    unfolding word_le_nat_alt unat_cost_evaluate by (simp add: cost_evaluate_def)
  with mono show ?thesis unfolding unat_cost_evaluate by simp
qed

theorem cost_evaluate_linear_and_monotone_witness:
  "unat (cost_evaluate (default_cpu_model ValSer) (Some 128))
     \<le> unat (cost_evaluate (default_cpu_model ValSer) (Some 256))
   \<and> unat (cost_evaluate (default_cpu_model ValSer) (Some 128)) = 259"
  using cost_evaluate_linear_and_monotone [of 128 256 "default_cpu_model ValSer"]
  by (simp add: cost_component_def)

section \<open>Outcome of a charge\<close>

definition tracker_wf :: "BudgetImpl \<Rightarrow> bool" where
  "tracker_wf b \<longleftrightarrow> (\<forall>ty. inputs (cost_tracker (tracker b) ty) = None \<longleftrightarrow> \<not> has_linear_input ty)"

definition input_matches :: "ContractCostType \<Rightarrow> u64 option \<Rightarrow> bool" where
  "input_matches ty input \<longleftrightarrow> (input = None \<longleftrightarrow> \<not> has_linear_input ty)"

definition charge_amount :: "BudgetDimension \<Rightarrow> ContractCostType \<Rightarrow> u64 \<Rightarrow> u64 option \<Rightarrow> u64" where
  "charge_amount d ty iters input = saturating_mul (cost_evaluate (cost_models d ty) input) iters"

definition charged :: "BudgetDimension \<Rightarrow> ContractCostType \<Rightarrow> u64 \<Rightarrow> u64 option \<Rightarrow> u64" where
  "charged d ty iters input = saturating_add (total_count d) (charge_amount d ty iters input)"

lemmas budget_defs = upd_cost_tracker_def charge_track_def charge_cpu_def charge_mem_def
  dimension_charge_def check_budget_limit_def charge_amount_def charged_def

lemma charge_track_ok:
  assumes "tracker_wf b" "input_matches ty input" "\<not> is_in_shadow_mode b"
  shows "\<exists>b'. charge_track ty iters input b = (Inr (), b') \<and> tracker_wf b'
    \<and> cpu_insns b' = cpu_insns b \<and> mem_bytes b' = mem_bytes b
    \<and> \<not> is_in_shadow_mode b' \<and> depth_limit b' = depth_limit b"
  using assms
  by (cases input)
     (auto simp: charge_track_def track_inputs_def upd_cost_tracker_def tracker_wf_def
       input_matches_def Let_def split: option.splits)

lemma charge_cpu_run:
  assumes "\<not> is_in_shadow_mode b"
  shows "\<exists>b'. charge_cpu ty iters input b =
      ((if limit (cpu_insns b) < charged (cpu_insns b) ty iters input
        then Inl (Err Budget ExceededLimit) else Inr ()), b')
    \<and> (tracker_wf b \<longrightarrow> tracker_wf b')
    \<and> cpu_insns b' = (cpu_insns b)\<lparr>total_count := charged (cpu_insns b) ty iters input\<rparr>
    \<and> mem_bytes b' = mem_bytes b \<and> \<not> is_in_shadow_mode b' \<and> depth_limit b' = depth_limit b"
  using assms by (simp add: budget_defs Let_def tracker_wf_def)

lemma charge_mem_run:
  assumes "\<not> is_in_shadow_mode b"
  shows "\<exists>b'. charge_mem ty iters input b =
      ((if limit (mem_bytes b) < charged (mem_bytes b) ty iters input
        then Inl (Err Budget ExceededLimit) else Inr ()), b')
    \<and> (tracker_wf b \<longrightarrow> tracker_wf b')
    \<and> mem_bytes b' = (mem_bytes b)\<lparr>total_count := charged (mem_bytes b) ty iters input\<rparr>
    \<and> cpu_insns b' = cpu_insns b \<and> \<not> is_in_shadow_mode b' \<and> depth_limit b' = depth_limit b"
  using assms by (simp add: budget_defs Let_def tracker_wf_def)

lemma bulk_charge_run:
  fixes iters :: u64
  assumes wf: "tracker_wf b" and inp: "input_matches ty input" and live: "\<not> is_in_shadow_mode b"
  defines "cpu \<equiv> charged (cpu_insns b) ty iters input"
    and "mem \<equiv> charged (mem_bytes b) ty iters input"
  shows "\<exists>b'. bulk_charge ty iters input b =
      ((if limit (cpu_insns b) < cpu \<or> limit (mem_bytes b) < mem
        then Inl (Err Budget ExceededLimit) else Inr ()), b')
    \<and> tracker_wf b' \<and> \<not> is_in_shadow_mode b' \<and> depth_limit b' = depth_limit b
    \<and> cpu_insns b' = (cpu_insns b)\<lparr>total_count := cpu\<rparr>
    \<and> mem_bytes b' = (if limit (cpu_insns b) < cpu then mem_bytes b
                       else (mem_bytes b)\<lparr>total_count := mem\<rparr>)"
proof -
  obtain b1 where b1: "charge_track ty iters input b = (Inr (), b1)" "tracker_wf b1"
    "cpu_insns b1 = cpu_insns b" "mem_bytes b1 = mem_bytes b" "\<not> is_in_shadow_mode b1"
    "depth_limit b1 = depth_limit b"
    using charge_track_ok [OF wf inp live] by blast
  from charge_cpu_run [OF b1(5), of ty iters input] b1
  obtain b2 where b2: "charge_cpu ty iters input b1 =
      ((if limit (cpu_insns b) < cpu then Inl (Err Budget ExceededLimit) else Inr ()), b2)"
    "tracker_wf b2" "cpu_insns b2 = (cpu_insns b)\<lparr>total_count := cpu\<rparr>"
    "mem_bytes b2 = mem_bytes b" "\<not> is_in_shadow_mode b2" "depth_limit b2 = depth_limit b"
    unfolding cpu_def by auto
  from charge_mem_run [OF b2(5), of ty iters input] b2
  obtain b3 where b3: "charge_mem ty iters input b2 =
      ((if limit (mem_bytes b) < mem then Inl (Err Budget ExceededLimit) else Inr ()), b3)"
    "tracker_wf b3" "mem_bytes b3 = (mem_bytes b)\<lparr>total_count := mem\<rparr>"
    "cpu_insns b3 = cpu_insns b2" "\<not> is_in_shadow_mode b3" "depth_limit b3 = depth_limit b"
    unfolding mem_def by auto
  show ?thesis
    using b1 b2 b3 by (auto simp: bulk_charge_def bindM_def)
qed

text \<open>
  C16: the outcome of a metered charge. On a budget whose trackers are well formed, and for an
  input that fits the cost type, a charge outside shadow mode fails exactly when the CPU or the
  memory count passes its limit, and then with \<open>(Budget, ExceededLimit)\<close>; when it succeeds
  and the limits are below \<open>u64::MAX\<close> both counts have grown by exactly the amount charged
  and are within their limits. Trackers stay well formed, limits and depth do not change.
\<close>

theorem charge_outcome:
  assumes "tracker_wf b" and "input_matches ty input" and "\<not> is_in_shadow_mode b"
    and "limit (cpu_insns b) < - 1" and "limit (mem_bytes b) < - 1"
    and "bulk_charge ty iters input b = (r, b')"
  shows "tracker_wf b'
    \<and> (r = Inr () \<longleftrightarrow>
         unat (total_count (cpu_insns b)) + unat (charge_amount (cpu_insns b) ty iters input)
           \<le> unat (limit (cpu_insns b))
         \<and> unat (total_count (mem_bytes b)) + unat (charge_amount (mem_bytes b) ty iters input)
           \<le> unat (limit (mem_bytes b)))
    \<and> (r \<noteq> Inr () \<longrightarrow> r = Inl (Err Budget ExceededLimit))
    \<and> (r = Inr () \<longrightarrow>
         unat (total_count (cpu_insns b')) =
           unat (total_count (cpu_insns b)) + unat (charge_amount (cpu_insns b) ty iters input)
         \<and> unat (total_count (mem_bytes b')) =
           unat (total_count (mem_bytes b)) + unat (charge_amount (mem_bytes b) ty iters input))
    \<and> limit (cpu_insns b') = limit (cpu_insns b) \<and> limit (mem_bytes b') = limit (mem_bytes b)
    \<and> depth_limit b' = depth_limit b"
proof -
  have lim: "unat (limit d) < 2 ^ 64 - 1" if "limit d < - 1" for d :: BudgetDimension
    using that unfolding word_less_nat_alt unat_minus_one_word by simp
  have iff: "limit d < charged d ty iters input \<longleftrightarrow>
      \<not> unat (total_count d) + unat (charge_amount d ty iters input) \<le> unat (limit d)"
    and eq: "\<not> limit d < charged d ty iters input \<Longrightarrow> unat (charged d ty iters input) =
      unat (total_count d) + unat (charge_amount d ty iters input)"
    if "limit d < - 1" for d
    using lim [OF that] by (auto simp: charged_def word_less_nat_alt unat_saturating_add)
  from bulk_charge_run [OF assms(1-3), of iters] assms(6) show ?thesis
    using iff [OF assms(4)] iff [OF assms(5)] eq [OF assms(4)] eq [OF assms(5)]
    by (auto split: if_splits)
qed

lemma default_budget_facts:
  "tracker_wf budget_default" "\<not> is_in_shadow_mode budget_default"
  "limit (cpu_insns budget_default) = 100000000" "limit (mem_bytes budget_default) = 41943040"
  "total_count (cpu_insns budget_default) = 0" "total_count (mem_bytes budget_default) = 0"
  "cost_models (cpu_insns budget_default) = default_cpu_model"
  "cost_models (mem_bytes budget_default) = default_mem_model"
  "depth_limit budget_default = 100"
  by (simp_all add: tracker_wf_def budget_default_def default_tracker_def Let_def
      dimension_reset_def DEFAULT_CPU_INSN_LIMIT_def DEFAULT_MEM_BYTES_LIMIT_def
      DEFAULT_HOST_DEPTH_LIMIT_def)

theorem charge_outcome_witness:
  "fst (bulk_charge VisitObject 3 None budget_default) = Inr ()
   \<and> unat (total_count (cpu_insns (snd (bulk_charge VisitObject 3 None budget_default)))) = 183"
proof -
  obtain r b' where run: "bulk_charge VisitObject 3 None budget_default = (r, b')"
    by (cases "bulk_charge VisitObject 3 None budget_default")
  have amount: "charge_amount (cpu_insns budget_default) VisitObject 3 None = 183"
    "charge_amount (mem_bytes budget_default) VisitObject 3 None = 0"
    by (simp_all add: charge_amount_def default_budget_facts cost_component_def
        cost_evaluate_def saturating_mul_def)
  have "input_matches VisitObject None" by (simp add: input_matches_def)
  from charge_outcome [OF default_budget_facts(1) this default_budget_facts(2) _ _ run]
  show ?thesis by (simp add: run amount default_budget_facts)
qed

section \<open>Exhaustion is permanent\<close>

type_synonym charge_req = "ContractCostType \<times> u64 \<times> u64 option"

text \<open>A program of charges whose errors the caller ignores, so that it always goes on.\<close>

fun charges_run :: "charge_req list \<Rightarrow> BudgetImpl \<Rightarrow> BudgetImpl" where
  "charges_run [] b = b"
| "charges_run ((ty, iters, input) # cs) b = charges_run cs (snd (bulk_charge ty iters input b))"

definition exhausted :: "BudgetImpl \<Rightarrow> bool" where
  "exhausted b \<longleftrightarrow> \<not> is_in_shadow_mode b \<and>
     (limit (cpu_insns b) < total_count (cpu_insns b) \<or>
      limit (mem_bytes b) < total_count (mem_bytes b))"

lemma saturating_add_ge: "a \<le> saturating_add a b" for a :: "'a::len word"
proof -
  have "unat a \<le> 2 ^ LENGTH('a) - 1" using unsigned_less [of a, where 'a = nat] by linarith
  then show ?thesis by (simp add: word_le_nat_alt unat_saturating_add)
qed

lemma charge_track_frame:
  assumes "\<not> is_in_shadow_mode b" "charge_track ty iters input b = (r, b')"
  shows "cpu_insns b' = cpu_insns b \<and> mem_bytes b' = mem_bytes b \<and> \<not> is_in_shadow_mode b'"
  using assms by (auto simp: charge_track_def upd_cost_tracker_def Let_def split: sum.splits)

abbreviation over_limit :: "BudgetDimension \<Rightarrow> bool" where
  "over_limit d \<equiv> limit d < total_count d"

lemma charge_stays_over:
  assumes live: "\<not> is_in_shadow_mode b" and b': "b' = snd (bulk_charge ty iters input b)"
  shows "\<not> is_in_shadow_mode b'" and "over_limit (cpu_insns b) \<Longrightarrow> over_limit (cpu_insns b')"
    and "over_limit (mem_bytes b) \<Longrightarrow> over_limit (mem_bytes b')"
    and "over_limit (cpu_insns b) \<or> over_limit (mem_bytes b) \<Longrightarrow> \<exists>e. fst (bulk_charge ty iters input b) = Inl e"
proof -
  obtain r b1 where t: "charge_track ty iters input b = (r, b1)" by fastforce
  note f1 = charge_track_frame [OF live t]
  have ge: "total_count d \<le> charged d ty iters input" for d
    by (simp add: charged_def saturating_add_ge)
  have "\<not> is_in_shadow_mode b' \<and> (over_limit (cpu_insns b) \<longrightarrow> over_limit (cpu_insns b')) \<and>
      (over_limit (mem_bytes b) \<longrightarrow> over_limit (mem_bytes b')) \<and>
      (over_limit (cpu_insns b) \<or> over_limit (mem_bytes b) \<longrightarrow> (\<exists>e. fst (bulk_charge ty iters input b) = Inl e))"
  proof (cases r)
    case (Inl e)
    with t f1 b' show ?thesis by (auto simp: bulk_charge_def bindM_def)
  next
    case (Inr u)
    from f1 charge_cpu_run [of b1 ty iters input] obtain b2 where b2:
      "charge_cpu ty iters input b1 = ((if limit (cpu_insns b) < charged (cpu_insns b) ty iters input
        then Inl (Err Budget ExceededLimit) else Inr ()), b2)"
      "cpu_insns b2 = (cpu_insns b)\<lparr>total_count := charged (cpu_insns b) ty iters input\<rparr>"
      "mem_bytes b2 = mem_bytes b" "\<not> is_in_shadow_mode b2" by auto
    from b2 charge_mem_run [of b2 ty iters input] obtain b3 where b3:
      "charge_mem ty iters input b2 = ((if limit (mem_bytes b) < charged (mem_bytes b) ty iters input
        then Inl (Err Budget ExceededLimit) else Inr ()), b3)"
      "mem_bytes b3 = (mem_bytes b)\<lparr>total_count := charged (mem_bytes b) ty iters input\<rparr>"
      "cpu_insns b3 = cpu_insns b2" "\<not> is_in_shadow_mode b3" by auto
    show ?thesis
      using t Inr b2 b3 b' ge [of "cpu_insns b"] ge [of "mem_bytes b"]
      by (auto simp: bulk_charge_def bindM_def)
  qed
  then show "\<not> is_in_shadow_mode b'" and "over_limit (cpu_insns b) \<Longrightarrow> over_limit (cpu_insns b')"
    and "over_limit (mem_bytes b) \<Longrightarrow> over_limit (mem_bytes b')"
    and "over_limit (cpu_insns b) \<or> over_limit (mem_bytes b) \<Longrightarrow> \<exists>e. fst (bulk_charge ty iters input b) = Inl e"
    by blast+
qed

lemma charges_stay_over:
  assumes "\<not> is_in_shadow_mode b"
  shows "\<not> is_in_shadow_mode (charges_run cs b)
    \<and> (over_limit (cpu_insns b) \<longrightarrow> over_limit (cpu_insns (charges_run cs b)))
    \<and> (over_limit (mem_bytes b) \<longrightarrow> over_limit (mem_bytes (charges_run cs b)))"
  using assms
proof (induction cs b rule: charges_run.induct)
  case (2 ty iters input cs b)
  note step = charge_stays_over [OF 2(2) refl, of ty iters input]
  from 2(1) [OF step(1)] step(2,3) show ?case by auto
qed simp

text \<open>
  C17: exhaustion is permanent. Once a count is over its limit, any sequence of charges that
  ignores the errors leaves that count over its limit, and every later charge fails, whatever
  its type, size and position in the sequence.
\<close>

theorem exhaustion_is_permanent:
  assumes "exhausted b"
  shows "(limit (cpu_insns b) < total_count (cpu_insns b) \<longrightarrow>
       limit (cpu_insns (charges_run cs b)) < total_count (cpu_insns (charges_run cs b)))
    \<and> (limit (mem_bytes b) < total_count (mem_bytes b) \<longrightarrow>
       limit (mem_bytes (charges_run cs b)) < total_count (mem_bytes (charges_run cs b)))
    \<and> (\<exists>e. fst (bulk_charge ty iters input (charges_run cs b)) = Inl e)"
proof -
  have run: "\<not> is_in_shadow_mode b" and over: "over_limit (cpu_insns b) \<or> over_limit (mem_bytes b)"
    using assms by (auto simp: exhausted_def)
  note stay = charges_stay_over [OF run, of cs]
  then show ?thesis using over charge_stays_over(4) [OF _ refl] by blast
qed

definition tiny_budget :: BudgetImpl where
  "tiny_budget = budget_default\<lparr>cpu_insns := (cpu_insns budget_default)\<lparr>limit := 60, total_count := 61\<rparr>\<rparr>"

theorem exhaustion_is_permanent_witness:
  "exhausted tiny_budget \<and>
   limit (cpu_insns (charges_run [(VisitObject, 1, None), (MemCpy, 2, Some 8)] tiny_budget)) <
     total_count (cpu_insns (charges_run [(VisitObject, 1, None), (MemCpy, 2, Some 8)] tiny_budget)) \<and>
   (\<exists>e. fst (bulk_charge MemCmp 0 (Some 0)
      (charges_run [(VisitObject, 1, None), (MemCpy, 2, Some 8)] tiny_budget)) = Inl e)"
proof -
  have "exhausted tiny_budget"
    by (simp add: exhausted_def tiny_budget_def default_budget_facts)
  moreover have "limit (cpu_insns tiny_budget) < total_count (cpu_insns tiny_budget)"
    by (simp add: tiny_budget_def)
  ultimately show ?thesis
    using exhaustion_is_permanent [of tiny_budget "[(VisitObject, 1, None), (MemCpy, 2, Some 8)]"] by blast
qed

section \<open>Shadow mode\<close>

text \<open>Everything that decides fees, limits and outcomes: all but the shadow counters.\<close>

definition dimension_view :: "BudgetDimension \<Rightarrow> BudgetDimension" where
  "dimension_view d = d\<lparr>shadow_total_count := 0\<rparr>"

definition metered_view :: "BudgetImpl \<Rightarrow> BudgetImpl" where
  "metered_view b = b\<lparr>cpu_insns := dimension_view (cpu_insns b),
     mem_bytes := dimension_view (mem_bytes b)\<rparr>"

fun charge_all :: "charge_req list \<Rightarrow> unit metered" where
  "charge_all [] = retM ()"
| "charge_all ((ty, iters, input) # cs) = thenM (bulk_charge ty iters input) (charge_all cs)"

lemma shadow_charge_keeps:
  "keepsM (\<lambda>b. is_in_shadow_mode b \<and> metered_view b = v) (bulk_charge ty iters input)"
  unfolding bulk_charge_def
  by (intro keepsM_bind)
     (auto simp: keepsM_def budget_defs Let_def metered_view_def dimension_view_def)

lemma shadow_charge_all_keeps:
  "keepsM (\<lambda>b. is_in_shadow_mode b \<and> metered_view b = v) (charge_all cs)"
  by (induction cs rule: charge_all.induct) (auto intro: shadow_charge_keeps)

lemma metered_view_mode:
  "metered_view (b\<lparr>is_in_shadow_mode := m\<rparr>) = (metered_view b)\<lparr>is_in_shadow_mode := m\<rparr>"
  "(metered_view b)\<lparr>is_in_shadow_mode := is_in_shadow_mode b\<rparr> = metered_view b"
  by (simp_all add: metered_view_def)

lemma with_shadow_mode_frame:
  assumes "keepsM (\<lambda>b. is_in_shadow_mode b \<and> metered_view b = v) f"
    and "v = metered_view (b\<lparr>is_in_shadow_mode := True\<rparr>)"
  shows "metered_view (with_shadow_mode f b) = metered_view b"
proof -
  let ?b1 = "b\<lparr>is_in_shadow_mode := True\<rparr>"
  have "is_in_shadow_mode (snd (f ?b1)) \<and> metered_view (snd (f ?b1)) = v"
    using assms unfolding keepsM_def by auto
  then show ?thesis
    using assms(2)
    by (auto simp: with_shadow_mode_def Let_def metered_view_mode split: sum.splits)
qed

text \<open>
  C19: shadow work is invisible. Whatever sequence of charges runs under \<open>with_shadow_mode\<close>,
  and whether or not it exceeds the shadow limits, the budget afterwards differs from the one
  before at most in the two shadow counters: same counts, limits, trackers, depth and mode.
\<close>

theorem shadow_mode_is_invisible:
  "metered_view (with_shadow_mode (charge_all cs) b) = metered_view b"
  by (rule with_shadow_mode_frame [OF shadow_charge_all_keeps refl])

section \<open>VM fuel\<close>

lemma fuel_fits:
  "unat (get_wasmi_fuel_remaining b) * unat (const_term (cost_models (cpu_insns b) WasmInsnExec))
     \<le> unat (limit (cpu_insns b)) - unat (total_count (cpu_insns b))"
  "unat (limit (cpu_insns b)) - unat (total_count (cpu_insns b)) <
     (unat (get_wasmi_fuel_remaining b) + 1) * max 1 (unat (const_term (cost_models (cpu_insns b) WasmInsnExec)))"
proof -
  let ?c = "const_term (cost_models (cpu_insns b) WasmInsnExec)"
  let ?r = "get_remaining (cpu_insns b)"
  have c1: "max ?c 1 \<noteq> 0"
  proof
    assume "max ?c 1 = 0"
    then have "(1::u64) \<le> 0" using max.cobounded2 [of 1 ?c] by simp
    then show False by simp
  qed
  have le: "?c \<le> max ?c 1" by simp
  have fuel: "get_wasmi_fuel_remaining b = ?r div max ?c 1"
    using c1 by (simp add: get_wasmi_fuel_remaining_def Let_def checked_div_def)
  have r: "unat ?r = unat (limit (cpu_insns b)) - unat (total_count (cpu_insns b))"
    by (simp add: get_remaining_def unat_saturating_sub)
  have m: "unat (max ?c 1) = max 1 (unat ?c)" by (simp add: max_def word_le_nat_alt)
  then have "unat ?r < unat ?r div unat (max ?c 1) * unat (max ?c 1) + unat (max ?c 1)"
    using dividend_less_div_times [of "unat (max ?c 1)" "unat ?r"] by (simp add: add.commute)
  then show "unat (limit (cpu_insns b)) - unat (total_count (cpu_insns b)) <
     (unat (get_wasmi_fuel_remaining b) + 1) * max 1 (unat ?c)"
    by (simp add: fuel unat_div_distrib m r algebra_simps)
  from fuel have "unat (get_wasmi_fuel_remaining b) * unat ?c \<le> unat ?r div unat (max ?c 1) * unat (max ?c 1)"
    using le by (simp add: unat_div_distrib word_le_nat_alt)
  also have "\<dots> \<le> unat ?r" by simp
  finally show "unat (get_wasmi_fuel_remaining b) * unat ?c
     \<le> unat (limit (cpu_insns b)) - unat (total_count (cpu_insns b))" by (simp add: r)
qed

text \<open>
  C20: fuel never overruns the budget. If the VM is given \<open>get_wasmi_fuel_remaining\<close> fuel and
  burns any part of it, charging the burnt fuel back to the host succeeds and leaves the CPU
  count within its limit, provided the counts were within their limits and wasm instructions
  are configured to cost no memory, as the default model has it. And the VM is given all the
  fuel there is: one unit more would cost more than the CPU budget that is left (at a cost of
  one where the model has instructions for free).
\<close>

theorem vm_fuel_within_cpu_limit:
  assumes "tracker_wf b" and "\<not> is_in_shadow_mode b"
    and "total_count (cpu_insns b) \<le> limit (cpu_insns b)"
    and "total_count (mem_bytes b) \<le> limit (mem_bytes b)"
    and "const_term (cost_models (mem_bytes b) WasmInsnExec) = 0"
    and "fuel \<le> get_wasmi_fuel_remaining b"
  shows "\<exists>b'. bulk_charge WasmInsnExec fuel None b = (Inr (), b')
    \<and> total_count (cpu_insns b') \<le> limit (cpu_insns b')
    \<and> unat (total_count (cpu_insns b')) = unat (total_count (cpu_insns b)) +
        unat fuel * unat (const_term (cost_models (cpu_insns b) WasmInsnExec))
    \<and> unat (limit (cpu_insns b)) - unat (total_count (cpu_insns b)) <
        (unat (get_wasmi_fuel_remaining b) + 1) * max 1 (unat (const_term (cost_models (cpu_insns b) WasmInsnExec)))"
proof -
  let ?c = "const_term (cost_models (cpu_insns b) WasmInsnExec)"
  have "unat ?c * unat fuel \<le> unat (limit (cpu_insns b)) - unat (total_count (cpu_insns b))"
    using assms(6) mult_le_mono1 [of "unat fuel" "unat (get_wasmi_fuel_remaining b)" "unat ?c"]
    by (intro order_trans [OF _ fuel_fits(1) [of b]]) (simp add: word_le_nat_alt mult.commute)
  moreover have "unat (limit (cpu_insns b)) < 2 ^ 64"
    using unsigned_less [of "limit (cpu_insns b)", where 'a = nat] by simp
  moreover have "charge_amount (cpu_insns b) WasmInsnExec fuel None = saturating_mul ?c fuel"
    by (simp add: charge_amount_def cost_evaluate_def)
  ultimately have cpu: "unat (charged (cpu_insns b) WasmInsnExec fuel None) =
      unat (total_count (cpu_insns b)) + unat fuel * unat ?c"
    and cpu_le: "unat (charged (cpu_insns b) WasmInsnExec fuel None) \<le> unat (limit (cpu_insns b))"
    using assms(3)
    by (auto simp: charged_def unat_saturating_add unat_saturating_mul word_le_nat_alt mult.commute)
  have "charged (mem_bytes b) WasmInsnExec fuel None = total_count (mem_bytes b)"
    using assms(5) by (simp add: charged_def charge_amount_def cost_evaluate_def saturating_mul_def)
  with assms(4) cpu cpu_le fuel_fits(2) [of b] bulk_charge_run [OF assms(1) _ assms(2), of WasmInsnExec None fuel]
  show ?thesis
    by (auto simp: input_matches_def word_less_nat_alt word_le_nat_alt split: if_splits)
qed

theorem vm_fuel_within_cpu_limit_witness:
  "get_wasmi_fuel_remaining budget_default = 25000000
   \<and> (\<exists>b'. bulk_charge WasmInsnExec 25000000 None budget_default = (Inr (), b')
       \<and> unat (total_count (cpu_insns b')) = 100000000)"
proof -
  have fuel: "get_wasmi_fuel_remaining budget_default = 25000000"
    by (simp add: get_wasmi_fuel_remaining_def get_remaining_def default_budget_facts
        cost_component_def checked_div_def Let_def max_def word_le_nat_alt)
  from vm_fuel_within_cpu_limit [OF default_budget_facts(1,2), of 25000000]
  show ?thesis by (auto simp: fuel default_budget_facts cost_component_def)
qed

section \<open>Recursion depth\<close>

lemma depth_limit_upd_id: "depth_limit b = d \<Longrightarrow> b\<lparr>depth_limit := d\<rparr> = b"
  by (cases b) simp

lemma with_limited_depth_ok:
  assumes keeps: "depth_limit (snd (f (b\<lparr>depth_limit := depth_limit b - 1\<rparr>))) = depth_limit b - 1"
    and pos: "depth_limit b \<noteq> 0"
  shows "with_limited_depth f b =
    (case f (b\<lparr>depth_limit := depth_limit b - 1\<rparr>) of
       (r, b1) \<Rightarrow> (r, b1\<lparr>depth_limit := depth_limit b\<rparr>))"
proof -
  have one: "(1::u32) \<le> depth_limit b"
    using pos by (simp add: word_le_nat_alt Suc_leI unat_gt_0)
  then have "unat (depth_limit b - 1) + 1 = unat (depth_limit b)"
    by (simp add: unat_sub_nowrap word_le_nat_alt)
  then have add: "checked_add (depth_limit b - 1) 1 = Some (depth_limit b)"
    by (simp add: checked_add_Some)
  have sub: "checked_sub (depth_limit b) 1 = Some (depth_limit b - 1)"
    using one by (simp add: checked_sub_def)
  show ?thesis
    using keeps add sub
    by (auto simp: with_limited_depth_def enter_def leave_def bindM_def split: prod.splits)
qed

lemma with_limited_depth_exceeded:
  "depth_limit b = 0 \<Longrightarrow> with_limited_depth f b = (Inl (Err Context ExceededLimit), b)"
  by (simp add: with_limited_depth_def enter_def bindM_def checked_sub_def)

text \<open>
  C21: the recursion guard. For a body that leaves the depth counter as it found it, \<open>n\<close>
  nested levels behave like the body itself as long as \<open>n\<close> is at most the depth limit, with
  the limit restored whether the body succeeds or fails; one more level fails with
  \<open>(Context, ExceededLimit)\<close> and again leaves the limit as it was.
\<close>

theorem nested_depth_limit:
  assumes "\<forall>b. depth_limit (snd (f b)) = depth_limit b"
  shows "depth_limit (snd ((with_limited_depth ^^ n) f b)) = depth_limit b
    \<and> (n \<le> unat (depth_limit b) \<longrightarrow> (with_limited_depth ^^ n) f b =
         (case f (b\<lparr>depth_limit := depth_limit b - of_nat n\<rparr>) of
            (r, b1) \<Rightarrow> (r, b1\<lparr>depth_limit := depth_limit b\<rparr>)))
    \<and> (unat (depth_limit b) < n \<longrightarrow>
         fst ((with_limited_depth ^^ n) f b) = Inl (Err Context ExceededLimit))"
proof (induction n arbitrary: b)
  case 0
  obtain r b1 where fb: "f b = (r, b1)" by fastforce
  moreover from this assms have "depth_limit b1 = depth_limit b" by (metis snd_conv)
  ultimately show ?case by (simp add: depth_limit_upd_id)
next
  case (Suc n)
  let ?g = "(with_limited_depth ^^ n) f"
  show ?case
  proof (cases "depth_limit b = 0")
    case True
    then show ?thesis by (simp add: with_limited_depth_exceeded)
  next
    case False
    let ?b1 = "b\<lparr>depth_limit := depth_limit b - 1\<rparr>"
    have u: "unat (depth_limit b - 1) = unat (depth_limit b) - 1" and pos: "0 < unat (depth_limit b)"
      using False by (simp_all add: unat_minus_one unat_gt_0)
    have run: "with_limited_depth ?g b = (case ?g ?b1 of (r, b1) \<Rightarrow> (r, b1\<lparr>depth_limit := depth_limit b\<rparr>))"
      using Suc.IH [of ?b1] False by (intro with_limited_depth_ok) auto
    have "depth_limit b - 1 - of_nat n = depth_limit b - of_nat (Suc n)" by simp
    with Suc.IH [of ?b1] u pos run show ?thesis by (auto split: prod.splits)
  qed
qed

theorem nested_depth_limit_witness:
  "fst ((with_limited_depth ^^ 100) (retM ()) budget_default) = Inr ()
   \<and> fst ((with_limited_depth ^^ 101) (retM ()) budget_default) = Inl (Err Context ExceededLimit)"
proof -
  have "\<forall>b. depth_limit (snd ((retM () :: unit metered) b)) = depth_limit b"
    by (simp add: retM_def)
  note d = nested_depth_limit [OF this]
  show ?thesis
    using d [of 100 budget_default] d [of 101 budget_default]
    by (simp add: default_budget_facts retM_def)
qed

end
