(* ===== verification/Metered_Clone.thy ===== *)
theory Metered_Clone
  imports Budget_Meter
begin

text \<open>
  Model of \<^verbatim>\<open>soroban-env-host/src/host/metered_clone.rs\<close> and of the composite entries of
  \<^verbatim>\<open>declared_size.rs\<close>: what copying a Rust value charges.

  The traits \<open>DeclaredSizeForMetering\<close> and \<open>MeteredClone\<close> attach to a type its declared size,
  whether it is shallow, and the charge for the structure it owns on the heap. A type's
  implementation of them is a record \<open>'a metered_type\<close>; the blanket implementations for pairs,
  options, boxes and vectors are functions on such records. Cloning itself is the identity:
  HOL values are immutable.
\<close>

record 'a metered_type =
  declared_size :: u64
  is_shallow :: bool
  charge_for_substructure :: "'a \<Rightarrow> unit metered"

definition charge_shallow_copy :: "'a metered_type \<Rightarrow> u64 \<Rightarrow> unit metered" where
  "charge_shallow_copy T n_elts = charge MemCpy (Some (saturating_mul n_elts (declared_size T)))"

definition charge_heap_alloc :: "'a metered_type \<Rightarrow> u64 \<Rightarrow> unit metered" where
  "charge_heap_alloc T n_elts = charge MemAlloc (Some (saturating_mul n_elts (declared_size T)))"

text \<open>The default implementation, right for types that own nothing on the heap.\<close>

definition default_substructure :: "bool \<Rightarrow> 'a \<Rightarrow> unit metered" where
  "default_substructure shallow x =
     (if shallow then retM () else throwM (Err Object InternalError))"

definition shallow_type :: "u64 \<Rightarrow> 'a metered_type" where
  "shallow_type sz = \<lparr>declared_size = sz, is_shallow = True,
     charge_for_substructure = default_substructure True\<rparr>"

fun charge_each :: "('a \<Rightarrow> unit metered) \<Rightarrow> 'a list \<Rightarrow> unit metered" where
  "charge_each f [] = retM ()"
| "charge_each f (x # xs) = thenM (f x) (charge_each f xs)"

definition bulk_charge_for_substructure :: "'a metered_type \<Rightarrow> 'a list \<Rightarrow> unit metered" where
  "bulk_charge_for_substructure T clones =
     (if is_shallow T then retM () else charge_each (charge_for_substructure T) clones)"

definition charge_deep_clone :: "'a metered_type \<Rightarrow> 'a \<Rightarrow> unit metered" where
  "charge_deep_clone T x =
     (if is_shallow T then throwM (Err Object InternalError)
      else thenM (charge_shallow_copy T 1) (charge_for_substructure T x))"

definition metered_clone :: "'a metered_type \<Rightarrow> 'a \<Rightarrow> 'a metered" where
  "metered_clone T x =
     thenM (charge_shallow_copy T 1) (thenM (charge_for_substructure T x) (retM x))"

section \<open>Composite types\<close>

definition rc_type :: "'a metered_type" where
  "rc_type = shallow_type 16"

definition pair_type :: "'k metered_type \<Rightarrow> 'v metered_type \<Rightarrow> ('k \<times> 'v) metered_type" where
  "pair_type K V = \<lparr>
     declared_size = saturating_add (saturating_add (declared_size K) (declared_size V)) 8,
     is_shallow = (is_shallow K \<and> is_shallow V),
     charge_for_substructure = (\<lambda>(k, v).
       thenM (if \<not> is_shallow K then charge_for_substructure K k else retM ())
         (if \<not> is_shallow V then charge_for_substructure V v else retM ()))\<rparr>"

definition vec_type :: "'a metered_type \<Rightarrow> 'a list metered_type" where
  "vec_type C = \<lparr>declared_size = 24, is_shallow = False,
     charge_for_substructure = (\<lambda>xs.
       thenM (charge_heap_alloc C (of_nat (length xs)))
         (thenM (charge_shallow_copy C (of_nat (length xs))) (bulk_charge_for_substructure C xs)))\<rparr>"

definition box_type :: "'a metered_type \<Rightarrow> 'a metered_type" where
  "box_type C = \<lparr>declared_size = 8, is_shallow = False,
     charge_for_substructure = (\<lambda>x.
       thenM (charge_heap_alloc C 1)
         (thenM (charge_shallow_copy C 1) (charge_for_substructure C x)))\<rparr>"

definition option_type :: "'a metered_type \<Rightarrow> 'a option metered_type" where
  "option_type C = \<lparr>declared_size = saturating_add (declared_size C) 8,
     is_shallow = is_shallow C,
     charge_for_substructure = (\<lambda>x. case x of
       Some elt \<Rightarrow> charge_for_substructure C elt | None \<Rightarrow> retM ())\<rparr>"

definition charge_bulk_init_cpy :: "'a list metered_type \<Rightarrow> 'a metered_type \<Rightarrow> u64 \<Rightarrow> unit metered" where
  "charge_bulk_init_cpy B C len =
     thenM (charge_shallow_copy B 1)
       (thenM (charge_heap_alloc C len) (charge_shallow_copy C len))"

text \<open>\<open>Vec::<T>::charge_bulk_init_cpy\<close> and \<open>Rc::metered_new\<close> for a type of a given declared size.\<close>

definition vec_init_cpy :: "nat \<Rightarrow> nat \<Rightarrow> unit metered" where
  "vec_init_cpy sz n = charge_bulk_init_cpy (vec_type (shallow_type (of_nat sz) :: unit metered_type))
     (shallow_type (of_nat sz)) (of_nat n)"

text \<open>Collecting into \<open>Result<Vec<T>, HostError>\<close>: container and items are charged as \<open>Result\<close> values.\<close>

definition result_vec_init_cpy :: "nat \<Rightarrow> nat \<Rightarrow> unit metered" where
  "result_vec_init_cpy sz n = charge_bulk_init_cpy ((vec_type (shallow_type 0) :: unit list metered_type)\<lparr>declared_size := 24 + 16\<rparr>)
     (shallow_type (of_nat (sz + 16)) :: unit metered_type) (of_nat n)"

definition metered_new :: "nat \<Rightarrow> unit metered" where
  "metered_new sz = charge_heap_alloc (shallow_type (of_nat sz) :: unit metered_type) 1"

definition clone_sized :: "nat \<Rightarrow> 'a \<Rightarrow> 'a metered" where
  "clone_sized sz x = metered_clone (shallow_type (of_nat sz)) x"

section \<open>What charging may change\<close>

text \<open>
  A budget operation is \<^emph>\<open>total\<close> on an unlimited budget (both limits \<open>u64::MAX\<close>, where the
  saturating counts can never pass them): it succeeds and the budget stays unlimited. This is
  how the theorems state that an operation has no failure of its own.
\<close>

definition unlimited :: "BudgetImpl \<Rightarrow> bool" where
  "unlimited b \<longleftrightarrow> tracker_wf b \<and> \<not> is_in_shadow_mode b \<and>
     limit (cpu_insns b) = - 1 \<and> limit (mem_bytes b) = - 1"

definition totalM :: "'a metered \<Rightarrow> bool" where
  "totalM m \<longleftrightarrow> (\<forall>b. unlimited b \<longrightarrow> (\<exists>x b'. m b = (Inr x, b') \<and> unlimited b'))"

text \<open>A concrete unlimited budget: the default one with both limits raised to \<open>u64::MAX\<close>.\<close>

definition unlimited_budget :: BudgetImpl where
  "unlimited_budget = budget_default\<lparr>
     cpu_insns := dimension_reset (- 1) (cpu_insns budget_default),
     mem_bytes := dimension_reset (- 1) (mem_bytes budget_default)\<rparr>"

lemma unlimited_budget_unlimited [simp]: "unlimited unlimited_budget"
  using default_budget_facts(1,2)
  by (simp add: unlimited_budget_def unlimited_def dimension_reset_def tracker_wf_def)

lemma totalM_ret [intro!, simp]: "totalM (retM x)"
  by (simp add: totalM_def retM_def)

lemma totalM_bind [intro]: "totalM m \<Longrightarrow> (\<And>x. totalM (f x)) \<Longrightarrow> totalM (bindM m f)"
  unfolding totalM_def bindM_def by (fastforce split: prod.splits sum.splits)

lemma totalM_bind_res:
  assumes "totalM m" and "\<And>x b b'. m b = (Inr x, b') \<Longrightarrow> totalM (f x)"
  shows "totalM (bindM m f)"
  unfolding totalM_def
proof (intro allI impI)
  fix b assume "unlimited b"
  then obtain x b' where m: "m b = (Inr x, b')" "unlimited b'"
    using assms(1) unfolding totalM_def by blast
  from assms(2) [OF m(1)] m(2) obtain y b'' where "f x b' = (Inr y, b'')" "unlimited b''"
    unfolding totalM_def by blast
  with m show "\<exists>y b'. bindM m f b = (Inr y, b') \<and> unlimited b'" by (simp add: bindM_def)
qed

lemma totalM_D: "totalM m \<Longrightarrow> unlimited b \<Longrightarrow> \<exists>x b'. m b = (Inr x, b') \<and> unlimited b'"
  by (simp add: totalM_def)

lemma totalM_bulk_charge: "input_matches ty input \<Longrightarrow> totalM (bulk_charge ty iters input)"
  unfolding totalM_def unlimited_def
proof (intro allI impI)
  fix b assume "input_matches ty input" and
    "tracker_wf b \<and> \<not> is_in_shadow_mode b \<and> limit (cpu_insns b) = - 1 \<and> limit (mem_bytes b) = - 1"
  with bulk_charge_run [of b ty input iters] show "\<exists>x b'. bulk_charge ty iters input b = (Inr x, b') \<and>
      tracker_wf b' \<and> \<not> is_in_shadow_mode b' \<and> limit (cpu_insns b') = - 1 \<and> limit (mem_bytes b') = - 1"
    by auto
qed

lemma totalM_charge [intro!, simp]: "input_matches ty input \<Longrightarrow> totalM (charge ty input)"
  by (simp add: charge_def totalM_bulk_charge)

lemma input_matches_mem [simp]:
  "input_matches MemCpy (Some x)" "input_matches MemAlloc (Some x)" "input_matches MemCmp (Some x)"
  by (simp_all add: input_matches_def)

lemma totalM_copy [intro!, simp]: "totalM (charge_shallow_copy T n)" "totalM (charge_heap_alloc T n)"
  by (simp_all add: charge_shallow_copy_def charge_heap_alloc_def)

definition total_type :: "'a metered_type \<Rightarrow> bool" where
  "total_type T \<longleftrightarrow> (\<forall>x. totalM (charge_for_substructure T x))"

lemma total_shallow [simp]: "total_type (shallow_type sz)" "total_type rc_type"
  by (simp_all add: total_type_def shallow_type_def rc_type_def default_substructure_def)

lemma total_pair [intro]: "total_type K \<Longrightarrow> total_type V \<Longrightarrow> total_type (pair_type K V)"
  by (auto simp: total_type_def pair_type_def)

lemma total_option [intro]: "total_type C \<Longrightarrow> total_type (option_type C)"
  by (auto simp: total_type_def option_type_def split: option.split)

lemma total_charge_each: "total_type C \<Longrightarrow> totalM (charge_each (charge_for_substructure C) xs)"
  by (induction xs) (auto simp: total_type_def)

lemma total_vec [intro]: "total_type C \<Longrightarrow> total_type (vec_type C)"
  by (auto simp: total_type_def vec_type_def bulk_charge_for_substructure_def
      intro!: totalM_bind total_charge_each [unfolded total_type_def])

lemma total_deep_clone_vec:
  "total_type C \<Longrightarrow> totalM (charge_deep_clone (vec_type C) xs)"
  using total_vec [of C] by (auto simp: charge_deep_clone_def vec_type_def total_type_def)

lemma total_metered_clone: "total_type C \<Longrightarrow> totalM (metered_clone C x)"
  by (auto simp: metered_clone_def total_type_def intro!: totalM_bind)

lemma metered_clone_id: "metered_clone T x b = (Inr y, b') \<Longrightarrow> y = x"
  by (auto simp: metered_clone_def m_simps)

end
