(* ===== verification/Metered_Map.thy ===== *)
theory Metered_Map
  imports Metered_Clone
begin

text \<open>
  Model of \<^verbatim>\<open>soroban-env-host/src/host/metered_map.rs\<close>: the immutable ordered map, a vector
  of entries with strictly increasing keys, that backs host map objects, footprints and storage.

  The generic parameters \<open>K\<close>, \<open>V\<close>, \<open>Ctx\<close> of the source are the record \<open>('k, 'v) map_ctx\<close>: the
  context's metered comparison of keys and the metering data of both types. The contract the
  map needs from the comparison, agreement with a linear order whenever it succeeds, is the
  locale \<open>key_order\<close>; the correctness lemmas are proved there and reach the clients through
  its interpretations. \<open>binary_search_by\<close> is the standard library's loop.

  The theorems: on a well-formed map every operation that succeeds implements the
  corresponding operation on finite maps and keeps the map well formed, and on an unlimited
  budget each of them does succeed (insertion unless the map already has \<open>2^32 - 1\<close> entries).
\<close>

section \<open>Binary search (standard library)\<close>

datatype search_result = Found nat | NotFound nat

function binary_search_by ::
  "('a \<Rightarrow> Ordering metered) \<Rightarrow> 'a list \<Rightarrow> nat \<Rightarrow> nat \<Rightarrow> BudgetImpl \<Rightarrow>
     (Error + search_result) \<times> BudgetImpl" where
  "binary_search_by f xs left right s =
     (if left < right then
        (let mid = left + (right - left) div 2
         in bindM (f (xs ! mid)) (\<lambda>ord s'. case ord of
              Less \<Rightarrow> binary_search_by f xs (mid + 1) right s'
            | Greater \<Rightarrow> binary_search_by f xs left mid s'
            | Equal \<Rightarrow> retM (Found mid) s') s)
      else retM (NotFound left) s)"
  by pat_completeness auto
termination
  by (relation "measure (\<lambda>(f, xs, left, right, s). right - left)") auto

declare binary_search_by.simps [simp del]

section \<open>The map\<close>

definition MAP_OOB :: Error where "MAP_OOB = Err Object IndexBounds"

definition u32_MAX :: nat where "u32_MAX = 2 ^ 32 - 1"

lemma u32_MAX_pos: "1 < u32_MAX"
  by (simp add: u32_MAX_def)

record ('k, 'v) map_ctx =
  compare :: "'k \<Rightarrow> 'k \<Rightarrow> Ordering metered"
  key_type :: "'k metered_type"
  val_type :: "'v metered_type"

type_synonym ('k, 'v) ord_map = "('k \<times> 'v) list"

definition ENTRY_SIZE :: "('k, 'v) map_ctx \<Rightarrow> u64" where
  "ENTRY_SIZE ctx = declared_size (pair_type (key_type ctx) (val_type ctx))"

definition map_charge_access :: "('k, 'v) map_ctx \<Rightarrow> nat \<Rightarrow> unit metered" where
  "map_charge_access ctx count = charge MemCpy (Some (saturating_mul (ENTRY_SIZE ctx) (of_nat count)))"

definition map_charge_scan :: "('k, 'v) map_ctx \<Rightarrow> ('k, 'v) ord_map \<Rightarrow> unit metered" where
  "map_charge_scan ctx m = map_charge_access ctx (length m)"

text \<open>The number of significant bits: \<open>64 - leading_zeros\<close>.\<close>

fun bit_length :: "nat \<Rightarrow> nat" where
  "bit_length n = (if n = 0 then 0 else Suc (bit_length (n div 2)))"

declare bit_length.simps [simp del]

definition map_charge_binsearch :: "('k, 'v) map_ctx \<Rightarrow> ('k, 'v) ord_map \<Rightarrow> unit metered" where
  "map_charge_binsearch ctx m =
     (let mag = (of_nat (bit_length (length m)) :: u32)
      in charge MemCpy (Some (saturating_mul (ENTRY_SIZE ctx) (ucast (saturating_add mag 1)))))"

fun check_windows :: "('k, 'v) map_ctx \<Rightarrow> ('k, 'v) ord_map \<Rightarrow> unit metered" where
  "check_windows ctx (a # b # m) =
     bindM (compare ctx (fst a) (fst b)) (\<lambda>ord. case ord of
       Less \<Rightarrow> check_windows ctx (b # m)
     | _ \<Rightarrow> throwM (Err Object InvalidInput))"
| "check_windows ctx m = retM ()"

definition map_from_map :: "('k, 'v) map_ctx \<Rightarrow> ('k, 'v) ord_map \<Rightarrow> ('k, 'v) ord_map metered" where
  "map_from_map ctx m =
     (if length m > u32_MAX then throwM MAP_OOB
      else thenM (map_charge_scan ctx m) (thenM (check_windows ctx m) (retM m)))"

definition map_from_exact_iter ::
  "('k, 'v) map_ctx \<Rightarrow> ('k, 'v) ord_map \<Rightarrow> ('k, 'v) ord_map metered" where
  "map_from_exact_iter ctx m =
     (if length m > u32_MAX then throwM MAP_OOB
      else thenM (charge_deep_clone (vec_type (pair_type (key_type ctx) (val_type ctx))) m)
             (map_from_map ctx m))"

definition map_find :: "('k, 'v) map_ctx \<Rightarrow> ('k, 'v) ord_map \<Rightarrow> 'k \<Rightarrow> search_result metered" where
  "map_find ctx m key = thenM (map_charge_binsearch ctx m)
     (binary_search_by (\<lambda>probe. compare ctx (fst probe) key) m 0 (length m))"

definition map_insert ::
  "('k, 'v) map_ctx \<Rightarrow> ('k, 'v) ord_map \<Rightarrow> 'k \<Rightarrow> 'v \<Rightarrow> ('k, 'v) ord_map metered" where
  "map_insert ctx m key val = thenM (map_charge_access ctx 1)
     (bindM (map_find ctx m key) (\<lambda>res. case res of
        Found replace_pos \<Rightarrow>
          (if replace_pos = 2 ^ 64 - 2 then throwM MAP_OOB
           else map_from_exact_iter ctx
             (take replace_pos m @ [(key, val)] @ drop (replace_pos + 1) m))
      | NotFound insert_pos \<Rightarrow>
          (if length m = u32_MAX then throwM MAP_OOB
           else map_from_exact_iter ctx
             (take insert_pos m @ [(key, val)] @ drop insert_pos m))))"

definition map_get :: "('k, 'v) map_ctx \<Rightarrow> ('k, 'v) ord_map \<Rightarrow> 'k \<Rightarrow> 'v option metered" where
  "map_get ctx m key = bindM (map_find ctx m key) (\<lambda>res. case res of
     Found found \<Rightarrow> thenM (map_charge_access ctx 1)
       (if found < length m then retM (Some (snd (m ! found)))
        else throwM (Err Object InternalError))
   | NotFound _ \<Rightarrow> retM None)"

definition map_get_at_index ::
  "('k, 'v) map_ctx \<Rightarrow> ('k, 'v) ord_map \<Rightarrow> nat \<Rightarrow> ('k \<times> 'v) metered" where
  "map_get_at_index ctx m index = thenM (map_charge_access ctx 1)
     (if index < length m then retM (m ! index) else throwM (Err Object IndexBounds))"

definition map_remove ::
  "('k, 'v) map_ctx \<Rightarrow> ('k, 'v) ord_map \<Rightarrow> 'k \<Rightarrow> (('k, 'v) ord_map \<times> 'v) option metered" where
  "map_remove ctx m key = bindM (map_find ctx m key) (\<lambda>res. case res of
     Found found \<Rightarrow>
       (let rest = (if found > 0 then take found m @ drop (found + 1) m else drop 1 m)
        in bindM (map_from_exact_iter ctx rest) (\<lambda>new.
             if found < length m
             then bindM (metered_clone (val_type ctx) (snd (m ! found)))
                    (\<lambda>v. retM (Some (new, v)))
             else throwM (Err Object InternalError)))
   | NotFound _ \<Rightarrow> retM None)"

definition map_contains_key :: "('k, 'v) map_ctx \<Rightarrow> ('k, 'v) ord_map \<Rightarrow> 'k \<Rightarrow> bool metered" where
  "map_contains_key ctx m key = bindM (map_find ctx m key) (\<lambda>res. case res of
     Found _ \<Rightarrow> retM True | NotFound _ \<Rightarrow> retM False)"

definition map_keys :: "('k, 'v) map_ctx \<Rightarrow> ('k, 'v) ord_map \<Rightarrow> 'k list metered" where
  "map_keys ctx m = thenM (map_charge_scan ctx m) (retM (map fst m))"

definition map_values :: "('k, 'v) map_ctx \<Rightarrow> ('k, 'v) ord_map \<Rightarrow> 'v list metered" where
  "map_values ctx m = thenM (map_charge_scan ctx m) (retM (map snd m))"

section \<open>Metered comparison of fixed-size ordered types (comparison.rs)\<close>

definition compare_fixed :: "u64 \<Rightarrow> 'k::linorder \<Rightarrow> 'k \<Rightarrow> Ordering metered" where
  "compare_fixed sz a b = thenM (charge MemCmp (Some sz)) (retM (cmp_of a b))"

definition fixed_ctx :: "u64 \<Rightarrow> 'v metered_type \<Rightarrow> ('k::linorder, 'v) map_ctx" where
  "fixed_ctx sz V = \<lparr>compare = compare_fixed sz, key_type = shallow_type sz, val_type = V\<rparr>"

section \<open>Well-formed maps\<close>

text \<open>
  The keys are ordered through an injection \<open>g\<close> into a linear order: the identity where the key
  type has the order itself, and the discriminant followed by the payload for ledger keys.
\<close>

abbreviation keys_sorted :: "('k \<Rightarrow> 'o::linorder) \<Rightarrow> ('k, 'v) ord_map \<Rightarrow> bool" where
  "keys_sorted g m \<equiv> sorted_wrt (<) (map (\<lambda>p. g (fst p)) m)"

definition map_wf :: "('k \<Rightarrow> 'o::linorder) \<Rightarrow> ('k, 'v) ord_map \<Rightarrow> bool" where
  "map_wf g m \<longleftrightarrow> keys_sorted g m \<and> length m \<le> u32_MAX"

text \<open>Where a key is, or would have to go, in a vector ordered by the projection \<open>g\<close>.\<close>

definition locates_by :: "('a \<Rightarrow> 'k::linorder) \<Rightarrow> 'a list \<Rightarrow> 'k \<Rightarrow> search_result \<Rightarrow> bool" where
  "locates_by g m k res = (case res of
     Found i \<Rightarrow> i < length m \<and> g (m ! i) = k
   | NotFound i \<Rightarrow> i \<le> length m \<and> (\<forall>j < i. g (m ! j) < k) \<and>
       (\<forall>j. i \<le> j \<longrightarrow> j < length m \<longrightarrow> k < g (m ! j)))"

abbreviation locates :: "('k \<Rightarrow> 'o::linorder) \<Rightarrow> ('k, 'v) ord_map \<Rightarrow> 'k \<Rightarrow> search_result \<Rightarrow> bool" where
  "locates g m k \<equiv> locates_by (\<lambda>p. g (fst p)) m (g k)"

lemmas locates_def = locates_by_def

lemma keys_sorted_distinct: "keys_sorted g m \<Longrightarrow> distinct (map fst m)"
proof -
  assume "keys_sorted g m"
  then have "distinct (map (g \<circ> fst) m)"
    by (auto simp: distinct_conv_nth linorder_neq_iff sorted_wrt_nth_iff)
  then show ?thesis unfolding map_map [symmetric] by (rule distinct_map [THEN iffD1, THEN conjunct1])
qed

text \<open>Binary search over any weakly sorted vector, duplicates allowed.\<close>

lemma binary_search_locates:
  fixes g :: "'a \<Rightarrow> 'k::linorder"
  assumes sound: "\<And>p s ord s'. f p s = (Inr ord, s') \<Longrightarrow> ord = cmp_of (g p) k"
    and sorted: "sorted (map g m)"
  shows "binary_search_by f m left right s = (Inr res, s') \<Longrightarrow>
    left \<le> right \<Longrightarrow> right \<le> length m \<Longrightarrow> (\<forall>j < left. g (m ! j) < k) \<Longrightarrow>
    (\<forall>j. right \<le> j \<longrightarrow> j < length m \<longrightarrow> k < g (m ! j)) \<Longrightarrow> locates_by g m k res"
proof (induction "right - left" arbitrary: left right s rule: less_induct)
  case less
  have mono: "g (m ! i) \<le> g (m ! j)" if "i \<le> j" "j < length m" for i j
    using sorted_nth_mono [OF sorted, of i j] that by simp
  show ?case
  proof (cases "left < right")
    case False
    with less show ?thesis by (auto simp: binary_search_by.simps [of f m left] m_simps locates_by_def)
  next
    case True
    let ?mid = "left + (right - left) div 2"
    have mid: "left \<le> ?mid" "?mid < right" "?mid < length m" using True less.prems(3) by auto
    from True less(2) obtain ord s1 where f: "f (m ! ?mid) s = (Inr ord, s1)"
      and rest: "(case ord of Less \<Rightarrow> binary_search_by f m (?mid + 1) right s1
        | Greater \<Rightarrow> binary_search_by f m left ?mid s1
        | Equal \<Rightarrow> retM (Found ?mid) s1) = (Inr res, s')"
      by (auto simp: binary_search_by.simps [of f m left] Let_def bindM_Inr)
    have ord: "ord = cmp_of (g (m ! ?mid)) k" using sound [OF f] .
    show ?thesis
    proof (cases ord)
      case Less
      then have lt: "g (m ! ?mid) < k" using ord by simp
      have "\<forall>j < ?mid + 1. g (m ! j) < k" 
      proof (intro allI impI)
        fix j assume "j < ?mid + 1"
        then have "g (m ! j) \<le> g (m ! ?mid)" using mid(3) by (intro mono) simp_all
        with lt show "g (m ! j) < k" by simp
      qed
      with less.prems mid rest Less show ?thesis by (intro less.hyps [of right "?mid + 1" s1]) auto
    next
      case Equal
      then have "g (m ! ?mid) = k" using ord by (metis cmp_of_simps(2))
      with rest Equal mid show ?thesis by (auto simp: retM_def locates_by_def)
    next
      case Greater
      then have gt: "k < g (m ! ?mid)" using ord by simp
      have "\<forall>j. ?mid \<le> j \<longrightarrow> j < length m \<longrightarrow> k < g (m ! j)" using mono gt by (meson less_le_trans)
      with less.prems mid rest Greater show ?thesis by (intro less.hyps [of ?mid left s1]) auto
    qed
  qed
qed

lemma locates_split_found:
  assumes "inj g" "keys_sorted g m" "locates g m k (Found i)"
  obtains xs v ys where "m = xs @ (k, v) # ys" "i = length xs" "v = snd (m ! i)"
    "take i m = xs" "drop (Suc i) m = ys" "k \<notin> fst ` set xs" "k \<notin> fst ` set ys"
proof -
  let ?xs = "take i m" and ?ys = "drop (Suc i) m"
  have i: "i < length m" and k: "fst (m ! i) = k"
    using assms(1,3) by (auto simp: locates_def dest: injD)
  have m: "m = ?xs @ (k, snd (m ! i)) # ?ys" using take_Cons_drop [OF i] k by auto
  have "distinct (map fst (?xs @ (k, snd (m ! i)) # ?ys))"
    using keys_sorted_distinct [OF assms(2)] m by simp
  then have "k \<notin> fst ` set ?xs" "k \<notin> fst ` set ?ys" by auto
  with i m show thesis by (intro that [of ?xs "snd (m ! i)" ?ys]) simp_all
qed

lemma locates_replace:
  assumes "inj g" "keys_sorted g m" "locates g m k (Found i)"
  shows "keys_sorted g (take i m @ (k, v) # drop (Suc i) m)"
    and "map_of (take i m @ (k, v) # drop (Suc i) m) = (map_of m)(k \<mapsto> v)"
    and "keys_sorted g (take i m @ drop (Suc i) m)"
    and "map_of (take i m @ drop (Suc i) m) = (map_of m)(k := None)"
    and "map_of m k = Some (snd (m ! i))"
proof -
  from assms obtain xs u ys where *: "m = xs @ (k, u) # ys" "i = length xs" "u = snd (m ! i)"
    "take i m = xs" "drop (Suc i) m = ys" "k \<notin> fst ` set xs" "k \<notin> fst ` set ys"
    by (rule locates_split_found)
  have nx: "map_of xs k = None" and ny: "map_of ys k = None"
    using *(6,7) by (simp_all add: map_of_eq_None_iff)
  have "keys_sorted g (xs @ (k, u) # ys)" using assms(2) *(1) by simp
  then show "keys_sorted g (take i m @ (k, v) # drop (Suc i) m)"
    and "keys_sorted g (take i m @ drop (Suc i) m)"
    unfolding *(4,5) by (auto simp: sorted_wrt_append)
  have old: "map_of m = (map_of ys)(k \<mapsto> u) ++ map_of xs" using *(1) by simp
  show "map_of (take i m @ (k, v) # drop (Suc i) m) = (map_of m)(k \<mapsto> v)"
    and "map_of (take i m @ drop (Suc i) m) = (map_of m)(k := None)"
    unfolding old *(4,5) using nx ny by (auto simp: fun_eq_iff map_add_def split: option.split)
  show "map_of m k = Some (snd (m ! i))"
    unfolding old using *(3) nx by (simp add: map_add_def)
qed

lemma locates_insert:
  assumes "keys_sorted g m" "locates g m k (NotFound i)"
  shows "keys_sorted g (take i m @ (k, v) # drop i m)"
    and "map_of (take i m @ (k, v) # drop i m) = (map_of m)(k \<mapsto> v)"
    and "map_of m k = None"
proof -
  have i: "i \<le> length m" and lo: "\<And>j. j < i \<Longrightarrow> g (fst (m ! j)) < g k"
    and hi: "\<And>j. i \<le> j \<Longrightarrow> j < length m \<Longrightarrow> g k < g (fst (m ! j))"
    using assms(2) by (auto simp: locates_def)
  have l: "\<forall>p \<in> set (take i m). g (fst p) < g k"
    using lo i by (auto simp: in_set_conv_nth) (metis fst_conv)
  have h: "\<forall>p \<in> set (drop i m). g k < g (fst p)"
    using hi i by (auto simp: in_set_conv_nth) (metis add.commute le_add1 less_diff_conv fst_conv)
  have split: "keys_sorted g (take i m @ drop i m)" using assms(1) by simp
  have cross: "\<forall>p \<in> set (take i m). \<forall>q \<in> set (drop i m). g (fst p) < g (fst q)"
    using l h by (meson order.strict_trans)
  have "keys_sorted g (take i m)" and "keys_sorted g (drop i m)"
    using split by (simp_all only: map_append sorted_wrt_append)
  with l h cross show "keys_sorted g (take i m @ (k, v) # drop i m)"
    by (auto simp: sorted_wrt_append)
  have "k \<notin> fst ` set (take i m)" "k \<notin> fst ` set (drop i m)" using l h by blast+
  then have "k \<notin> fst ` set (take i m @ drop i m)" by (simp only: set_append image_Un Un_iff simp_thms)
  then show none: "map_of m k = None" by (simp add: map_of_eq_None_iff)
  have nt: "map_of (take i m) k = None" using l by (force simp: map_of_eq_None_iff)
  have "map_of (take i m @ (k, v) # drop i m) = (map_of (take i m @ drop i m))(k \<mapsto> v)"
    using nt by (simp only: map_of_append map_of.simps fst_conv snd_conv)
      (simp add: map_add_upd_left domIff)
  then show "map_of (take i m @ (k, v) # drop i m) = (map_of m)(k \<mapsto> v)" by simp
qed

section \<open>The contract of the key comparison\<close>

text \<open>
  What the map relies on: whenever comparing two keys succeeds, it answers the order of \<open>g\<close>.
  \<open>total_key_order\<close> adds that comparing keys that are \<open>good\<close> (ledger keys of a supported type,
  for storage) and cloning never fail for a reason other than the budget, which is what the
  operations' totality needs.
\<close>

locale key_order =
  fixes ctx :: "('k, 'v) map_ctx" and g :: "'k \<Rightarrow> 'o::linorder"
  assumes order_inj: "inj g"
    and compare_sound: "compare ctx a b s = (Inr ord, s') \<Longrightarrow> ord = cmp_of (g a) (g b)"
begin

lemma find_locates:
  assumes "keys_sorted g m" "map_find ctx m k s = (Inr res, s')"
  shows "locates g m k res"
proof -
  have "sorted (map (\<lambda>p. g (fst p)) m)" using assms(1) by (rule strict_sorted_imp_sorted)
  then show ?thesis using assms(2) unfolding map_find_def
    by (auto simp: bindM_Inr elim!: binary_search_locates [rotated 2] dest: compare_sound)
qed

lemma check_windows_sorted:
  "check_windows ctx m s = (Inr u, s') \<Longrightarrow> keys_sorted g m"
proof (induction m arbitrary: s rule: induct_list012)
  case (3 a b m)
  then obtain ord s1 where ord: "compare ctx (fst a) (fst b) s = (Inr ord, s1)"
    and rest: "(case ord of Less \<Rightarrow> check_windows ctx (b # m) | _ \<Rightarrow> throwM (Err Object InvalidInput)) s1
      = (Inr u, s')"
    by (auto simp: bindM_Inr)
  have "ord = Less" using rest by (cases ord) auto
  then have tl: "check_windows ctx (b # m) s1 = (Inr u, s')" using rest by simp
  have less: "g (fst a) < g (fst b)" using \<open>ord = Less\<close> compare_sound [OF ord] by (metis cmp_of_simps(1))
  from 3(2) [OF tl] less show ?case by (auto intro: less_trans)
qed auto

lemma from_map_wf:
  "map_from_map ctx m s = (Inr m', s') \<Longrightarrow> m' = m \<and> map_wf g m"
  by (auto simp: map_from_map_def map_wf_def m_simps split: if_splits dest: check_windows_sorted)

lemma from_exact_iter_wf:
  "map_from_exact_iter ctx m s = (Inr m', s') \<Longrightarrow> m' = m \<and> map_wf g m"
  by (auto simp: map_from_exact_iter_def m_simps split: if_splits dest: from_map_wf)

lemma insert_refines:
  assumes "map_wf g m" "map_insert ctx m k v s = (Inr m', s')"
  shows "map_wf g m' \<and> map_of m' = (map_of m)(k \<mapsto> v)"
proof -
  have sorted: "keys_sorted g m" using assms(1) by (simp add: map_wf_def)
  from assms(2) obtain res s1 s2 where loc: "map_find ctx m k s1 = (Inr res, s2)"
    and new: "(case res of
        Found i \<Rightarrow> (if i = 2 ^ 64 - 2 then throwM MAP_OOB
           else map_from_exact_iter ctx (take i m @ [(k, v)] @ drop (i + 1) m))
      | NotFound i \<Rightarrow> (if length m = u32_MAX then throwM MAP_OOB
           else map_from_exact_iter ctx (take i m @ [(k, v)] @ drop i m))) s2 = (Inr m', s')"
    unfolding map_insert_def bindM_Inr by blast
  have l: "locates g m k res" by (rule find_locates [OF sorted loc])
  show ?thesis
  proof (cases res)
    case (Found i)
    with new have "map_from_exact_iter ctx (take i m @ (k, v) # drop (Suc i) m) s2 = (Inr m', s')"
      by (auto split: if_splits)
    with locates_replace(2) [OF order_inj sorted l [unfolded Found], of v] from_exact_iter_wf
    show ?thesis by metis
  next
    case (NotFound i)
    with new have "map_from_exact_iter ctx (take i m @ (k, v) # drop i m) s2 = (Inr m', s')"
      by (auto split: if_splits)
    with locates_insert(2) [OF sorted l [unfolded NotFound], of v] from_exact_iter_wf
    show ?thesis by metis
  qed
qed

lemma get_refines:
  assumes "map_wf g m" "map_get ctx m k s = (Inr r, s')"
  shows "r = map_of m k"
proof -
  have sorted: "keys_sorted g m" using assms(1) by (simp add: map_wf_def)
  from assms(2) obtain res s2 where loc: "map_find ctx m k s = (Inr res, s2)"
    and new: "(case res of Found i \<Rightarrow> thenM (map_charge_access ctx 1)
       (if i < length m then retM (Some (snd (m ! i))) else throwM (Err Object InternalError))
      | NotFound _ \<Rightarrow> retM None) s2 = (Inr r, s')"
    by (auto simp: map_get_def bindM_Inr)
  note l = find_locates [OF sorted loc]
  show ?thesis
  proof (cases res)
    case (Found i)
    with new locates_replace(5) [OF order_inj sorted l [unfolded Found]] show ?thesis
      by (auto simp: m_simps split: if_splits)
  next
    case (NotFound i)
    with new locates_insert(3) [OF sorted l [unfolded NotFound]] show ?thesis
      by (auto simp: m_simps)
  qed
qed

lemma contains_key_refines:
  assumes "map_wf g m" "map_contains_key ctx m k s = (Inr r, s')"
  shows "r \<longleftrightarrow> k \<in> dom (map_of m)"
proof -
  have sorted: "keys_sorted g m" using assms(1) by (simp add: map_wf_def)
  from assms(2) obtain res s2 where loc: "map_find ctx m k s = (Inr res, s2)"
    and new: "(case res of Found _ \<Rightarrow> retM True | NotFound _ \<Rightarrow> retM False) s2 = (Inr r, s')"
    unfolding map_contains_key_def bindM_Inr by blast
  note l = find_locates [OF sorted loc]
  show ?thesis
  proof (cases res)
    case (Found i)
    with new locates_replace(5) [OF order_inj sorted l [unfolded Found]] show ?thesis
      by (auto simp: dom_def retM_Inr)
  next
    case (NotFound i)
    with new locates_insert(3) [OF sorted l [unfolded NotFound]] show ?thesis
      by (auto simp: dom_def retM_Inr)
  qed
qed

lemma remove_refines:
  assumes "map_wf g m" "map_remove ctx m k s = (Inr r, s')"
  shows "case r of None \<Rightarrow> map_of m k = None
    | Some (m', v) \<Rightarrow> map_of m k = Some v \<and> map_wf g m' \<and> map_of m' = (map_of m)(k := None)"
proof -
  have sorted: "keys_sorted g m" using assms(1) by (simp add: map_wf_def)
  from assms(2) obtain res s2 where loc: "map_find ctx m k s = (Inr res, s2)"
    and new: "(case res of Found i \<Rightarrow>
       (let rest = (if i > 0 then take i m @ drop (i + 1) m else drop 1 m)
        in bindM (map_from_exact_iter ctx rest) (\<lambda>new.
             if i < length m
             then bindM (metered_clone (val_type ctx) (snd (m ! i))) (\<lambda>v. retM (Some (new, v)))
             else throwM (Err Object InternalError)))
      | NotFound _ \<Rightarrow> retM None) s2 = (Inr r, s')"
    by (auto simp: map_remove_def bindM_Inr)
  note l = find_locates [OF sorted loc]
  show ?thesis
  proof (cases res)
    case (NotFound i)
    with new locates_insert(3) [OF sorted l [unfolded NotFound]] show ?thesis
      by (auto simp: m_simps)
  next
    case (Found i)
    have rest: "(if i > 0 then take i m @ drop (i + 1) m else drop 1 m) = take i m @ drop (Suc i) m"
      by simp
    from new [unfolded Found Let_def, simplified search_result.case rest] obtain m' s3 v where
      it: "map_from_exact_iter ctx (take i m @ drop (Suc i) m) s2 = (Inr m', s3)"
      and v: "v = snd (m ! i)" and r: "r = Some (m', v)"
      by (auto simp: bindM_Inr retM_Inr split: if_splits dest: metered_clone_id)
    note keep = locates_replace(4,5) [OF order_inj sorted l [unfolded Found]]
    from from_exact_iter_wf [OF it] keep v r show ?thesis by auto
  qed
qed

end

locale total_key_order = key_order ctx g for ctx :: "('k, 'v) map_ctx" and g :: "'k \<Rightarrow> 'o::linorder" +
  fixes good :: "'k \<Rightarrow> bool"
  assumes compare_total: "good a \<Longrightarrow> good b \<Longrightarrow> totalM (compare ctx a b)"
    and key_total: "total_type (key_type ctx)"
    and val_total: "total_type (val_type ctx)"
begin

lemma charges_total [simp]:
  "totalM (map_charge_access ctx n)" "totalM (map_charge_scan ctx m)" "totalM (map_charge_binsearch ctx m)"
  by (simp_all add: map_charge_access_def map_charge_scan_def map_charge_binsearch_def Let_def)

lemma binary_search_total:
  "good key \<Longrightarrow> \<forall>k \<in> fst ` set m. good k \<Longrightarrow> right \<le> length m \<Longrightarrow> totalM (\<lambda>s. binary_search_by (\<lambda>probe. compare ctx (fst probe) key) m left right s)"
proof (induction "right - left" arbitrary: left right rule: less_induct)
  case less
  let ?f = "\<lambda>probe. compare ctx (fst probe) key" and ?mid = "left + (right - left) div 2"
  show ?case
  proof (cases "left < right")
    case True
    have "totalM (bindM (?f (m ! ?mid)) (\<lambda>ord s'. case ord of
              Less \<Rightarrow> binary_search_by ?f m (?mid + 1) right s'
            | Greater \<Rightarrow> binary_search_by ?f m left ?mid s'
            | Equal \<Rightarrow> retM (Found ?mid) s'))"
    proof (rule totalM_bind [OF compare_total])
      show "good (fst (m ! ?mid))" using less.prems True by (auto simp: image_iff)
      show "good key" by (rule less.prems)
      fix ord show "totalM (\<lambda>s'. case ord of
              Less \<Rightarrow> binary_search_by ?f m (?mid + 1) right s'
            | Greater \<Rightarrow> binary_search_by ?f m left ?mid s'
            | Equal \<Rightarrow> retM (Found ?mid) s')"
        using True less.prems by (cases ord) (auto intro!: less.hyps simp: totalM_ret)
    qed
    with True show ?thesis by (simp add: binary_search_by.simps [abs_def] Let_def)
  next
    case False
    then show ?thesis by (simp add: binary_search_by.simps [abs_def])
  qed
qed

lemma find_total: "good key \<Longrightarrow> \<forall>k \<in> fst ` set m. good k \<Longrightarrow> totalM (map_find ctx m key)"
  unfolding map_find_def
  by (intro totalM_bind charges_total binary_search_total [of key m "length m" 0, simplified]) auto

lemma check_windows_total:
  "\<forall>k \<in> fst ` set m. good k \<Longrightarrow> keys_sorted g m \<Longrightarrow> totalM (check_windows ctx m)"
proof (induction m rule: induct_list012)
  case (3 a b m)
  then show ?case
    by (auto simp: cmp_of_less intro!: totalM_bind_res compare_total dest!: compare_sound)
qed auto

text \<open>The scan for increasing keys rejects exactly the unsorted vectors.\<close>

lemma check_windows_rejects:
  assumes "unlimited s" "\<forall>k \<in> fst ` set m. good k" "\<not> keys_sorted g m"
  shows "\<exists>s'. check_windows ctx m s = (Inl (Err Object InvalidInput), s')"
  using assms
proof (induction m arbitrary: s rule: induct_list012)
  case (3 a b m)
  obtain ord s1 where ord: "compare ctx (fst a) (fst b) s = (Inr ord, s1)" "unlimited s1"
    using totalM_D [OF compare_total 3(3)] 3(4) by fastforce
  show ?case
  proof (cases "g (fst a) < g (fst b)")
    case True
    then have "\<not> keys_sorted g (b # m)" using 3(5) by (auto intro: less_trans)
    from 3(2) [OF ord(2) _ this] 3(4) True compare_sound [OF ord(1)] ord(1) show ?thesis
      by (simp add: bindM_def cmp_of_less)
  next
    case False
    then have "cmp_of (g (fst a)) (g (fst b)) \<noteq> Less" by simp
    with compare_sound [OF ord(1)] ord(1) show ?thesis
      by (cases ord) (auto simp: bindM_def throwM_def)
  qed
qed auto

lemma from_map_outcome:
  assumes "unlimited b" "\<forall>k \<in> fst ` set m. good k"
  shows "fst (map_from_map ctx m b) =
    (if length m > u32_MAX then Inl MAP_OOB
     else if keys_sorted g m then Inr m else Inl (Err Object InvalidInput))"
proof (cases "length m > u32_MAX")
  case False
  obtain b1 where c: "map_charge_scan ctx m b = (Inr (), b1)" "unlimited b1"
    using totalM_D [OF charges_total(2) assms(1)] by (metis old.unit.exhaust)
  show ?thesis
  proof (cases "keys_sorted g m")
    case True
    then obtain u b2 where "check_windows ctx m b1 = (Inr u, b2)"
      using totalM_D [OF check_windows_total [OF assms(2)] c(2)] by blast
    with c(1) True False show ?thesis by (simp add: map_from_map_def bindM_def retM_def)
  next
    case unsorted: False
    with c(1) False check_windows_rejects [OF c(2) assms(2) unsorted] show ?thesis
      by (auto simp: map_from_map_def bindM_def)
  qed
qed (simp add: map_from_map_def throwM_def)

lemma from_exact_iter_total: "\<forall>k \<in> fst ` set m. good k \<Longrightarrow> map_wf g m \<Longrightarrow> totalM (map_from_exact_iter ctx m)"
  by (auto simp: map_from_exact_iter_def map_from_map_def map_wf_def
      intro!: totalM_bind total_deep_clone_vec total_pair key_total val_total check_windows_total)

lemma good_split:
  assumes "good k" "\<forall>k \<in> fst ` set m. good k"
  shows "\<forall>k' \<in> fst ` set (take i m @ (k, v) # drop j m). good k'"
    "\<forall>k' \<in> fst ` set (take i m @ drop j m). good k'"
  using assms by (auto dest!: in_set_takeD in_set_dropD simp: ball_Un)

lemma insert_total:
  assumes wf: "map_wf g m" and keys: "good k" "\<forall>k \<in> fst ` set m. good k" and room: "length m < u32_MAX \<or> k \<in> dom (map_of m)"
  shows "totalM (map_insert ctx m k v)"
  unfolding map_insert_def
proof (rule totalM_bind [OF charges_total(1)], rule totalM_bind_res [OF find_total [OF keys]])
  fix res b b' assume f: "map_find ctx m k b = (Inr res, b')"
  have sorted: "keys_sorted g m" and len: "length m \<le> u32_MAX"
    using wf by (auto simp: map_wf_def)
  note l = find_locates [OF sorted f] and good = good_split [OF keys]
  show "totalM (case res of
      Found i \<Rightarrow> (if i = 2 ^ 64 - 2 then throwM MAP_OOB
         else map_from_exact_iter ctx (take i m @ [(k, v)] @ drop (i + 1) m))
    | NotFound i \<Rightarrow> (if length m = u32_MAX then throwM MAP_OOB
         else map_from_exact_iter ctx (take i m @ [(k, v)] @ drop i m)))"
  proof (cases res)
    case (Found i)
    then have i: "i < length m" using l by (simp add: locates_def)
    have "i \<noteq> 2 ^ 64 - 2" using i len by (simp add: u32_MAX_def)
    moreover have "map_wf g (take i m @ (k, v) # drop (Suc i) m)"
      using locates_replace(1) [OF order_inj sorted l [unfolded Found], of v] i len by (simp add: map_wf_def)
    ultimately show ?thesis by (auto simp: Found intro: from_exact_iter_total [OF good(1)])
  next
    case (NotFound i)
    have "length m < u32_MAX"
      using room locates_insert(3) [OF sorted l [unfolded NotFound]] by (auto simp: dom_def)
    moreover have "i \<le> length m" using l NotFound by (simp add: locates_def)
    ultimately have "map_wf g (take i m @ (k, v) # drop i m)"
      using locates_insert(1) [OF sorted l [unfolded NotFound], of v] by (simp add: map_wf_def)
    with \<open>length m < u32_MAX\<close> show ?thesis by (auto simp: NotFound intro: from_exact_iter_total [OF good(1)])
  qed
qed

lemma get_total:
  assumes wf: "map_wf g m" and keys: "good k" "\<forall>k \<in> fst ` set m. good k"
  shows "totalM (map_get ctx m k)"
  unfolding map_get_def
proof (intro totalM_bind_res [OF find_total [OF keys]])
  fix res b b' assume f: "map_find ctx m k b = (Inr res, b')"
  have "locates g m k res" using wf f by (auto simp: map_wf_def intro: find_locates)
  then show "totalM (case res of Found i \<Rightarrow> thenM (map_charge_access ctx 1)
       (if i < length m then retM (Some (snd (m ! i))) else throwM (Err Object InternalError))
      | NotFound _ \<Rightarrow> retM None)"
    by (auto simp: locates_def split: search_result.splits)
qed

lemma contains_key_total:
  assumes "map_wf g m" "good k" "\<forall>k \<in> fst ` set m. good k"
  shows "totalM (map_contains_key ctx m k)"
  unfolding map_contains_key_def using assms(2,3)
  by (auto intro!: totalM_bind find_total split: search_result.split)

lemma remove_total:
  assumes wf: "map_wf g m" and keys: "good k" "\<forall>k \<in> fst ` set m. good k"
  shows "totalM (map_remove ctx m k)"
  unfolding map_remove_def
proof (intro totalM_bind_res [OF find_total [OF keys]])
  fix res b b' assume f: "map_find ctx m k b = (Inr res, b')"
  have sorted: "keys_sorted g m" and len: "length m \<le> u32_MAX"
    using wf by (auto simp: map_wf_def)
  note l = find_locates [OF sorted f] and good = good_split [OF keys]
  show "totalM (case res of Found i \<Rightarrow>
       (let rest = (if i > 0 then take i m @ drop (i + 1) m else drop 1 m)
        in bindM (map_from_exact_iter ctx rest) (\<lambda>new.
             if i < length m
             then bindM (metered_clone (val_type ctx) (snd (m ! i))) (\<lambda>v. retM (Some (new, v)))
             else throwM (Err Object InternalError)))
      | NotFound _ \<Rightarrow> retM None)"
  proof (cases res)
    case (Found i)
    have rest: "(if i > 0 then take i m @ drop (i + 1) m else drop 1 m) = take i m @ drop (Suc i) m"
      by simp
    have i: "i < length m" using l Found by (simp add: locates_def)
    have "map_wf g (take i m @ drop (Suc i) m)"
      using locates_replace(3) [OF order_inj sorted l [unfolded Found]] i len by (simp add: map_wf_def)
    with i show ?thesis unfolding Found search_result.case rest Let_def
      by (auto intro!: totalM_bind from_exact_iter_total [OF good(2)] total_metered_clone val_total)
  qed auto
qed

end

section \<open>The fixed-size keys provide the contract\<close>

interpretation fixed: total_key_order "fixed_ctx sz (shallow_type vs)" "\<lambda>k. k" "\<lambda>_. True"
  for sz vs :: u64
  by unfold_locales (auto simp: fixed_ctx_def compare_fixed_def m_simps)

section \<open>Properties\<close>

text \<open>C29: Inserting into a well-formed map, whatever the budget: on success the result is well
  formed and is the finite-map update; the only failures are an exhausted budget and a full
  map (\<open>2^32 - 1\<close> entries) that does not yet have the key.\<close>

theorem map_insert_correct:
  fixes m :: "('k::linorder, 'v) ord_map"
  assumes "map_wf (\<lambda>k. k) m"
  shows "case map_insert (fixed_ctx sz (shallow_type vs)) m k v b of
      (Inr m', _) \<Rightarrow> map_wf (\<lambda>k. k) m' \<and> map_of m' = (map_of m)(k \<mapsto> v)
    | (Inl _, _) \<Rightarrow> \<not> unlimited b \<or> length m = u32_MAX \<and> map_of m k = None"
proof (cases "map_insert (fixed_ctx sz (shallow_type vs)) m k v b")
  case (Pair r b')
  show ?thesis
  proof (cases r)
    case (Inl e)
    have "\<not> (length m < u32_MAX \<or> k \<in> dom (map_of m))" if "unlimited b"
      using totalM_D [OF fixed.insert_total [OF assms] that] Pair Inl by (metis Pair_inject Inl_Inr_False)
    moreover have "length m \<le> u32_MAX" using assms by (simp add: map_wf_def)
    ultimately have "\<not> unlimited b \<or> length m = u32_MAX \<and> map_of m k = None"
      unfolding domIff by linarith
    then show ?thesis by (simp add: Pair Inl)
  next
    case (Inr m')
    with Pair fixed.insert_refines [OF assms, of sz vs k v b] show ?thesis by simp
  qed
qed

theorem map_insert_correct_witness:
  "map_wf (\<lambda>k. k) [(1 :: int, True)] \<and>
   (\<exists>m' b'. map_insert (fixed_ctx 8 (shallow_type 1)) [(1 :: int, True)] 2 False unlimited_budget =
      (Inr m', b') \<and> map_wf (\<lambda>k. k) m' \<and> map_of m' = (map_of [(1, True)])(2 \<mapsto> False))"
proof -
  have wf: "map_wf (\<lambda>k. k) [(1 :: int, True)]" by (simp add: map_wf_def u32_MAX_def)
  show ?thesis
    using wf map_insert_correct [OF wf, where sz = 8 and vs = 1 and k = 2 and v = False and b = unlimited_budget]
    by (auto simp: u32_MAX_def split: prod.splits sum.splits)
qed

text \<open>C30: Looking a key up in a well-formed map, whatever the budget, answers the finite map's
  value or fails because the budget is exhausted; a lookup right after a successful insertion
  finds the inserted value, and every other key is unaffected.\<close>

theorem map_get_after_insert:
  fixes m :: "('k::linorder, 'v) ord_map"
  assumes "map_wf (\<lambda>k. k) m" and "map_insert (fixed_ctx sz (shallow_type vs)) m k v b = (Inr m', b1)"
    and "unlimited b2"
  shows "fst (map_get (fixed_ctx sz (shallow_type vs)) m' j b2) =
    Inr (if j = k then Some v else map_of m j)"
proof -
  have wf: "map_wf (\<lambda>k. k) m'" and of: "map_of m' = (map_of m)(k \<mapsto> v)"
    using fixed.insert_refines [OF assms(1,2)] by auto
  obtain r b3 where g: "map_get (fixed_ctx sz (shallow_type vs)) m' j b2 = (Inr r, b3)"
    using totalM_D [OF fixed.get_total [OF wf] assms(3)] by blast
  with fixed.get_refines [OF wf g] of show ?thesis by auto
qed

theorem map_get_after_insert_witness:
  "fst (map_get (fixed_ctx 8 (shallow_type 1))
      (case map_insert (fixed_ctx 8 (shallow_type 1)) [(1 :: int, True)] 2 False unlimited_budget of
         (Inr m', _) \<Rightarrow> m' | (Inl _, _) \<Rightarrow> []) 2 unlimited_budget) = Inr (Some False)"
proof -
  have wf: "map_wf (\<lambda>k. k) [(1 :: int, True)]" by (simp add: map_wf_def u32_MAX_def)
  obtain m' b' where ins: "map_insert (fixed_ctx 8 (shallow_type 1)) [(1 :: int, True)] 2 False
      unlimited_budget = (Inr m', b')"
    using totalM_D [OF fixed.insert_total [OF wf] unlimited_budget_unlimited]
    by (metis length_Cons list.size(3) one_less_numeral_iff semiring_norm(76) One_nat_def u32_MAX_pos)
  from map_get_after_insert [OF wf ins unlimited_budget_unlimited, of 2] show ?thesis
    by (simp add: ins)
qed

text \<open>C31: Removing a key from a well-formed map on an unlimited budget answers \<open>None\<close> exactly
  when the key is absent, and otherwise its value and the well-formed map without the key.\<close>

theorem map_remove_correct:
  fixes m :: "('k::linorder, 'v) ord_map"
  assumes "map_wf (\<lambda>k. k) m" and "unlimited b"
  shows "\<exists>r b'. map_remove (fixed_ctx sz (shallow_type vs)) m k b = (Inr r, b') \<and>
    (case r of None \<Rightarrow> map_of m k = None
     | Some (m', v) \<Rightarrow> map_of m k = Some v \<and> map_wf (\<lambda>k. k) m' \<and> map_of m' = (map_of m)(k := None))"
  using totalM_D [OF fixed.remove_total [OF assms(1)] assms(2)] fixed.remove_refines [OF assms(1)]
  by (metis (no_types, lifting))

theorem map_remove_correct_witness:
  "\<exists>r b'. map_remove (fixed_ctx 8 (shallow_type 1)) [(1 :: int, True)] 1 unlimited_budget = (Inr r, b')
    \<and> (\<exists>m'. r = Some (m', True) \<and> map_of m' = (map_of [(1, True)])(1 := None))"
proof -
  have wf: "map_wf (\<lambda>k. k) [(1 :: int, True)]" by (simp add: map_wf_def u32_MAX_def)
  from map_remove_correct [OF wf unlimited_budget_unlimited, where sz = 8 and vs = 1 and k = 1] show ?thesis
    by (auto split: option.splits)
qed

text \<open>C33: Building a map from a vector of entries on an unlimited budget accepts exactly the
  vectors with at most \<open>2^32 - 1\<close> entries and strictly increasing keys, and says which of the
  two conditions failed.\<close>

theorem map_from_map_outcome:
  fixes m :: "('k::linorder, 'v) ord_map"
  assumes "unlimited b"
  shows "fst (map_from_map (fixed_ctx sz (shallow_type vs)) m b) =
    (if length m > u32_MAX then Inl MAP_OOB
     else if keys_sorted (\<lambda>k. k) m then Inr m else Inl (Err Object InvalidInput))"
  using fixed.from_map_outcome [OF assms, of m sz vs] by simp

theorem map_from_map_outcome_witness:
  "fst (map_from_map (fixed_ctx 8 (shallow_type 1)) [(2 :: int, True), (1, False)] unlimited_budget)
    = Inl (Err Object InvalidInput)"
  using map_from_map_outcome [OF unlimited_budget_unlimited, of 8 1 "[(2 :: int, True), (1, False)]"]
  by (simp add: u32_MAX_def)

end
