(* ===== verification/Metered_Vector.thy ===== *)
theory Metered_Vector
  imports Metered_Map "HOL-Library.List_Lexorder"
begin

text \<open>
  Model of \<^verbatim>\<open>soroban-env-host/src/host/metered_vector.rs\<close>: the immutable vector behind host
  vector objects, at most \<open>2^32 - 1\<close> elements long.

  An operation takes the element type's metering data and works in the budget's monad. The
  lemmas are proved for every element type whose cloning fails on an exhausted budget only
  (locale \<open>metered_elements\<close>), which the host's \<open>Val\<close> provides. Mathematically the vector is
  the list: every sequence of operations gives exactly the lists of the functional
  specification \<open>vec_spec\<close>, with \<open>(Object, IndexBounds)\<close> where that is undefined.
\<close>

section \<open>Operations\<close>

definition VEC_OOB :: Error where "VEC_OOB = Err Object IndexBounds"

definition vec_charge_access :: "'a metered_type \<Rightarrow> nat \<Rightarrow> unit metered" where
  "vec_charge_access T count = charge MemCpy (Some (saturating_mul (declared_size T) (of_nat count)))"

definition vec_charge_scan :: "'a metered_type \<Rightarrow> 'a list \<Rightarrow> unit metered" where
  "vec_charge_scan T v = charge MemCpy (Some (saturating_mul (declared_size T) (of_nat (length v))))"

definition vec_charge_binsearch :: "'a metered_type \<Rightarrow> 'a list \<Rightarrow> unit metered" where
  "vec_charge_binsearch T v =
     (let mag = (of_nat (bit_length (length v)) :: u32)
      in charge MemCpy (Some (saturating_mul (declared_size T) (ucast (1 + mag)))))"

definition vec_from_vec :: "'a list \<Rightarrow> 'a list metered" where
  "vec_from_vec v = (if length v > u32_MAX then throwM VEC_OOB else retM v)"

definition vec_from_exact_iter :: "'a metered_type \<Rightarrow> 'a list \<Rightarrow> 'a list metered" where
  "vec_from_exact_iter T v =
     (if length v > u32_MAX then throwM VEC_OOB
      else thenM (charge_deep_clone (vec_type T) v) (vec_from_vec v))"

text \<open>
  The \<open>MeteredClone\<close> implementation of the vector overrides \<open>charge_for_substructure\<close> but not
  \<open>IS_SHALLOW\<close>, which keeps its default \<open>true\<close>.
\<close>

definition metered_vector_type :: "'a metered_type \<Rightarrow> 'a list metered_type" where
  "metered_vector_type T = \<lparr>declared_size = declared_size (vec_type T), is_shallow = True,
     charge_for_substructure = charge_for_substructure (vec_type T)\<rparr>"

definition vec_set :: "'a metered_type \<Rightarrow> 'a list \<Rightarrow> nat \<Rightarrow> 'a \<Rightarrow> 'a list metered" where
  "vec_set T v index val =
     bindM (metered_clone (metered_vector_type T) v) (\<lambda>new.
       thenM (vec_charge_access T 1)
         (if index < length new then retM (new[index := val]) else throwM VEC_OOB))"

definition vec_get :: "'a metered_type \<Rightarrow> 'a list \<Rightarrow> nat \<Rightarrow> 'a metered" where
  "vec_get T v index = thenM (vec_charge_access T 1)
     (if index < length v then retM (v ! index) else throwM VEC_OOB)"

definition vec_push_front :: "'a metered_type \<Rightarrow> 'a list \<Rightarrow> 'a \<Rightarrow> 'a list metered" where
  "vec_push_front T v val =
     (if length v = u32_MAX then throwM VEC_OOB else vec_from_exact_iter T ([val] @ v))"

definition vec_pop_front :: "'a metered_type \<Rightarrow> 'a list \<Rightarrow> 'a list metered" where
  "vec_pop_front T v = (if v = [] then throwM VEC_OOB else vec_from_exact_iter T (drop 1 v))"

definition vec_push_back :: "'a metered_type \<Rightarrow> 'a list \<Rightarrow> 'a \<Rightarrow> 'a list metered" where
  "vec_push_back T v val =
     (if length v = u32_MAX then throwM VEC_OOB else vec_from_exact_iter T (v @ [val]))"

definition usize_MAX :: nat where "usize_MAX = 2 ^ 64 - 1"

definition vec_add_or_err :: "nat \<Rightarrow> nat \<Rightarrow> nat metered" where
  "vec_add_or_err x y =
     (if x + y > usize_MAX then throwM VEC_OOB
      else if x + y > u32_MAX then throwM VEC_OOB else retM (x + y))"

definition vec_sub_or_err :: "nat \<Rightarrow> nat \<Rightarrow> nat metered" where
  "vec_sub_or_err x y = (if y \<le> x then retM (x - y) else throwM VEC_OOB)"

definition vec_pop_back :: "'a metered_type \<Rightarrow> 'a list \<Rightarrow> 'a list metered" where
  "vec_pop_back T v = (if v = [] then throwM VEC_OOB
     else bindM (vec_sub_or_err (length v) 1) (\<lambda>count. vec_from_exact_iter T (take count v)))"

definition vec_remove :: "'a metered_type \<Rightarrow> 'a list \<Rightarrow> nat \<Rightarrow> 'a list metered" where
  "vec_remove T v idx =
     (if idx \<ge> length v \<or> idx = usize_MAX - 1 then throwM VEC_OOB
      else bindM (vec_add_or_err idx 1) (\<lambda>skip.
             vec_from_exact_iter T (take idx v @ drop skip v)))"

definition vec_front :: "'a metered_type \<Rightarrow> 'a list \<Rightarrow> 'a metered" where
  "vec_front T v = thenM (vec_charge_access T 1)
     (case v of [] \<Rightarrow> throwM VEC_OOB | x # _ \<Rightarrow> retM x)"

definition vec_back :: "'a metered_type \<Rightarrow> 'a list \<Rightarrow> 'a metered" where
  "vec_back T v = thenM (vec_charge_access T 1)
     (if v = [] then throwM VEC_OOB else retM (last v))"

definition vec_insert :: "'a metered_type \<Rightarrow> 'a list \<Rightarrow> nat \<Rightarrow> 'a \<Rightarrow> 'a list metered" where
  "vec_insert T v index val =
     (if length v = u32_MAX then throwM VEC_OOB
      else if index > length v then throwM VEC_OOB
      else if index = length v then vec_push_back T v val
      else if index = 0 then vec_push_front T v val
      else vec_from_exact_iter T (take index v @ [val] @ drop index v))"

definition vec_append :: "'a metered_type \<Rightarrow> 'a list \<Rightarrow> 'a list \<Rightarrow> 'a list metered" where
  "vec_append T v other =
     thenM (vec_add_or_err (length v) (length other)) (vec_from_exact_iter T (v @ other))"

definition vec_slice :: "'a metered_type \<Rightarrow> 'a list \<Rightarrow> nat \<Rightarrow> nat \<Rightarrow> 'a list metered" where
  "vec_slice T v start end_ix =
     (if start \<le> end_ix \<and> end_ix \<le> length v
      then vec_from_exact_iter T (take (end_ix - start) (drop start v))
      else throwM VEC_OOB)"

fun position_from :: "('a \<Rightarrow> Ordering metered) \<Rightarrow> (nat \<times> 'a) list \<Rightarrow> nat option metered" where
  "position_from f [] = retM None"
| "position_from f ((i, x) # xs) =
     bindM (f x) (\<lambda>ord. if ord = Equal then retM (Some i) else position_from f xs)"

definition vec_first_index_of ::
  "'a metered_type \<Rightarrow> 'a list \<Rightarrow> ('a \<Rightarrow> Ordering metered) \<Rightarrow> nat option metered" where
  "vec_first_index_of T v f = thenM (vec_charge_scan T v) (position_from f (enumerate 0 v))"

definition vec_last_index_of ::
  "'a metered_type \<Rightarrow> 'a list \<Rightarrow> ('a \<Rightarrow> Ordering metered) \<Rightarrow> nat option metered" where
  "vec_last_index_of T v f = thenM (vec_charge_scan T v) (position_from f (rev (enumerate 0 v)))"

definition vec_binary_search_by ::
  "'a metered_type \<Rightarrow> 'a list \<Rightarrow> ('a \<Rightarrow> Ordering metered) \<Rightarrow> search_result metered" where
  "vec_binary_search_by T v f = thenM (vec_charge_binsearch T v) (binary_search_by f v 0 (length v))"

definition vec_to_vec :: "'a metered_type \<Rightarrow> 'a list \<Rightarrow> 'a list metered" where
  "vec_to_vec T v = metered_clone (vec_type T) v"

fun compare_elems :: "('a \<Rightarrow> 'a \<Rightarrow> Ordering metered) \<Rightarrow> 'a list \<Rightarrow> 'a list \<Rightarrow> Ordering metered" where
  "compare_elems c (x # xs) (y # ys) =
     bindM (c x y) (\<lambda>ord. case ord of Equal \<Rightarrow> compare_elems c xs ys | unequal \<Rightarrow> retM unequal)"
| "compare_elems c [] [] = retM Equal"
| "compare_elems c [] (y # ys) = retM Less"
| "compare_elems c (x # xs) [] = retM Greater"

definition vec_compare ::
  "'a metered_type \<Rightarrow> ('a \<Rightarrow> 'a \<Rightarrow> Ordering metered) \<Rightarrow> 'a list \<Rightarrow> 'a list \<Rightarrow> Ordering metered" where
  "vec_compare T c a b =
     thenM (charge MemCpy (Some (saturating_mul (declared_size T)
              (of_nat (min (length a) (length b))))))
       (compare_elems c a b)"

section \<open>The functional specification\<close>

datatype 'a vec_op =
    VSet nat 'a | VPushFront 'a | VPopFront | VPushBack 'a | VPopBack
  | VRemove nat | VInsert nat 'a | VAppend "'a list" | VSlice nat nat

fun vec_spec :: "'a vec_op \<Rightarrow> 'a list \<Rightarrow> 'a list option" where
  "vec_spec (VSet i x) v = (if i < length v then Some (v[i := x]) else None)"
| "vec_spec (VPushFront x) v = (if length v < u32_MAX then Some (x # v) else None)"
| "vec_spec VPopFront v = (case v of [] \<Rightarrow> None | _ # xs \<Rightarrow> Some xs)"
| "vec_spec (VPushBack x) v = (if length v < u32_MAX then Some (v @ [x]) else None)"
| "vec_spec VPopBack v = (if v = [] then None else Some (butlast v))"
| "vec_spec (VRemove i) v = (if i < length v then Some (take i v @ drop (Suc i) v) else None)"
| "vec_spec (VInsert i x) v =
     (if i \<le> length v \<and> length v < u32_MAX then Some (take i v @ x # drop i v) else None)"
| "vec_spec (VAppend w) v = (if length v + length w \<le> u32_MAX then Some (v @ w) else None)"
| "vec_spec (VSlice i j) v =
     (if i \<le> j \<and> j \<le> length v then Some (take (j - i) (drop i v)) else None)"

fun vec_spec_run :: "'a vec_op list \<Rightarrow> 'a list \<Rightarrow> 'a list option" where
  "vec_spec_run [] v = Some v"
| "vec_spec_run (c # cs) v = Option.bind (vec_spec c v) (vec_spec_run cs)"

text \<open>The same script on the implementation.\<close>

fun vec_apply :: "'a metered_type \<Rightarrow> 'a vec_op \<Rightarrow> 'a list \<Rightarrow> 'a list metered" where
  "vec_apply T (VSet i x) v = vec_set T v i x"
| "vec_apply T (VPushFront x) v = vec_push_front T v x"
| "vec_apply T VPopFront v = vec_pop_front T v"
| "vec_apply T (VPushBack x) v = vec_push_back T v x"
| "vec_apply T VPopBack v = vec_pop_back T v"
| "vec_apply T (VRemove i) v = vec_remove T v i"
| "vec_apply T (VInsert i x) v = vec_insert T v i x"
| "vec_apply T (VAppend w) v = vec_append T v w"
| "vec_apply T (VSlice i j) v = vec_slice T v i j"

fun vec_run :: "'a metered_type \<Rightarrow> 'a vec_op list \<Rightarrow> 'a list \<Rightarrow> 'a list metered" where
  "vec_run T [] v = retM v"
| "vec_run T (c # cs) v = bindM (vec_apply T c v) (vec_run T cs)"

definition oob_of :: "'a option \<Rightarrow> Error + 'a" where
  "oob_of r = (case r of Some x \<Rightarrow> Inr x | None \<Rightarrow> Inl VEC_OOB)"

lemma oob_of_simps [simp]: "oob_of (Some x) = Inr x" "oob_of None = Inl VEC_OOB"
  by (simp_all add: oob_of_def)

text \<open>
  \<open>outcomeM m r\<close>: on an unlimited budget \<open>m\<close> answers \<open>r\<close> and leaves the budget unlimited.
\<close>

definition outcomeM :: "'a metered \<Rightarrow> Error + 'a \<Rightarrow> bool" where
  "outcomeM m r \<longleftrightarrow> (\<forall>b. unlimited b \<longrightarrow> (\<exists>b'. m b = (r, b') \<and> unlimited b'))"

lemma outcomeM_ret [intro!, simp]: "outcomeM (retM x) (Inr x)"
  by (simp add: outcomeM_def retM_def)

lemma outcomeM_throw [intro!, simp]: "outcomeM (throwM e) (Inl e)"
  by (simp add: outcomeM_def throwM_def)

lemma outcomeM_then: "totalM m \<Longrightarrow> outcomeM n r \<Longrightarrow> outcomeM (thenM m n) r"
  unfolding outcomeM_def totalM_def bindM_def by (fastforce split: prod.splits sum.splits)

lemma outcomeM_bind: "outcomeM m (Inr x) \<Longrightarrow> outcomeM (f x) r \<Longrightarrow> outcomeM (bindM m f) r"
  unfolding outcomeM_def bindM_def by fastforce

lemma outcomeM_bind_err: "outcomeM m (Inl e) \<Longrightarrow> outcomeM (bindM m f) (Inl e)"
  unfolding outcomeM_def bindM_def by fastforce

lemma outcomeM_fst: "outcomeM m r \<Longrightarrow> unlimited b \<Longrightarrow> fst (m b) = r"
  unfolding outcomeM_def by force

section \<open>The vector over well-behaved elements\<close>

locale metered_elements =
  fixes T :: "'a metered_type"
  assumes element_total: "total_type T"
begin

lemma charges_total [simp]:
  "totalM (vec_charge_access T n)" "totalM (vec_charge_scan T v)" "totalM (vec_charge_binsearch T v)"
  by (simp_all add: vec_charge_access_def vec_charge_scan_def vec_charge_binsearch_def Let_def)

lemma from_exact_iter_outcome:
  "length v \<le> u32_MAX \<Longrightarrow> outcomeM (vec_from_exact_iter T v) (Inr v)"
  by (auto simp: vec_from_exact_iter_def vec_from_vec_def
      intro!: outcomeM_then total_deep_clone_vec element_total)

lemma clone_outcome: "outcomeM (metered_clone (metered_vector_type T) v) (Inr v)"
  using total_vec [OF element_total]
  by (auto simp: metered_clone_def metered_vector_type_def total_type_def intro!: outcomeM_then)

lemma apply_outcome:
  assumes "length v \<le> u32_MAX"
  shows "outcomeM (vec_apply T c v) (oob_of (vec_spec c v))"
proof (cases c)
  case (VSet i x)
  then show ?thesis
    by (auto simp: vec_set_def intro!: outcomeM_bind [OF clone_outcome] outcomeM_then)
next
  case VPopBack
  with assms show ?thesis
    by (auto simp: vec_pop_back_def vec_sub_or_err_def butlast_conv_take Suc_le_eq
        intro!: from_exact_iter_outcome)
next
  case (VRemove i)
  with assms show ?thesis
    by (auto simp: vec_remove_def vec_add_or_err_def usize_MAX_def u32_MAX_def
        intro!: from_exact_iter_outcome)
next
  case (VInsert i x)
  with assms show ?thesis
    by (auto simp: vec_insert_def vec_push_back_def vec_push_front_def intro!: from_exact_iter_outcome)
next
  case (VAppend w)
  then show ?thesis
    by (auto simp: vec_append_def vec_add_or_err_def usize_MAX_def u32_MAX_def
        intro!: from_exact_iter_outcome)
next
  case VPopFront
  with assms show ?thesis
    by (cases v) (auto simp: vec_pop_front_def intro!: from_exact_iter_outcome)
next
  case (VSlice i j)
  with assms show ?thesis by (auto simp: vec_slice_def intro!: from_exact_iter_outcome)
qed (use assms in \<open>auto simp: vec_push_front_def vec_push_back_def intro!: from_exact_iter_outcome\<close>)

lemma spec_bounded: "length v \<le> u32_MAX \<Longrightarrow> vec_spec c v = Some v' \<Longrightarrow> length v' \<le> u32_MAX"
  by (cases c) (auto split: if_splits list.splits)

lemma run_outcome:
  "length v \<le> u32_MAX \<Longrightarrow> outcomeM (vec_run T cs v) (oob_of (vec_spec_run cs v))"
proof (induction cs arbitrary: v)
  case (Cons c cs)
  note ap = apply_outcome [OF Cons.prems, of c]
  show ?case
  proof (cases "vec_spec c v")
    case None
    with ap show ?thesis by (auto intro: outcomeM_bind_err)
  next
    case (Some v')
    with ap Cons.IH [OF spec_bounded [OF Cons.prems Some]] show ?thesis
      by (auto intro: outcomeM_bind)
  qed
qed auto

end

text \<open>The host's vectors hold \<open>Val\<close>s, a shallow type of 8 bytes.\<close>

interpretation val_vec: metered_elements "shallow_type 8"
  by unfold_locales simp

lemma compare_fixed_outcome: "outcomeM (compare_fixed sz x y) (Inr (cmp_of x y))"
  by (auto simp: compare_fixed_def intro!: outcomeM_then)

lemma position_from_outcome:
  "outcomeM (position_from (compare_fixed sz x) xs)
     (Inr (map_option fst (List.find (\<lambda>(i, y). x = y) xs)))"
proof (induction xs)
  case (Cons p xs)
  obtain i y where p: "p = (i, y)" by (cases p)
  show ?case
    using Cons by (auto simp: p intro!: outcomeM_bind [OF compare_fixed_outcome])
qed simp

lemma find_enumerate_first:
  "map_option fst (List.find (\<lambda>(i, y). x = y) (enumerate n v)) = r \<Longrightarrow>
   (case r of Some i \<Rightarrow> n \<le> i \<and> i < n + length v \<and> v ! (i - n) = x \<and> (\<forall>j < i - n. v ! j \<noteq> x)
    | None \<Rightarrow> x \<notin> set v)"
proof (induction v arbitrary: n r)
  case (Cons y v)
  show ?case
  proof (cases "x = y")
    case False
    let ?r = "map_option fst (List.find (\<lambda>(i, y). x = y) (enumerate (Suc n) v))"
    have r: "r = ?r" using Cons.prems False by auto
    from Cons.IH [of "Suc n" ?r] False show ?thesis unfolding r
      by (auto split: option.splits simp: nth_Cons' Suc_le_eq)
  qed (use Cons.prems in auto)
qed auto

lemma find_enumerate_last:
  "map_option fst (List.find (\<lambda>(i, y). x = y) (rev (enumerate 0 v))) = r \<Longrightarrow>
   (case r of Some i \<Rightarrow> i < length v \<and> v ! i = x \<and> (\<forall>j. i < j \<longrightarrow> j < length v \<longrightarrow> v ! j \<noteq> x)
    | None \<Rightarrow> x \<notin> set v)"
proof (induction v arbitrary: r rule: rev_induct)
  case (snoc y v)
  show ?case
  proof (cases "x = y")
    case False
    let ?r = "map_option fst (List.find (\<lambda>(i, y). x = y) (rev (enumerate 0 v)))"
    have r: "r = ?r" using snoc.prems False by (auto simp: enumerate_append_eq)
    from snoc.IH [of ?r] False show ?thesis unfolding r
      by (auto split: option.splits simp: nth_append less_Suc_eq)
  qed (use snoc.prems in \<open>auto simp: enumerate_append_eq\<close>)
qed auto

lemma compare_elems_outcome:
  "outcomeM (compare_elems (compare_fixed sz) xs ys) (Inr (cmp_of xs ys))"
  for xs ys :: "'a::linorder list"
proof (induction "compare_fixed sz :: 'a \<Rightarrow> _" xs ys rule: compare_elems.induct)
  case (1 x xs y ys)
  show ?case
    by (cases x y rule: linorder_cases)
      (use 1 in \<open>auto simp: cmp_of_def intro!: outcomeM_bind [OF compare_fixed_outcome]\<close>)
qed (simp_all add: cmp_of_def)

section \<open>Properties\<close>

text \<open>C34: Every script of vector operations, on an unlimited budget and from a vector of at most
  \<open>2^32 - 1\<close> elements, gives exactly the list of the functional specification, and
  \<open>(Object, IndexBounds)\<close> exactly where the specification is undefined.\<close>

theorem vec_script_refines_lists:
  assumes "length v \<le> u32_MAX" and "unlimited b"
  shows "fst (vec_run (shallow_type 8) cs v b) = oob_of (vec_spec_run cs v)"
  by (rule outcomeM_fst [OF val_vec.run_outcome [OF assms(1)] assms(2)])

theorem vec_script_refines_lists_witness:
  "fst (vec_run (shallow_type 8) [VPushBack 7, VInsert 1 (5 :: int), VRemove 0, VSlice 1 3] [1, 2]
     unlimited_budget) = Inr [2, 7]
   \<and> fst (vec_run (shallow_type 8) [VPopBack, VSet 1 (5 :: int)] [1, 2] unlimited_budget) = Inl VEC_OOB"
  using vec_script_refines_lists [OF _ unlimited_budget_unlimited, of "[1, 2 :: int]"
      "[VPushBack 7, VInsert 1 5, VRemove 0, VSlice 1 3]"]
    vec_script_refines_lists [OF _ unlimited_budget_unlimited, of "[1, 2 :: int]" "[VPopBack, VSet 1 5]"]
  by (simp add: u32_MAX_def)

text \<open>C36: Searching an element by scanning finds its first (last) position, and \<open>None\<close> exactly
  when the vector does not have it.\<close>

theorem vec_index_of_correct:
  assumes "unlimited b"
  shows "\<exists>first last.
     fst (vec_first_index_of (shallow_type 8) v (compare_fixed sz x) b) = Inr first
   \<and> fst (vec_last_index_of (shallow_type 8) v (compare_fixed sz x) b) = Inr last
   \<and> (case first of Some i \<Rightarrow> i < length v \<and> v ! i = x \<and> (\<forall>j < i. v ! j \<noteq> x) | None \<Rightarrow> x \<notin> set v)
   \<and> (case last of Some i \<Rightarrow> i < length v \<and> v ! i = x \<and> (\<forall>j. i < j \<longrightarrow> j < length v \<longrightarrow> v ! j \<noteq> x)
      | None \<Rightarrow> x \<notin> set v)"
proof -
  let ?f = "map_option fst (List.find (\<lambda>(i, y). x = y) (enumerate 0 v))"
  let ?l = "map_option fst (List.find (\<lambda>(i, y). x = y) (rev (enumerate 0 v)))"
  have "outcomeM (vec_first_index_of (shallow_type 8) v (compare_fixed sz x)) (Inr ?f)"
    "outcomeM (vec_last_index_of (shallow_type 8) v (compare_fixed sz x)) (Inr ?l)"
    unfolding vec_first_index_of_def vec_last_index_of_def
    by (intro outcomeM_then val_vec.charges_total position_from_outcome)+
  then have "fst (vec_first_index_of (shallow_type 8) v (compare_fixed sz x) b) = Inr ?f"
    "fst (vec_last_index_of (shallow_type 8) v (compare_fixed sz x) b) = Inr ?l"
    using assms by (blast dest: outcomeM_fst)+
  moreover note find_enumerate_first [of x 0 v, OF refl, simplified] find_enumerate_last [of x v, OF refl]
  ultimately show ?thesis by (intro exI conjI) (assumption | force split: option.splits)+
qed

theorem vec_index_of_correct_witness:
  "\<exists>first. fst (vec_first_index_of (shallow_type 8) [4, 9, 9 :: int] (compare_fixed 8 9)
      unlimited_budget) = Inr first \<and> first \<noteq> None"
  using vec_index_of_correct [OF unlimited_budget_unlimited, of "[4, 9, 9 :: int]" 8 9]
  by (auto split: option.splits)

text \<open>C37: Comparing two vectors of ordered elements answers the lexicographic order.\<close>

theorem vec_compare_lexicographic:
  assumes "unlimited b"
  shows "fst (vec_compare (shallow_type 8) (compare_fixed sz) u v b) = Inr (cmp_of u v)"
proof -
  have "outcomeM (vec_compare (shallow_type 8) (compare_fixed sz) u v) (Inr (cmp_of u v))"
    unfolding vec_compare_def by (intro outcomeM_then compare_elems_outcome) simp
  then show ?thesis using assms by (rule outcomeM_fst)
qed

theorem vec_compare_lexicographic_witness:
  "fst (vec_compare (shallow_type 8) (compare_fixed 8) [1, 2 :: int] [1, 3] unlimited_budget) = Inr Less"
  using vec_compare_lexicographic [OF unlimited_budget_unlimited, of 8 "[1, 2 :: int]" "[1, 3]"]
  by (simp add: cmp_of_def)

text \<open>
  Cloning several vectors in bulk charges nothing for their elements, since the vector's
  implementation leaves \<open>IS_SHALLOW\<close> at its default.
\<close>

lemma nested_vectors_bulk_clone_is_free:
  "bulk_charge_for_substructure (metered_vector_type T) vs = retM ()"
  by (simp add: bulk_charge_for_substructure_def metered_vector_type_def)

end
