(* ===== verification/Val_Repr.thy ===== *)
theory Val_Repr
  imports Prelude
begin

unbundle bit_operations_syntax

text \<open>
  Model of the tagged 64-bit value of \<^verbatim>\<open>soroban-env-common/src/val.rs\<close>, of the small-number
  forms of \<^verbatim>\<open>num.rs\<close>, of object handles (\<^verbatim>\<open>object.rs\<close>) and of error values (\<^verbatim>\<open>error.rs\<close>).

  A \<open>Val\<close> is a \<open>u64\<close>: the low 8 bits are the tag, the high 56 the body, sometimes split into a
  32-bit major and a 24-bit minor part. Signed machine integers are words read through
  \<open>sint\<close>; casts between widths are \<open>ucast\<close> and \<open>scast\<close>. The numbering of the XDR error enumerations is
  external and a parameter (locale \<open>error_numbering\<close>).

  The theorems: packing and unpacking are inverse, the small forms hold exactly the numbers
  of their 56-bit range and give them back, conversions of 256-bit numbers to words and back
  are inverse, error values round trip, and everything the constructors build is \<open>is_good\<close>.
\<close>

section \<open>Tags\<close>

type_synonym Val = u64

datatype Tag =
    TagFalse | TagTrue | TagVoid | TagError | TagU32Val
  | TagI32Val | TagU64Small | TagI64Small | TagTimepointSmall | TagDurationSmall
  | TagU128Small | TagI128Small | TagU256Small | TagI256Small | TagSymbolSmall
  | TagSmallCodeUpperBound | TagObjectCodeLowerBound | TagU64Object | TagI64Object | TagTimepointObject
  | TagDurationObject | TagU128Object | TagI128Object | TagU256Object | TagI256Object
  | TagBytesObject | TagStringObject | TagSymbolObject | TagVecObject | TagMapObject
  | TagAddressObject | TagObjectCodeUpperBound | TagBad

datatype ScValType =
  STBool | STVoid | STError | STU32 | STI32 | STU64 | STI64 | STTimepoint | STDuration |
  STU128 | STI128 | STU256 | STI256 | STBytes | STString | STSymbol | STVec | STMap | STAddress |
  STContractInstance | STLedgerKeyContractInstance | STLedgerKeyNonce

fun tag_code :: "Tag \<Rightarrow> u8" where
  "tag_code TagFalse = 0"
| "tag_code TagTrue = 1"
| "tag_code TagVoid = 2"
| "tag_code TagError = 3"
| "tag_code TagU32Val = 4"
| "tag_code TagI32Val = 5"
| "tag_code TagU64Small = 6"
| "tag_code TagI64Small = 7"
| "tag_code TagTimepointSmall = 8"
| "tag_code TagDurationSmall = 9"
| "tag_code TagU128Small = 10"
| "tag_code TagI128Small = 11"
| "tag_code TagU256Small = 12"
| "tag_code TagI256Small = 13"
| "tag_code TagSymbolSmall = 14"
| "tag_code TagSmallCodeUpperBound = 15"
| "tag_code TagObjectCodeLowerBound = 63"
| "tag_code TagU64Object = 64"
| "tag_code TagI64Object = 65"
| "tag_code TagTimepointObject = 66"
| "tag_code TagDurationObject = 67"
| "tag_code TagU128Object = 68"
| "tag_code TagI128Object = 69"
| "tag_code TagU256Object = 70"
| "tag_code TagI256Object = 71"
| "tag_code TagBytesObject = 72"
| "tag_code TagStringObject = 73"
| "tag_code TagSymbolObject = 74"
| "tag_code TagVecObject = 75"
| "tag_code TagMapObject = 76"
| "tag_code TagAddressObject = 77"
| "tag_code TagObjectCodeUpperBound = 78"
| "tag_code TagBad = 127"

definition all_tags :: "Tag list" where
  "all_tags = [TagFalse, TagTrue, TagVoid, TagError, TagU32Val,
     TagI32Val, TagU64Small, TagI64Small, TagTimepointSmall, TagDurationSmall,
     TagU128Small, TagI128Small, TagU256Small, TagI256Small, TagSymbolSmall,
     TagSmallCodeUpperBound, TagObjectCodeLowerBound, TagU64Object, TagI64Object, TagTimepointObject,
     TagDurationObject, TagU128Object, TagI128Object, TagU256Object, TagI256Object,
     TagBytesObject, TagStringObject, TagSymbolObject, TagVecObject, TagMapObject,
     TagAddressObject, TagObjectCodeUpperBound, TagBad]"

fun get_scval_type :: "Tag \<Rightarrow> ScValType option" where
  "get_scval_type TagFalse = Some STBool"
| "get_scval_type TagTrue = Some STBool"
| "get_scval_type TagVoid = Some STVoid"
| "get_scval_type TagError = Some STError"
| "get_scval_type TagU32Val = Some STU32"
| "get_scval_type TagI32Val = Some STI32"
| "get_scval_type TagU64Small = Some STU64"
| "get_scval_type TagI64Small = Some STI64"
| "get_scval_type TagTimepointSmall = Some STTimepoint"
| "get_scval_type TagDurationSmall = Some STDuration"
| "get_scval_type TagU128Small = Some STU128"
| "get_scval_type TagI128Small = Some STI128"
| "get_scval_type TagU256Small = Some STU256"
| "get_scval_type TagI256Small = Some STI256"
| "get_scval_type TagSymbolSmall = Some STSymbol"
| "get_scval_type TagSmallCodeUpperBound = None"
| "get_scval_type TagObjectCodeLowerBound = None"
| "get_scval_type TagU64Object = Some STU64"
| "get_scval_type TagI64Object = Some STI64"
| "get_scval_type TagTimepointObject = Some STTimepoint"
| "get_scval_type TagDurationObject = Some STDuration"
| "get_scval_type TagU128Object = Some STU128"
| "get_scval_type TagI128Object = Some STI128"
| "get_scval_type TagU256Object = Some STU256"
| "get_scval_type TagI256Object = Some STI256"
| "get_scval_type TagBytesObject = Some STBytes"
| "get_scval_type TagStringObject = Some STString"
| "get_scval_type TagSymbolObject = Some STSymbol"
| "get_scval_type TagVecObject = Some STVec"
| "get_scval_type TagMapObject = Some STMap"
| "get_scval_type TagAddressObject = Some STAddress"
| "get_scval_type TagObjectCodeUpperBound = None"
| "get_scval_type TagBad = None"

definition u8_is_object :: "u8 \<Rightarrow> bool" where
  "u8_is_object x \<longleftrightarrow> x > tag_code TagObjectCodeLowerBound \<and> x < tag_code TagObjectCodeUpperBound"

definition tag_is_object :: "Tag \<Rightarrow> bool" where
  "tag_is_object t = u8_is_object (tag_code t)"

text \<open>
  \<open>Tag::from_u8\<close>: the transmutation of a byte that passed the range check is the enumeration
  value with that discriminant.
\<close>

definition transmute_tag :: "u8 \<Rightarrow> Tag" where
  "transmute_tag x = (case List.find (\<lambda>t. tag_code t = x) all_tags of Some t \<Rightarrow> t | None \<Rightarrow> TagBad)"

definition tag_from_u8 :: "u8 \<Rightarrow> Tag" where
  "tag_from_u8 tag =
     (let A = tag_code TagSmallCodeUpperBound; B = tag_code TagObjectCodeLowerBound;
          C = tag_code TagObjectCodeUpperBound
      in if \<not> (tag < A \<or> B < tag \<and> tag < C) then TagBad else transmute_tag tag)"

section \<open>Packing and unpacking\<close>

definition TAG_BITS :: nat where "TAG_BITS = 8"
definition MINOR_BITS :: nat where "MINOR_BITS = 24"
definition TAG_MASK :: u64 where "TAG_MASK = push_bit TAG_BITS 1 - 1"
definition MINOR_MASK :: u64 where "MINOR_MASK = push_bit MINOR_BITS 1 - 1"

definition get_tag_u8 :: "Val \<Rightarrow> u8" where
  "get_tag_u8 v = ucast (v AND TAG_MASK)"

definition get_tag :: "Val \<Rightarrow> Tag" where
  "get_tag v = tag_from_u8 (get_tag_u8 v)"

definition get_body :: "Val \<Rightarrow> u64" where
  "get_body v = drop_bit TAG_BITS v"

definition has_body :: "Val \<Rightarrow> u64 \<Rightarrow> bool" where
  "has_body v body \<longleftrightarrow> get_body v = body"

definition get_signed_body :: "Val \<Rightarrow> u64" where
  "get_signed_body v = signed_drop_bit TAG_BITS v"

definition has_tag :: "Val \<Rightarrow> Tag \<Rightarrow> bool" where
  "has_tag v t \<longleftrightarrow> get_tag_u8 v = tag_code t"

definition from_body_and_tag :: "u64 \<Rightarrow> Tag \<Rightarrow> Val" where
  "from_body_and_tag body t = push_bit TAG_BITS body OR ucast (tag_code t)"

definition from_major_minor_and_tag :: "u32 \<Rightarrow> u32 \<Rightarrow> Tag \<Rightarrow> Val" where
  "from_major_minor_and_tag major minor t =
     from_body_and_tag (push_bit MINOR_BITS (ucast major) OR ucast minor) t"

definition get_minor :: "Val \<Rightarrow> u32" where
  "get_minor v = ucast (get_body v AND MINOR_MASK)"

definition get_major :: "Val \<Rightarrow> u32" where
  "get_major v = ucast (drop_bit MINOR_BITS (get_body v))"

definition has_minor :: "Val \<Rightarrow> u32 \<Rightarrow> bool" where
  "has_minor v minor \<longleftrightarrow> get_minor v = minor"

definition has_major :: "Val \<Rightarrow> u32 \<Rightarrow> bool" where
  "has_major v major \<longleftrightarrow> get_major v = major"

definition val_is_object :: "Val \<Rightarrow> bool" where
  "val_is_object v = u8_is_object (get_tag_u8 v)"

definition from_void :: Val where
  "from_void = from_body_and_tag 0 TagVoid"

definition from_bool :: "bool \<Rightarrow> Val" where
  "from_bool b = from_body_and_tag 0 (if b then TagTrue else TagFalse)"

definition bool_try_convert :: "Val \<Rightarrow> bool option" where
  "bool_try_convert v = (if has_tag v TagTrue then Some True
     else if has_tag v TagFalse then Some False else None)"

definition from_u32 :: "u32 \<Rightarrow> Val" where
  "from_u32 u = from_major_minor_and_tag u 0 TagU32Val"

definition from_i32 :: "u32 \<Rightarrow> Val" where
  "from_i32 i = from_major_minor_and_tag i 0 TagI32Val"

definition u32_try_convert :: "Val \<Rightarrow> u32 option" where
  "u32_try_convert v = (if has_tag v TagU32Val then Some (get_major v) else None)"

definition i32_try_convert :: "Val \<Rightarrow> u32 option" where
  "i32_try_convert v = (if has_tag v TagI32Val then Some (get_major v) else None)"

definition object_get_handle :: "Val \<Rightarrow> u32" where
  "object_get_handle v = get_major v"

definition from_handle_and_tag :: "u32 \<Rightarrow> Tag \<Rightarrow> Val" where
  "from_handle_and_tag handle t = from_major_minor_and_tag handle 0 t"

section \<open>Small numbers (num.rs)\<close>

definition is_small_u64 :: "u64 \<Rightarrow> bool" where
  "is_small_u64 u \<longleftrightarrow> u = drop_bit TAG_BITS (push_bit TAG_BITS u)"

definition is_small_i64 :: "u64 \<Rightarrow> bool" where
  "is_small_i64 i \<longleftrightarrow> i = signed_drop_bit TAG_BITS (push_bit TAG_BITS i)"

definition is_small_u128 :: "u128 \<Rightarrow> bool" where
  "is_small_u128 u = (let word = (ucast u :: u64) in is_small_u64 word \<and> u = ucast word)"

definition is_small_i128 :: "u128 \<Rightarrow> bool" where
  "is_small_i128 i = (let word = (ucast i :: u64) in is_small_i64 word \<and> i = scast word)"

definition is_small_u256 :: "u256 \<Rightarrow> bool" where
  "is_small_u256 u = (let word = (ucast u :: u64) in is_small_u64 word \<and> u = ucast word)"

definition is_small_i256 :: "u256 \<Rightarrow> bool" where
  "is_small_i256 i = (let word = (ucast i :: u64) in is_small_i64 word \<and> i = scast word)"

definition U64Small_try_from :: "u64 \<Rightarrow> Val option" where
  "U64Small_try_from x = (if is_small_u64 x then Some (from_body_and_tag x TagU64Small) else None)"

definition I64Small_try_from :: "u64 \<Rightarrow> Val option" where
  "I64Small_try_from x = (if is_small_i64 x then Some (from_body_and_tag x TagI64Small) else None)"

definition TimepointSmall_try_from :: "u64 \<Rightarrow> Val option" where
  "TimepointSmall_try_from x =
     (if is_small_u64 x then Some (from_body_and_tag x TagTimepointSmall) else None)"

definition DurationSmall_try_from :: "u64 \<Rightarrow> Val option" where
  "DurationSmall_try_from x =
     (if is_small_u64 x then Some (from_body_and_tag x TagDurationSmall) else None)"

definition U128Small_try_from :: "u128 \<Rightarrow> Val option" where
  "U128Small_try_from x =
     (if is_small_u128 x then Some (from_body_and_tag (ucast x) TagU128Small) else None)"

definition I128Small_try_from :: "u128 \<Rightarrow> Val option" where
  "I128Small_try_from x =
     (if is_small_i128 x then Some (from_body_and_tag (ucast x) TagI128Small) else None)"

definition U256Small_try_from :: "u256 \<Rightarrow> Val option" where
  "U256Small_try_from x =
     (if is_small_u256 x then Some (from_body_and_tag (ucast x) TagU256Small) else None)"

definition I256Small_try_from :: "u256 \<Rightarrow> Val option" where
  "I256Small_try_from x =
     (if is_small_i256 x then Some (from_body_and_tag (ucast x) TagI256Small) else None)"

text \<open>The way back: the body, sign-extended for the signed forms.\<close>

definition u64_from_small :: "Val \<Rightarrow> u64" where "u64_from_small v = get_body v"
definition i64_from_small :: "Val \<Rightarrow> u64" where "i64_from_small v = get_signed_body v"
definition u128_from_small :: "Val \<Rightarrow> u128" where "u128_from_small v = ucast (get_body v)"
definition i128_from_small :: "Val \<Rightarrow> u128" where "i128_from_small v = scast (get_signed_body v)"
definition u256_from_small :: "Val \<Rightarrow> u256" where "u256_from_small v = ucast (get_body v)"
definition i256_from_small :: "Val \<Rightarrow> u256" where "i256_from_small v = scast (get_signed_body v)"

definition u256_from_pieces :: "u64 \<Rightarrow> u64 \<Rightarrow> u64 \<Rightarrow> u64 \<Rightarrow> u256" where
  "u256_from_pieces hi_hi hi_lo lo_hi lo_lo =
     (let high = (push_bit 64 (ucast hi_hi) OR ucast hi_lo :: u128);
          low = (push_bit 64 (ucast lo_hi) OR ucast lo_lo :: u128)
      in push_bit 128 (ucast high) OR ucast low)"

definition u256_into_pieces :: "u256 \<Rightarrow> u64 \<times> u64 \<times> u64 \<times> u64" where
  "u256_into_pieces u =
     (let high = (ucast (drop_bit 128 u) :: u128); low = (ucast u :: u128)
      in (ucast (drop_bit 64 high), ucast high, ucast (drop_bit 64 low), ucast low))"

definition is_small_u256_parts :: "u64 \<Rightarrow> u64 \<Rightarrow> u64 \<Rightarrow> u64 \<Rightarrow> bool" where
  "is_small_u256_parts hi_hi hi_lo lo_hi lo_lo \<longleftrightarrow>
     hi_hi = 0 \<and> hi_lo = 0 \<and> lo_hi = 0 \<and> is_small_u64 lo_lo"

section \<open>Error values (error.rs)\<close>

text \<open>
  The type \<^typ>\<open>Error\<close> of the prelude has the cases of the XDR union \<open>ScError\<close>. The
  discriminants of \<open>ScErrorType\<close> (\<open>None\<close> is the case \<open>Contract\<close>) and \<open>ScErrorCode\<close> and their
  \<open>TryFrom<i32>\<close> are generated code outside the repository.
\<close>

record ErrorNumbering =
  type_num :: "ScErrorType option \<Rightarrow> u32"
  code_num :: "ScErrorCode \<Rightarrow> u32"
  type_of_num :: "u32 \<Rightarrow> ScErrorType option option"
  code_of_num :: "u32 \<Rightarrow> ScErrorCode option"

definition from_contract_error :: "ErrorNumbering \<Rightarrow> u32 \<Rightarrow> Val" where
  "from_contract_error N code = from_major_minor_and_tag code (type_num N None) TagError"

definition from_type_and_code :: "ErrorNumbering \<Rightarrow> ScErrorType \<Rightarrow> ScErrorCode \<Rightarrow> Val" where
  "from_type_and_code N t code =
     from_major_minor_and_tag (code_num N code) (type_num N (Some t)) TagError"

fun from_scerror :: "ErrorNumbering \<Rightarrow> Error \<Rightarrow> Val" where
  "from_scerror N (ContractErr u) = from_contract_error N u"
| "from_scerror N (Err t code) = from_type_and_code N t code"

definition error_is_type :: "ErrorNumbering \<Rightarrow> Val \<Rightarrow> ScErrorType option \<Rightarrow> bool" where
  "error_is_type N v t = has_minor v (type_num N t)"

definition error_is_code :: "ErrorNumbering \<Rightarrow> Val \<Rightarrow> ScErrorCode \<Rightarrow> bool" where
  "error_is_code N v c = has_major v (code_num N c)"

definition scerror_try_from :: "ErrorNumbering \<Rightarrow> Val \<Rightarrow> Error option" where
  "scerror_try_from N er =
     (case type_of_num N (get_minor er) of
        None \<Rightarrow> None
      | Some type_ \<Rightarrow>
          (let u = get_major er in
           case type_ of
             None \<Rightarrow> Some (ContractErr u)
           | Some t \<Rightarrow> (case code_of_num N u of None \<Rightarrow> None | Some c \<Rightarrow> Some (Err t c))))"

definition error_cmp :: "Val \<Rightarrow> Val \<Rightarrow> Ordering" where
  "error_cmp a b =
     (case cmp_of (get_minor a) (get_minor b) of
        Equal \<Rightarrow> cmp_of (get_major a) (get_major b)
      | other \<Rightarrow> other)"

section \<open>Laws of packing\<close>

lemmas val_consts = TAG_BITS_def MINOR_BITS_def TAG_MASK_def MINOR_MASK_def

lemma TAG_MASK_mask: "TAG_MASK = mask 8" and MINOR_MASK_mask: "MINOR_MASK = mask 24"
  by (simp_all add: val_consts mask_eq_exp_minus_1 push_bit_eq_mult)

lemma get_tag_u8_from_body [simp]: "get_tag_u8 (from_body_and_tag b t) = tag_code t"
  unfolding get_tag_u8_def from_body_and_tag_def TAG_MASK_mask TAG_BITS_def
  by (rule bit_word_eqI) (auto simp: bit_simps)

lemma get_body_from_body: "get_body (from_body_and_tag b t) = b AND mask 56"
  unfolding get_body_def from_body_and_tag_def TAG_BITS_def
  by (rule bit_word_eqI) (auto simp: bit_simps dest: bit_imp_le_length)

lemma from_body_get_body: "get_tag_u8 v = tag_code t \<Longrightarrow> from_body_and_tag (get_body v) t = v"
  unfolding get_body_def from_body_and_tag_def TAG_BITS_def get_tag_u8_def TAG_MASK_mask
  by (rule bit_word_eqI, drule sym, rename_tac n, case_tac "n < 8") (auto simp: bit_simps)

lemma get_major_from_parts [simp]: "get_major (from_major_minor_and_tag M m t) = M OR drop_bit 24 m"
  unfolding get_major_def from_major_minor_and_tag_def get_body_from_body MINOR_BITS_def
  by (rule bit_word_eqI) (auto simp: bit_simps dest: bit_imp_le_length)

lemma get_minor_from_parts [simp]: "get_minor (from_major_minor_and_tag M m t) = m AND mask 24"
  unfolding get_minor_def from_major_minor_and_tag_def get_body_from_body MINOR_BITS_def
    MINOR_MASK_mask
  by (rule bit_word_eqI) (auto simp: bit_simps)

lemma get_tag_u8_from_parts [simp]: "get_tag_u8 (from_major_minor_and_tag M m t) = tag_code t"
  by (simp add: from_major_minor_and_tag_def)

lemma body_of_major_minor: "get_body v = push_bit 24 (ucast (get_major v)) OR ucast (get_minor v)"
  unfolding get_major_def get_minor_def MINOR_MASK_mask MINOR_BITS_def get_body_def TAG_BITS_def
  by (rule bit_word_eqI) (auto simp: bit_simps dest: bit_imp_le_length)

lemma from_parts_get_parts:
  "get_tag_u8 v = tag_code t \<Longrightarrow> from_major_minor_and_tag (get_major v) (get_minor v) t = v"
  by (simp add: from_major_minor_and_tag_def MINOR_BITS_def body_of_major_minor [symmetric]
      from_body_get_body)

section \<open>Laws of small numbers\<close>

lemma word_mask_self_iff: "w AND mask n = w \<longleftrightarrow> uint w < 2 ^ n" for w :: "'a::len word"
proof -
  have "w AND mask n = w \<longleftrightarrow> uint (take_bit n w) = uint w"
    by (simp add: take_bit_eq_mask word_uint_eq_iff)
  also have "\<dots> \<longleftrightarrow> take_bit n (uint w) = uint w"
    by (simp add: unsigned_take_bit_eq)
  also have "\<dots> \<longleftrightarrow> uint w < 2 ^ n"
    by (simp add: take_bit_int_eq_self_iff)
  finally show ?thesis .
qed

lemma drop_push_mask: "drop_bit TAG_BITS (push_bit TAG_BITS u) = (u AND mask 56 :: u64)"
  unfolding TAG_BITS_def by (rule bit_word_eqI) (auto simp: bit_simps)

lemma is_small_u64_iff: "is_small_u64 u \<longleftrightarrow> uint u < 2 ^ 56"
  unfolding is_small_u64_def drop_push_mask word_mask_self_iff [symmetric] by metis

lemma signed_drop_push: "sint (signed_drop_bit TAG_BITS (push_bit TAG_BITS i)) = signed_take_bit 55 (sint (i :: u64))"
proof -
  have "sint (push_bit 8 i) = signed_take_bit 63 (push_bit 8 (sint i))"
    by (rule bit_eqI) (auto simp: bit_simps min_def not_less)
  then have "sint (signed_drop_bit TAG_BITS (push_bit TAG_BITS i))
      = drop_bit 8 (signed_take_bit 63 (push_bit 8 (sint i)))"
    by (simp add: TAG_BITS_def sint_signed_drop_bit_eq)
  also have "\<dots> = signed_take_bit 55 (sint i)"
    by (rule bit_eqI) (auto simp: bit_simps min_def)
  finally show ?thesis .
qed

lemma is_small_i64_iff: "is_small_i64 i \<longleftrightarrow> - (2 ^ 55) \<le> sint i \<and> sint i < 2 ^ 55"
proof -
  have "is_small_i64 i \<longleftrightarrow> signed_take_bit 55 (sint i) = sint i"
    unfolding is_small_i64_def signed_drop_push [symmetric] by (metis word_eq_iff_signed)
  then show ?thesis by (simp add: signed_take_bit_int_eq_self_iff)
qed

lemma unsigned_narrow_iff:
  fixes u :: "'a::len word"
  assumes "64 < LENGTH('a)"
  shows "is_small_u64 (ucast u) \<and> u = ucast (ucast u :: u64) \<longleftrightarrow> uint u < 2 ^ 56"
proof -
  have w: "uint (ucast u :: u64) = take_bit 64 (uint u)"
    by (simp add: unsigned_ucast_eq)
  have b: "uint (ucast (ucast u :: u64) :: 'a word) = take_bit 64 (uint u)"
    using assms by (simp add: unsigned_ucast_eq unsigned_take_bit_eq min_def take_bit_take_bit)
  show ?thesis
    unfolding word_uint_eq_iff [of u] b is_small_u64_iff w
    using take_bit_int_eq_self [of "uint u" 64] by auto
qed

lemma signed_narrow_iff:
  fixes i :: "'a::len word"
  assumes "64 < LENGTH('a)"
  shows "is_small_i64 (ucast i) \<and> i = scast (ucast i :: u64) \<longleftrightarrow>
    - (2 ^ 55) \<le> sint i \<and> sint i < 2 ^ 55"
proof -
  have w: "sint (ucast i :: u64) = signed_take_bit 63 (sint i)"
    using assms by (intro bit_eqI) (auto simp: bit_simps min_def)
  have b: "sint (scast (ucast i :: u64) :: 'a word) = signed_take_bit 63 (sint i)"
    using assms by (intro bit_eqI) (auto simp: bit_simps min_def)
  have "i = scast (ucast i :: u64) \<longleftrightarrow> signed_take_bit 63 (sint i) = sint i"
    by (metis b word_eq_iff_signed)
  then show ?thesis
    unfolding is_small_i64_iff w
    using signed_take_bit_int_eq_self [of 63 "sint i"] by auto
qed

lemma is_small_wide_iff:
  "is_small_u128 u \<longleftrightarrow> uint u < 2 ^ 56"
  "is_small_i128 i \<longleftrightarrow> - (2 ^ 55) \<le> sint i \<and> sint i < 2 ^ 55"
  "is_small_u256 u' \<longleftrightarrow> uint u' < 2 ^ 56"
  "is_small_i256 i' \<longleftrightarrow> - (2 ^ 55) \<le> sint i' \<and> sint i' < 2 ^ 55"
  unfolding is_small_u128_def is_small_i128_def is_small_u256_def is_small_i256_def Let_def
  by (simp_all only: unsigned_narrow_iff signed_narrow_iff len_num0 len_num1 len_bit0 len_bit1)

definition real_tag :: "Tag \<Rightarrow> bool" where
  "real_tag t \<longleftrightarrow> t \<notin> {TagBad, TagSmallCodeUpperBound, TagObjectCodeLowerBound, TagObjectCodeUpperBound}"

lemma tag_from_u8_code [simp]: "tag_from_u8 (tag_code t) = (if real_tag t then t else TagBad)"
  by (cases t) (simp_all add: tag_from_u8_def transmute_tag_def all_tags_def real_tag_def)

lemma get_tag_from_body [simp]: "get_tag (from_body_and_tag b t) = (if real_tag t then t else TagBad)"
  by (simp add: get_tag_def)

lemma get_tag_from_parts [simp]:
  "get_tag (from_major_minor_and_tag M m t) = (if real_tag t then t else TagBad)"
  by (simp add: get_tag_def)

lemma get_signed_body_from_body: "get_signed_body (from_body_and_tag b t) = signed_drop_bit TAG_BITS (push_bit TAG_BITS b)"
  unfolding get_signed_body_def from_body_and_tag_def TAG_BITS_def
  by (rule bit_word_eqI) (auto simp: bit_simps min_def dest: bit_imp_le_length)

lemma get_body_small: "is_small_u64 b \<Longrightarrow> get_body (from_body_and_tag b t) = b"
  by (simp add: get_body_from_body drop_push_mask [symmetric] is_small_u64_def)

lemma get_signed_body_small: "is_small_i64 b \<Longrightarrow> get_signed_body (from_body_and_tag b t) = b"
  by (simp add: get_signed_body_from_body is_small_i64_def)

text \<open>C32: An integer has a small form exactly when it fits 56 bits (as an unsigned or as a
  two's complement number, for each of the widths 64, 128 and 256); the small form carries
  the tag of its type and converts back to the same integer.\<close>

theorem small_number_round_trip:
  "(case U64Small_try_from a of None \<Rightarrow> 2 ^ 56 \<le> uint a
    | Some v \<Rightarrow> uint a < 2 ^ 56 \<and> get_tag v = TagU64Small \<and> u64_from_small v = a) \<and>
   (case I64Small_try_from b of None \<Rightarrow> \<not> (- (2 ^ 55) \<le> sint b \<and> sint b < 2 ^ 55)
    | Some v \<Rightarrow> - (2 ^ 55) \<le> sint b \<and> sint b < 2 ^ 55 \<and> get_tag v = TagI64Small \<and> i64_from_small v = b) \<and>
   (case U128Small_try_from c of None \<Rightarrow> 2 ^ 56 \<le> uint c
    | Some v \<Rightarrow> uint c < 2 ^ 56 \<and> get_tag v = TagU128Small \<and> u128_from_small v = c) \<and>
   (case I128Small_try_from d of None \<Rightarrow> \<not> (- (2 ^ 55) \<le> sint d \<and> sint d < 2 ^ 55)
    | Some v \<Rightarrow> - (2 ^ 55) \<le> sint d \<and> sint d < 2 ^ 55 \<and> get_tag v = TagI128Small \<and> i128_from_small v = d) \<and>
   (case U256Small_try_from e of None \<Rightarrow> 2 ^ 56 \<le> uint e
    | Some v \<Rightarrow> uint e < 2 ^ 56 \<and> get_tag v = TagU256Small \<and> u256_from_small v = e) \<and>
   (case I256Small_try_from f of None \<Rightarrow> \<not> (- (2 ^ 55) \<le> sint f \<and> sint f < 2 ^ 55)
    | Some v \<Rightarrow> - (2 ^ 55) \<le> sint f \<and> sint f < 2 ^ 55 \<and> get_tag v = TagI256Small \<and> i256_from_small v = f)"
  (is "?A \<and> ?B \<and> ?C \<and> ?D \<and> ?E \<and> ?F")
proof (intro conjI)
  show ?A
    by (simp add: U64Small_try_from_def u64_from_small_def get_body_small real_tag_def)
      (simp add: is_small_u64_iff)
  show ?B
    by (simp add: I64Small_try_from_def i64_from_small_def get_signed_body_small real_tag_def)
      (simp add: is_small_i64_iff)
  show ?C using unsigned_narrow_iff [of c]
    by (auto simp: U128Small_try_from_def u128_from_small_def get_body_small real_tag_def
        is_small_u128_def Let_def)
  show ?D using signed_narrow_iff [of d]
    by (auto simp: I128Small_try_from_def i128_from_small_def get_signed_body_small real_tag_def
        is_small_i128_def Let_def)
  show ?E using unsigned_narrow_iff [of e]
    by (auto simp: U256Small_try_from_def u256_from_small_def get_body_small real_tag_def
        is_small_u256_def Let_def)
  show ?F using signed_narrow_iff [of f]
    by (auto simp: I256Small_try_from_def i256_from_small_def get_signed_body_small real_tag_def
        is_small_i256_def Let_def)
qed

lemma u256_pieces_from_into:
  "(case u256_into_pieces u of (a, b, c, d) \<Rightarrow> u256_from_pieces a b c d) = u"
  unfolding u256_into_pieces_def u256_from_pieces_def Let_def prod.case
  by (rule bit_word_eqI, rename_tac n, case_tac "n < 64"; case_tac "n < 128"; case_tac "n < 192")
    (auto simp: bit_simps dest: bit_imp_le_length)

lemma u256_pieces_into_from: "u256_into_pieces (u256_from_pieces a b c d) = (a, b, c, d)"
  unfolding u256_into_pieces_def u256_from_pieces_def Let_def prod.case prod.inject
  by (intro conjI; rule bit_word_eqI) (auto simp: bit_simps dest: bit_imp_le_length)

text \<open>A 256-bit number splits into four 64-bit pieces and is rebuilt from them without
  loss, in both directions, and the test for a small number on the pieces is the test on
  the number.\<close>

lemma u256_pieces_round_trip:
  "(case u256_into_pieces u of (a, b, c, d) \<Rightarrow>
      u256_from_pieces a b c d = u \<and> (is_small_u256_parts a b c d \<longleftrightarrow> is_small_u256 u)) \<and>
   u256_into_pieces (u256_from_pieces p q r s) = (p, q, r, s)"
proof -
  obtain a b c d where abcd: "u256_into_pieces u = (a, b, c, d)" by (cases "u256_into_pieces u")
  then have u: "u = u256_from_pieces a b c d" using u256_pieces_from_into [of u] by simp
  have d: "d = ucast u"
    using abcd unfolding u256_into_pieces_def Let_def prod.inject
    by (elim conjE, intro bit_word_eqI) (auto simp: bit_simps)
  have 1: "u256_from_pieces 0 0 0 d = ucast d"
    unfolding u256_from_pieces_def Let_def by (rule bit_word_eqI) (auto simp: bit_simps dest: bit_imp_le_length)
  have 2: "u256_from_pieces a b c d = u256_from_pieces 0 0 0 d \<longleftrightarrow> a = 0 \<and> b = 0 \<and> c = 0"
    by (metis u256_pieces_into_from prod.inject)
  have "is_small_u256_parts a b c d \<longleftrightarrow> is_small_u256 u"
    unfolding is_small_u256_parts_def is_small_u256_def Let_def d [symmetric]
    using 1 2 u by auto
  then show ?thesis using abcd u u256_pieces_into_from by simp
qed

section \<open>Laws of error values\<close>

text \<open>
  What the generated enumerations promise: the discriminants are those \<open>TryFrom<i32>\<close>
  accepts, and the error types fit the 24 bits of a minor part.
\<close>

locale error_numbering =
  fixes N :: ErrorNumbering
  assumes type_of: "type_of_num N x = Some t \<longleftrightarrow> type_num N t = x"
    and code_of: "code_of_num N y = Some c \<longleftrightarrow> code_num N c = y"
    and type_small: "uint (type_num N t) < 2 ^ 24"
begin

lemma type_num_mask: "type_num N t AND mask 24 = type_num N t"
  using type_small by (simp add: word_mask_self_iff)

lemma type_num_high: "drop_bit 24 (type_num N t) = 0"
  by (subst type_num_mask [symmetric], rule bit_word_eqI) (auto simp: bit_simps)

lemma type_of_type_num [simp]: "type_of_num N (type_num N t) = Some t"
  by (simp add: type_of)

lemma code_of_code_num [simp]: "code_of_num N (code_num N c) = Some c"
  by (simp add: code_of)

lemma get_parts_from_scerror:
  "get_minor (from_scerror N (Err t c)) = type_num N (Some t)"
  "get_major (from_scerror N (Err t c)) = code_num N c"
  "get_minor (from_scerror N (ContractErr u)) = type_num N None"
  "get_major (from_scerror N (ContractErr u)) = u"
  by (simp_all add: from_type_and_code_def from_contract_error_def type_num_mask type_num_high)

lemma scerror_round_trip: "scerror_try_from N (from_scerror N e) = Some e"
  by (cases e) (simp_all add: scerror_try_from_def get_parts_from_scerror del: from_scerror.simps)

lemma scerror_tag: "get_tag_u8 (from_scerror N e) = tag_code TagError"
  by (cases e) (simp_all add: from_type_and_code_def from_contract_error_def)

lemma scerror_get_tag: "get_tag (from_scerror N e) = TagError"
  unfolding get_tag_def scerror_tag tag_from_u8_code by (simp add: real_tag_def)

lemma scerror_try_from_inverse:
  assumes "has_tag v TagError" "scerror_try_from N v = Some e"
  shows "from_scerror N e = v"
proof -
  have v: "from_major_minor_and_tag (get_major v) (get_minor v) TagError = v"
    using assms(1) by (intro from_parts_get_parts) (simp add: has_tag_def)
  show ?thesis
  proof (cases e)
    case (Err t c)
    then have "type_num N (Some t) = get_minor v" "code_num N c = get_major v"
      using assms(2) by (auto simp: scerror_try_from_def Let_def type_of code_of split: option.splits)
    then show ?thesis using Err v by (simp add: from_type_and_code_def)
  next
    case (ContractErr u)
    then have "type_num N None = get_minor v" "u = get_major v"
      using assms(2) by (auto simp: scerror_try_from_def Let_def type_of code_of split: option.splits)
    then show ?thesis using ContractErr v by (simp add: from_contract_error_def)
  qed
qed

lemma scerror_classified:
  "error_is_type N (from_scerror N e) t \<longleftrightarrow> t = (case e of Err t' c \<Rightarrow> Some t' | ContractErr u \<Rightarrow> None)"
  by (cases e) (auto simp: error_is_type_def has_minor_def get_parts_from_scerror simp del: from_scerror.simps
      dest: arg_cong [where f = "type_of_num N"])

end

text \<open>The numbering of the protocol's XDR definitions.\<close>

fun xdr_type_num :: "ScErrorType option \<Rightarrow> u32" where
  "xdr_type_num None = 0"
| "xdr_type_num (Some WasmVm) = 1"
| "xdr_type_num (Some Context) = 2"
| "xdr_type_num (Some Storage) = 3"
| "xdr_type_num (Some Object) = 4"
| "xdr_type_num (Some Crypto) = 5"
| "xdr_type_num (Some Events) = 6"
| "xdr_type_num (Some Budget) = 7"
| "xdr_type_num (Some Value) = 8"
| "xdr_type_num (Some Auth) = 9"

fun xdr_code_num :: "ScErrorCode \<Rightarrow> u32" where
  "xdr_code_num ArithDomain = 0"
| "xdr_code_num IndexBounds = 1"
| "xdr_code_num InvalidInput = 2"
| "xdr_code_num MissingValue = 3"
| "xdr_code_num ExistingValue = 4"
| "xdr_code_num ExceededLimit = 5"
| "xdr_code_num InvalidAction = 6"
| "xdr_code_num InternalError = 7"
| "xdr_code_num UnexpectedType = 8"
| "xdr_code_num UnexpectedSize = 9"

definition xdr_numbering :: ErrorNumbering where
  "xdr_numbering = \<lparr>type_num = xdr_type_num, code_num = xdr_code_num,
     type_of_num = (\<lambda>x. List.find (\<lambda>t. xdr_type_num t = x)
        [None, Some WasmVm, Some Context, Some Storage, Some Object, Some Crypto, Some Events,
         Some Budget, Some Value, Some Auth]),
     code_of_num = (\<lambda>x. List.find (\<lambda>c. xdr_code_num c = x)
        [ArithDomain, IndexBounds, InvalidInput, MissingValue, ExistingValue, ExceededLimit,
         InvalidAction, InternalError, UnexpectedType, UnexpectedSize])\<rparr>"

interpretation xdr: error_numbering xdr_numbering
proof
  fix x t
  show "type_of_num xdr_numbering x = Some t \<longleftrightarrow> type_num xdr_numbering t = x"
    unfolding xdr_numbering_def by (cases t rule: xdr_type_num.cases; simp)
next
  fix y c
  show "code_of_num xdr_numbering y = Some c \<longleftrightarrow> code_num xdr_numbering c = y"
    unfolding xdr_numbering_def by (cases c; simp)
next
  fix t show "uint (type_num xdr_numbering t) < 2 ^ 24"
    unfolding xdr_numbering_def by (cases t rule: xdr_type_num.cases) simp_all
qed

text \<open>C38: The 64-bit form of an error and the XDR error are equivalent: every error is
  recovered from the value it is packed into, and every value with the error tag that converts to
  an XDR error is the packing of that error.\<close>

theorem error_round_trip:
  assumes "error_numbering N"
  shows "scerror_try_from N (from_scerror N e) = Some e \<and> get_tag (from_scerror N e) = TagError \<and>
    (has_tag v TagError \<and> scerror_try_from N v = Some e' \<longrightarrow> from_scerror N e' = v)"
  using error_numbering.scerror_round_trip [OF assms] error_numbering.scerror_get_tag [OF assms]
    error_numbering.scerror_try_from_inverse [OF assms] by blast

theorem error_round_trip_witness:
  "error_numbering xdr_numbering \<and>
   has_tag 0x500000703 TagError \<and>
   scerror_try_from xdr_numbering 0x500000703 = Some (Err Budget ExceededLimit) \<and>
   from_scerror xdr_numbering (Err Budget ExceededLimit) = 0x500000703 \<and>
   scerror_try_from xdr_numbering (from_scerror xdr_numbering (ContractErr 77)) = Some (ContractErr 77)"
proof -
  have 1: "has_tag 0x500000703 TagError"
    by (simp add: has_tag_def get_tag_u8_def TAG_MASK_def TAG_BITS_def)
  have 2: "scerror_try_from xdr_numbering 0x500000703 = Some (Err Budget ExceededLimit)"
    by (simp add: scerror_try_from_def get_minor_def get_major_def get_body_def val_consts
        xdr_numbering_def)
  show ?thesis
    using error_round_trip [OF xdr.error_numbering_axioms, of "ContractErr 77" "0x500000703"
        "Err Budget ExceededLimit"] 1 2 xdr.error_numbering_axioms by blast
qed

end
