(* ===== verification/Symbol_Repr.thy ===== *)
theory Symbol_Repr
  imports Val_Repr
begin

unbundle bit_operations_syntax

text \<open>
  Model of small symbols (\<^verbatim>\<open>soroban-env-common/src/symbol.rs\<close>) and of \<open>Val::is_good\<close>
  (\<^verbatim>\<open>val.rs\<close>), which rests on them.

  A small symbol packs up to nine characters of six bits into the body of a \<open>Val\<close>. The
  encoder is the loop of \<open>try_from_bytes\<close>, the decoder the loop inside the iterator's
  \<open>next\<close>, whose termination is proved here: every turn shifts the word's lowest set bit up.

  The theorems: the outcome of the encoder on every byte string, errors included; decoding
  gives back the encoded string; a value is good exactly when a constructor builds it.
\<close>

section \<open>Definitions\<close>

definition MAX_SMALL_CHARS :: nat where "MAX_SMALL_CHARS = 9"
definition CODE_BITS :: nat where "CODE_BITS = 6"
definition CODE_MASK :: u64 where "CODE_MASK = push_bit CODE_BITS 1 - 1"
definition SMALL_MASK :: u64 where "SMALL_MASK = push_bit (MAX_SMALL_CHARS * CODE_BITS) 1 - 1"
definition SCSYMBOL_LIMIT :: nat where "SCSYMBOL_LIMIT = 32"

datatype SymbolError = TooLong nat | BadChar u32 | MalformedSmall

definition try_from_body :: "u64 \<Rightarrow> SymbolError + Val" where
  "try_from_body body =
     (if body AND SMALL_MASK \<noteq> body then Inl MalformedSmall
      else Inr (from_body_and_tag body TagSymbolSmall))"

definition from_small_body :: "u64 \<Rightarrow> Val" where
  "from_small_body body = (let body = body AND SMALL_MASK in from_body_and_tag body TagSymbolSmall)"

text \<open>A character is its scalar value: \<open>0x5f\<close> is the underscore, then digits and letters.\<close>

definition encode_char :: "u32 \<Rightarrow> SymbolError + u64" where
  "encode_char ch =
     (if ch = 0x5f then Inr 1
      else if 0x30 \<le> ch \<and> ch \<le> 0x39 then Inr (2 + (ucast ch - 0x30))
      else if 0x41 \<le> ch \<and> ch \<le> 0x5a then Inr (12 + (ucast ch - 0x41))
      else if 0x61 \<le> ch \<and> ch \<le> 0x7a then Inr (38 + (ucast ch - 0x61))
      else Inl (BadChar ch))"

definition validate_char :: "u32 \<Rightarrow> SymbolError + unit" where
  "validate_char ch = (case encode_char ch of Inr _ \<Rightarrow> Inr () | Inl e \<Rightarrow> Inl e)"

fun try_from_bytes_loop :: "nat \<Rightarrow> nat \<Rightarrow> u64 \<Rightarrow> u8 list \<Rightarrow> SymbolError + u64" where
  "try_from_bytes_loop len n accum [] = Inr accum"
| "try_from_bytes_loop len n accum (b # bs) =
     (let ch = ucast b in
      if n \<ge> MAX_SMALL_CHARS then Inl (TooLong len)
      else let accum = push_bit CODE_BITS accum in
        case encode_char ch of
          Inl e \<Rightarrow> Inl e
        | Inr v \<Rightarrow> try_from_bytes_loop len (n + 1) (accum OR v) bs)"

definition try_from_bytes :: "u8 list \<Rightarrow> SymbolError + Val" where
  "try_from_bytes b =
     (case try_from_bytes_loop (length b) 0 0 b of
        Inl e \<Rightarrow> Inl e
      | Inr accum \<Rightarrow> Inr (from_body_and_tag accum TagSymbolSmall))"

definition decode_char :: "u8 \<Rightarrow> u8" where
  "decode_char n =
     (if n = 1 then 0x5f
      else if 2 \<le> n \<and> n \<le> 11 then 0x30 + n - 2
      else if 12 \<le> n \<and> n \<le> 37 then 0x41 + n - 12
      else if 38 \<le> n \<and> n \<le> 63 then 0x61 + n - 38
      else 0)"

text \<open>Bit positions at or above the lowest set bit: what every turn of the decoder shrinks.\<close>

definition above_lowest :: "u64 \<Rightarrow> nat set" where
  "above_lowest x = {n. n < 64 \<and> (\<exists>m\<le>n. bit x m)}"

lemma above_lowest_shift: "x \<noteq> 0 \<Longrightarrow> card (above_lowest (push_bit 6 x)) < card (above_lowest x)"
proof (rule psubset_card_mono)
  assume "x \<noteq> 0"
  then obtain k where k: "bit x k" by (auto simp: bit_eq_iff)
  define l where "l = (LEAST k. bit x k)"
  have l: "bit x l" and low: "\<And>m. bit x m \<Longrightarrow> l \<le> m"
    using k by (auto simp: l_def intro: LeastI Least_le)
  have "l < 64" using l by (auto dest: bit_imp_le_length)
  then have "l \<in> above_lowest x" using l by (auto simp: above_lowest_def)
  moreover have "l \<notin> above_lowest (push_bit 6 x)"
    using low by (force simp: above_lowest_def bit_simps)
  moreover have "above_lowest (push_bit 6 x) \<subseteq> above_lowest x"
    by (auto simp: above_lowest_def bit_simps) (meson diff_le_self le_trans)
  ultimately show "above_lowest (push_bit 6 x) \<subset> above_lowest x" by blast
qed (simp add: above_lowest_def)

function symbol_next :: "u64 \<Rightarrow> (u8 \<times> u64) option" where
  "symbol_next x =
     (if x \<noteq> 0 then
        let res = decode_char (ucast (drop_bit ((MAX_SMALL_CHARS - 1) * CODE_BITS) x AND CODE_MASK));
            x' = push_bit CODE_BITS x
        in if res \<noteq> 0 then Some (res, x') else symbol_next x'
      else None)"
  by auto
termination
  by (relation "measure (\<lambda>x. card (above_lowest x))") (simp_all add: CODE_BITS_def above_lowest_shift)

declare symbol_next.simps [simp del]

lemma symbol_next_0: "symbol_next 0 = None"
  by (simp add: symbol_next.simps)

lemma symbol_next_step:
  "x \<noteq> 0 \<Longrightarrow> symbol_next x =
     (let res = decode_char (ucast (drop_bit ((MAX_SMALL_CHARS - 1) * CODE_BITS) x AND CODE_MASK))
      in if res \<noteq> 0 then Some (res, push_bit 6 x) else symbol_next (push_bit 6 x))"
  by (subst symbol_next.simps) (simp add: CODE_BITS_def Let_def)

lemma symbol_next_shrinks: "symbol_next x = Some (c, r) \<Longrightarrow> card (above_lowest r) < card (above_lowest x)"
proof (induction x rule: measure_induct_rule [where f = "\<lambda>x. card (above_lowest x)"])
  case (less x)
  then have "x \<noteq> 0" by (auto simp: symbol_next_0)
  with less above_lowest_shift [of x] show ?case
    by (auto simp: symbol_next_step Let_def split: if_splits intro: less_trans)
qed

function symbol_chars :: "u64 \<Rightarrow> u8 list" where
  "symbol_chars x = (case symbol_next x of None \<Rightarrow> [] | Some (c, x') \<Rightarrow> c # symbol_chars x')"
  by auto
termination
  by (relation "measure (\<lambda>x. card (above_lowest x))") (auto dest: symbol_next_shrinks)

declare symbol_chars.simps [simp del]

text \<open>\<open>SymbolSmall::into_iter\<close> and \<open>to_str\<close>; a \<open>SymbolStr\<close> is an array of 32 bytes.\<close>

definition symbol_into_iter :: "Val \<Rightarrow> u8 list" where
  "symbol_into_iter v = symbol_chars (get_body v)"

definition symbol_to_str :: "Val \<Rightarrow> u8 list" where
  "symbol_to_str v =
     (let chars = replicate SCSYMBOL_LIMIT 0; src = take SCSYMBOL_LIMIT (symbol_into_iter v)
      in src @ drop (length src) chars)"

definition symbol_str_is_empty :: "u8 list \<Rightarrow> bool" where
  "symbol_str_is_empty s \<longleftrightarrow> s ! 0 = 0"

fun symbol_str_len :: "u8 list \<Rightarrow> nat" where
  "symbol_str_len [] = 0"
| "symbol_str_len (x # s) = (if x = 0 then 0 else 1 + symbol_str_len s)"

definition symbol_str_as_ref :: "u8 list \<Rightarrow> u8 list" where
  "symbol_str_as_ref s = take (symbol_str_len s) s"

fun iter_cmp :: "u8 list \<Rightarrow> u8 list \<Rightarrow> Ordering" where
  "iter_cmp [] [] = Equal"
| "iter_cmp [] (_ # _) = Less"
| "iter_cmp (_ # _) [] = Greater"
| "iter_cmp (x # xs) (y # ys) = (case cmp_of x y of Equal \<Rightarrow> iter_cmp xs ys | other \<Rightarrow> other)"

definition symbol_small_cmp :: "Val \<Rightarrow> Val \<Rightarrow> Ordering" where
  "symbol_small_cmp a b = iter_cmp (symbol_into_iter a) (symbol_into_iter b)"

section \<open>Codes of a body\<close>

definition code_at :: "u64 \<Rightarrow> nat \<Rightarrow> u8" where
  "code_at x i = ucast (drop_bit (6 * i) x AND mask 6)"

definition codes :: "u64 \<Rightarrow> u8 list" where
  "codes x = map (code_at x) [8, 7, 6, 5, 4, 3, 2, 1, 0]"

lemmas sym_consts = MAX_SMALL_CHARS_def CODE_BITS_def CODE_MASK_def SMALL_MASK_def

lemma code_at_next: "ucast (drop_bit ((MAX_SMALL_CHARS - 1) * CODE_BITS) x AND CODE_MASK) = code_at x 8"
  by (simp add: code_at_def sym_consts mask_eq_exp_minus_1 push_bit_eq_mult)

lemma code_at_push: "i \<le> 7 \<Longrightarrow> code_at (push_bit 6 x) (Suc i) = code_at x i"
  unfolding code_at_def by (rule bit_word_eqI) (auto simp: bit_simps)

lemma bit_masked: "v AND mask n = v \<Longrightarrow> bit v i \<Longrightarrow> i < n" for v :: "'a::len word"
  by (metis bit_and_iff bit_mask_iff)

lemma code_at_push_or:
  assumes "v AND mask 6 = v"
  shows "code_at (push_bit 6 x OR v) (Suc i) = code_at (push_bit 6 x) (Suc i)"
  unfolding code_at_def by (rule bit_word_eqI) (auto simp: bit_simps dest: bit_masked [OF assms])

lemma code_at_push_or_0:
  assumes "v AND mask 6 = v"
  shows "code_at (push_bit 6 x OR v) 0 = ucast v"
  unfolding code_at_def by (rule bit_word_eqI) (auto simp: bit_simps dest: bit_masked [OF assms])

lemma codes_append:
  assumes "v AND mask 6 = v"
  shows "codes (push_bit 6 x OR v) = tl (codes x) @ [ucast v]"
proof -
  have "code_at (push_bit 6 x OR v) (Suc i) = code_at x i" if "i \<le> 7" for i
    using code_at_push_or [OF assms] code_at_push [OF that] by simp
  from this [of 7] this [of 6] this [of 5] this [of 4] this [of 3] this [of 2] this [of 1] this [of 0]
    code_at_push_or_0 [OF assms, of x]
  show ?thesis by (simp add: codes_def numeral_eq_Suc)
qed

lemma codes_push: "codes (push_bit 6 x) = tl (codes x) @ [0]"
  using codes_append [of 0 x] by simp

lemma codes_Cons: "codes x = code_at x 8 # tl (codes x)"
  by (simp add: codes_def)

lemma codes_0: "codes 0 = replicate 9 0"
  by (simp add: codes_def code_at_def numeral_eq_Suc)

lemma code_at_lt: "code_at x i \<le> 63"
proof -
  have "code_at x i AND mask 6 = code_at x i"
    unfolding code_at_def by (rule bit_word_eqI) (auto simp: bit_simps)
  then show ?thesis unfolding word_mask_self_iff by (simp add: word_le_def)
qed

lemma decode_char_0: "n \<le> 63 \<Longrightarrow> decode_char n = 0 \<longleftrightarrow> n = 0"
  unfolding decode_char_def word_le_nat_alt word_unat_eq_iff [where 'a = 8] 
  by (auto simp: unat_arith_simps unat_word_ariths)

text \<open>The characters a body stands for: its non-zero codes, most significant first.\<close>

lemma symbol_next_codes:
  "(case symbol_next x of None \<Rightarrow> filter (\<lambda>c. c \<noteq> 0) (codes x) = []
    | Some (ch, r) \<Rightarrow> \<exists>c. filter (\<lambda>c. c \<noteq> 0) (codes x) = c # filter (\<lambda>c. c \<noteq> 0) (codes r) \<and> ch = decode_char c)"
proof (induction x rule: measure_induct_rule [where f = "\<lambda>x. card (above_lowest x)"])
  case (less x)
  show ?case
  proof (cases "x = 0")
    case False
    note step = symbol_next_step [OF False, unfolded code_at_next Let_def]
    have f: "filter (\<lambda>c. c \<noteq> 0) (codes x)
        = (if code_at x 8 = 0 then [] else [code_at x 8]) @ filter (\<lambda>c. c \<noteq> 0) (codes (push_bit 6 x))"
      by (subst codes_Cons) (simp add: codes_push)
    show ?thesis
      using less [OF above_lowest_shift [OF False]] decode_char_0 [OF code_at_lt, of x 8]
      by (cases "code_at x 8 = 0") (auto simp: step f split: option.splits)
  qed (simp add: symbol_next_0 codes_0)
qed

lemma symbol_chars_codes: "symbol_chars x = map decode_char (filter (\<lambda>c. c \<noteq> 0) (codes x))"
proof (induction x rule: symbol_chars.induct)
  case (1 x)
  show ?case
  proof (cases "symbol_next x")
    case None
    then show ?thesis using symbol_next_codes [of x] by (simp add: symbol_chars.simps [of x])
  next
    case (Some cr)
    then show ?thesis using symbol_next_codes [of x] 1 [OF Some]
      by (cases cr) (auto simp: symbol_chars.simps [of x])
  qed
qed

section \<open>Encoding\<close>

definition symbol_byte :: "u8 \<Rightarrow> bool" where
  "symbol_byte b \<longleftrightarrow> b = 0x5f \<or> 0x30 \<le> b \<and> b \<le> 0x39 \<or> 0x41 \<le> b \<and> b \<le> 0x5a \<or> 0x61 \<le> b \<and> b \<le> 0x7a"

definition char_code :: "u8 \<Rightarrow> u8" where
  "char_code b =
     (if b = 0x5f then 1 else if b \<le> 0x39 then 2 + (b - 0x30) else if b \<le> 0x5a then 12 + (b - 0x41)
      else 38 + (b - 0x61))"

lemma encode_char_byte:
  "encode_char (ucast b) = (if symbol_byte b then Inr (ucast (char_code b)) else Inl (BadChar (ucast b)))"
proof -
  have "\<forall>b\<in>set (map word_of_nat [0..<256]). encode_char (ucast b) =
      (if symbol_byte b then Inr (ucast (char_code b)) else Inl (BadChar (ucast b)))"
    by code_simp
  moreover have "b \<in> set (map word_of_nat [0..<256])"
    using unsigned_less [of b, where 'a = nat] by (auto intro!: image_eqI [of _ _ "unat b"])
  ultimately show ?thesis by blast
qed

lemma char_code_props:
  "symbol_byte b \<Longrightarrow> char_code b \<noteq> 0 \<and> char_code b \<le> 63 \<and> decode_char (char_code b) = b"
proof -
  have "\<forall>b\<in>set (map word_of_nat [0..<256]). symbol_byte b \<longrightarrow>
      char_code b \<noteq> 0 \<and> char_code b \<le> 63 \<and> decode_char (char_code b) = b"
    by code_simp
  moreover have "b \<in> set (map word_of_nat [0..<256])"
    using unsigned_less [of b, where 'a = nat] by (auto intro!: image_eqI [of _ _ "unat b"])
  ultimately show "symbol_byte b \<Longrightarrow> ?thesis" by blast
qed

definition pack_chars :: "u64 \<Rightarrow> u8 list \<Rightarrow> u64" where
  "pack_chars = foldl (\<lambda>a b. push_bit 6 a OR ucast (char_code b))"

lemma pack_chars_simps [simp]:
  "pack_chars a [] = a"
  "pack_chars a (b # bs) = pack_chars (push_bit 6 a OR ucast (char_code b)) bs"
  by (simp_all add: pack_chars_def)

lemma try_from_bytes_loop_outcome:
  "n \<le> 9 \<Longrightarrow> try_from_bytes_loop len n a bs =
     (case List.find (\<lambda>b. \<not> symbol_byte b) (take (9 - n) bs) of
        Some b \<Rightarrow> Inl (BadChar (ucast b))
      | None \<Rightarrow> if 9 < n + length bs then Inl (TooLong len) else Inr (pack_chars a bs))"
proof (induction bs arbitrary: n a)
  case (Cons b bs)
  show ?case
  proof (cases "n = 9")
    case False
    then have "n + 1 \<le> 9" "9 - n = Suc (9 - (n + 1))" using Cons.prems by auto
    then show ?thesis using Cons.IH [of "n + 1"] False
      by (simp add: sym_consts encode_char_byte split: option.split)
  qed (simp add: sym_consts)
qed simp

lemma char_code_mask: "symbol_byte b \<Longrightarrow> (ucast (char_code b) :: u64) AND mask 6 = ucast (char_code b)"
  using char_code_props [of b] take_bit_int_eq_self [of "uint (char_code b)" 64]
  by (auto simp: word_mask_self_iff unsigned_ucast_eq word_le_def)

lemma ucast_back: "ucast (ucast c :: u64) = (c :: u8)"
  by (rule bit_word_eqI) (auto simp: bit_simps)

lemma codes_pack_chars:
  "\<forall>b\<in>set bs. symbol_byte b \<Longrightarrow> length bs \<le> 9 \<Longrightarrow>
   codes (pack_chars a bs) = drop (length bs) (codes a) @ map char_code bs"
proof (induction bs arbitrary: a)
  case (Cons b bs)
  have "length (codes a) = 9" by (simp add: codes_def)
  then show ?case
    using Cons codes_append [OF char_code_mask, of b a]
    by (simp add: drop_Suc ucast_back drop_tl)
qed simp

lemma pack_chars_mask:
  "\<forall>b\<in>set bs. symbol_byte b \<Longrightarrow> a AND mask (6 * n) = a \<Longrightarrow>
   pack_chars a bs AND mask (6 * (n + length bs)) = pack_chars a bs"
proof (induction bs arbitrary: a n)
  case (Cons b bs)
  let ?a = "push_bit 6 a OR ucast (char_code b)"
  have "?a AND mask (6 * Suc n) = ?a"
    using bit_masked [OF Cons.prems(2)] bit_masked [OF char_code_mask, of b] Cons.prems(1)
    by (intro bit_word_eqI) (fastforce simp: bit_simps)
  then show ?case using Cons.IH [of ?a "Suc n"] Cons.prems(1) by simp
qed simp

lemma codes_mask: "codes (a AND mask 56) = codes a"
proof -
  have "code_at (a AND mask 56) i = code_at a i" if "i \<le> 8" for i
    unfolding code_at_def using that by (intro bit_word_eqI) (auto simp: bit_simps)
  then show ?thesis by (simp add: codes_def)
qed

lemma filter_char_codes:
  "\<forall>b\<in>set bs. symbol_byte b \<Longrightarrow> map decode_char (filter (\<lambda>c. c \<noteq> 0) (map char_code bs)) = bs"
  by (induction bs) (auto simp: char_code_props)

lemma symbol_round_trip:
  assumes "\<forall>b\<in>set bs. symbol_byte b" "length bs \<le> 9"
  shows "symbol_into_iter (from_body_and_tag (pack_chars 0 bs) TagSymbolSmall) = bs"
proof -
  have "codes (get_body (from_body_and_tag (pack_chars 0 bs) TagSymbolSmall))
      = replicate (9 - length bs) 0 @ map char_code bs"
    using assms by (simp add: get_body_from_body codes_mask codes_pack_chars codes_0)
  then show ?thesis
    using filter_char_codes [OF assms(1)] by (simp add: symbol_into_iter_def symbol_chars_codes)
qed

lemma try_from_bytes_outcome:
  "try_from_bytes bs =
     (case List.find (\<lambda>b. \<not> symbol_byte b) (take 9 bs) of
        Some b \<Rightarrow> Inl (BadChar (ucast b))
      | None \<Rightarrow> if 9 < length bs then Inl (TooLong (length bs))
          else Inr (from_body_and_tag (pack_chars 0 bs) TagSymbolSmall))"
  by (simp add: try_from_bytes_def try_from_bytes_loop_outcome split: option.split)

lemma symbol_byte_nonzero: "symbol_byte b \<Longrightarrow> b \<noteq> 0"
  by (auto simp: symbol_byte_def)

lemma symbol_str_len_padded: "0 \<notin> set xs \<Longrightarrow> symbol_str_len (xs @ replicate k 0) = length xs"
  by (induction xs; cases k) auto

lemma symbol_str_of_padded: "0 \<notin> set xs \<Longrightarrow> symbol_str_as_ref (xs @ replicate k 0) = xs"
  by (simp add: symbol_str_as_ref_def symbol_str_len_padded)

text \<open>C28: Packing a byte string into a small symbol succeeds exactly on strings of at most nine
  characters of \<open>[a-zA-Z0-9_]\<close>. The first bad character among the first nine is reported, a
  longer string is reported with its length; on success the symbol's iterator and its
  expanded form \<open>SymbolStr\<close> both give the string back.\<close>

theorem small_symbol_round_trip:
  "case try_from_bytes bs of
     Inr v \<Rightarrow> length bs \<le> 9 \<and> list_all symbol_byte bs \<and> get_tag v = TagSymbolSmall \<and>
       symbol_into_iter v = bs \<and> symbol_str_as_ref (symbol_to_str v) = bs
   | Inl (BadChar c) \<Rightarrow> (\<exists>i<length bs. i < 9 \<and> c = ucast (bs ! i) \<and> \<not> symbol_byte (bs ! i))
   | Inl (TooLong n) \<Rightarrow> n = length bs \<and> 9 < n
   | Inl MalformedSmall \<Rightarrow> False"
proof (cases "List.find (\<lambda>b. \<not> symbol_byte b) (take 9 bs)")
  case None
  show ?thesis
  proof (cases "9 < length bs")
    case False
    then have ok: "\<forall>b\<in>set bs. symbol_byte b" using None by (simp add: find_None_iff)
    moreover have "0 \<notin> set bs" using ok symbol_byte_nonzero by blast
    ultimately show ?thesis using None False symbol_round_trip [of bs]
      by (simp add: try_from_bytes_outcome real_tag_def symbol_to_str_def Let_def SCSYMBOL_LIMIT_def
          symbol_str_of_padded list_all_iff)
  qed (use None in \<open>simp add: try_from_bytes_outcome\<close>)
next
  case (Some b)
  then obtain i where "i < length (take 9 bs)" "\<not> symbol_byte b" "b = take 9 bs ! i"
    by (auto simp: find_Some_iff)
  then show ?thesis using Some by (auto simp: try_from_bytes_outcome intro!: exI [of _ i])
qed

section \<open>Good values (val.rs)\<close>

fun can_represent_scval_type :: "ScValType \<Rightarrow> bool" where
  "can_represent_scval_type STContractInstance = False"
| "can_represent_scval_type STLedgerKeyContractInstance = False"
| "can_represent_scval_type STLedgerKeyNonce = False"
| "can_represent_scval_type _ = True"

definition is_good :: "ErrorNumbering \<Rightarrow> Val \<Rightarrow> bool" where
  "is_good N v =
     (case get_tag v of
        TagBad \<Rightarrow> False | TagSmallCodeUpperBound \<Rightarrow> False | TagObjectCodeLowerBound \<Rightarrow> False
      | TagObjectCodeUpperBound \<Rightarrow> False
      | TagTrue \<Rightarrow> has_body v 0 | TagFalse \<Rightarrow> has_body v 0 | TagVoid \<Rightarrow> has_body v 0
      | TagI32Val \<Rightarrow> has_minor v 0 | TagU32Val \<Rightarrow> has_minor v 0
      | TagError \<Rightarrow> scerror_try_from N v \<noteq> None
      | TagSymbolSmall \<Rightarrow> (case try_from_body (get_body v) of Inr _ \<Rightarrow> True | Inl _ \<Rightarrow> False)
      | TagU64Small \<Rightarrow> True | TagI64Small \<Rightarrow> True | TagTimepointSmall \<Rightarrow> True
      | TagDurationSmall \<Rightarrow> True | TagU128Small \<Rightarrow> True | TagI128Small \<Rightarrow> True
      | TagU256Small \<Rightarrow> True | TagI256Small \<Rightarrow> True
      | TagU64Object \<Rightarrow> has_minor v 0 | TagI64Object \<Rightarrow> has_minor v 0
      | TagTimepointObject \<Rightarrow> has_minor v 0 | TagDurationObject \<Rightarrow> has_minor v 0
      | TagU128Object \<Rightarrow> has_minor v 0 | TagI128Object \<Rightarrow> has_minor v 0
      | TagU256Object \<Rightarrow> has_minor v 0 | TagI256Object \<Rightarrow> has_minor v 0
      | TagBytesObject \<Rightarrow> has_minor v 0 | TagStringObject \<Rightarrow> has_minor v 0
      | TagSymbolObject \<Rightarrow> has_minor v 0 | TagVecObject \<Rightarrow> has_minor v 0
      | TagMapObject \<Rightarrow> has_minor v 0 | TagAddressObject \<Rightarrow> has_minor v 0)"

definition val_try_marshal_from_value :: "ErrorNumbering \<Rightarrow> u64 \<Rightarrow> Val option" where
  "val_try_marshal_from_value N i = (if is_good N i then Some i else None)"

lemma tag_code_from_u8:
  assumes "tag_from_u8 x \<noteq> TagBad" shows "tag_code (tag_from_u8 x) = x"
proof -
  have t: "tag_from_u8 x = transmute_tag x"
    using assms by (simp add: tag_from_u8_def Let_def split: if_splits)
  obtain t where "List.find (\<lambda>t. tag_code t = x) all_tags = Some t"
    using assms t by (cases "List.find (\<lambda>t. tag_code t = x) all_tags") (simp_all add: transmute_tag_def)
  then have "transmute_tag x = t" "tag_code t = x"
    by (simp add: transmute_tag_def, auto simp: find_Some_iff)
  with t show ?thesis by simp
qed

lemma tag_code_get_tag: "get_tag v \<noteq> TagBad \<Longrightarrow> get_tag_u8 v = tag_code (get_tag v)"
  by (simp add: get_tag_def tag_code_from_u8)

definition small_number_tag :: "Tag \<Rightarrow> bool" where
  "small_number_tag t \<longleftrightarrow> t \<in> {TagU64Small, TagI64Small, TagTimepointSmall, TagDurationSmall,
     TagU128Small, TagI128Small, TagU256Small, TagI256Small}"

text \<open>The values the constructors of the source build.\<close>

definition constructed :: "ErrorNumbering \<Rightarrow> Val \<Rightarrow> bool" where
  "constructed N v \<longleftrightarrow>
     v = from_void \<or> (\<exists>b. v = from_bool b) \<or> (\<exists>u. v = from_u32 u) \<or> (\<exists>i. v = from_i32 i) \<or>
     (\<exists>e. v = from_scerror N e) \<or> (\<exists>b. v = from_small_body b) \<or>
     (\<exists>t b. small_number_tag t \<and> v = from_body_and_tag b t) \<or>
     (\<exists>t h. tag_is_object t \<and> v = from_handle_and_tag h t)"

lemma is_good_class:
  "is_good N v \<longleftrightarrow>
     get_tag v \<in> {TagFalse, TagTrue, TagVoid} \<and> has_body v 0 \<or>
     get_tag v \<in> {TagU32Val, TagI32Val} \<and> has_minor v 0 \<or>
     get_tag v = TagError \<and> scerror_try_from N v \<noteq> None \<or>
     get_tag v = TagSymbolSmall \<and> get_body v AND SMALL_MASK = get_body v \<or>
     small_number_tag (get_tag v) \<or>
     tag_is_object (get_tag v) \<and> has_minor v 0"
  by (cases "get_tag v") (simp_all add: is_good_def small_number_tag_def tag_is_object_def
      u8_is_object_def try_from_body_def)

lemma tag_is_object_real: "tag_is_object t \<Longrightarrow> real_tag t"
  by (cases t) (simp_all add: tag_is_object_def u8_is_object_def real_tag_def)

lemma good_body_and_tag:
  "small_number_tag t \<Longrightarrow> is_good N (from_body_and_tag b t)"
  by (auto simp: is_good_class small_number_tag_def real_tag_def)

lemma good_handle: "tag_is_object t \<Longrightarrow> is_good N (from_handle_and_tag h t)"
  by (simp add: is_good_class from_handle_and_tag_def tag_is_object_real has_minor_def)

lemma small_mask_body: "get_body (from_body_and_tag (b AND SMALL_MASK) t) = b AND SMALL_MASK"
proof -
  have m: "SMALL_MASK = mask 54" by (simp add: sym_consts mask_eq_exp_minus_1 push_bit_eq_mult)
  show ?thesis unfolding get_body_from_body m by (rule bit_word_eqI) (auto simp: bit_simps)
qed

lemma good_small_body: "is_good N (from_small_body b)"
  by (simp add: is_good_class from_small_body_def real_tag_def small_mask_body and.assoc)

lemma good_immediates:
  "is_good N from_void" "is_good N (from_bool b)" "is_good N (from_u32 u)" "is_good N (from_i32 i)"
  by (auto simp: is_good_class from_void_def from_bool_def from_u32_def from_i32_def real_tag_def
      has_body_def get_body_from_body has_minor_def)

lemma good_scerror: "error_numbering N \<Longrightarrow> is_good N (from_scerror N e)"
  by (simp add: is_good_class error_numbering.scerror_get_tag error_numbering.scerror_round_trip)

lemma good_constructed:
  assumes "error_numbering N" "is_good N v"
  shows "constructed N v"
proof -
  have "get_tag v \<noteq> TagBad" using assms(2) by (auto simp: is_good_def)
  then have code: "get_tag_u8 v = tag_code (get_tag v)" by (rule tag_code_get_tag)
  note whole = from_body_get_body [OF code, symmetric]
  note parts = from_parts_get_parts [OF code, symmetric]
  show ?thesis
    using assms(2) unfolding is_good_class
  proof (elim disjE conjE)
    assume "get_tag v \<in> {TagFalse, TagTrue, TagVoid}" "has_body v 0"
    then show ?thesis using whole
      by (auto simp: constructed_def has_body_def from_bool_def from_void_def intro: exI [of _ True] exI [of _ False])
  next
    assume "get_tag v \<in> {TagU32Val, TagI32Val}" "has_minor v 0"
    then show ?thesis using parts by (auto simp: constructed_def has_minor_def from_u32_def from_i32_def)
  next
    assume "get_tag v = TagError" "scerror_try_from N v \<noteq> None"
    then show ?thesis using error_numbering.scerror_try_from_inverse [OF assms(1), of v] code
      by (auto simp: constructed_def has_tag_def)
  next
    assume "get_tag v = TagSymbolSmall" "get_body v AND SMALL_MASK = get_body v"
    then have "v = from_small_body (get_body v)" using whole by (simp add: from_small_body_def)
    then show ?thesis unfolding constructed_def by blast
  next
    assume "small_number_tag (get_tag v)"
    then show ?thesis using whole unfolding constructed_def by blast
  next
    assume "tag_is_object (get_tag v)" "has_minor v 0"
    then have "v = from_handle_and_tag (get_major v) (get_tag v)"
      using parts by (simp add: from_handle_and_tag_def has_minor_def)
    then show ?thesis using \<open>tag_is_object (get_tag v)\<close> unfolding constructed_def by blast
  qed
qed

text \<open>C26: The 64-bit words that pass \<open>is_good\<close> (the check on every value a contract hands to
  the host) are exactly those that some constructor builds: a constant, a 32-bit number, an
  error, a small symbol, a small number or an object handle, with all other bits clear.\<close>

theorem good_iff_constructed:
  assumes "error_numbering N"
  shows "is_good N v \<longleftrightarrow> constructed N v"
  using good_constructed [OF assms, of v] good_immediates good_scerror [OF assms] good_small_body
    good_body_and_tag good_handle
  unfolding constructed_def by metis

theorem good_iff_constructed_witness:
  "error_numbering xdr_numbering \<and> constructed xdr_numbering 0x2a00000004 \<and>
   (is_good xdr_numbering 0x2a00000004 \<longleftrightarrow> constructed xdr_numbering 0x2a00000004) \<and>
   \<not> constructed xdr_numbering 0x2a00000104"
proof -
  have "is_good xdr_numbering 0x2a00000004" "\<not> is_good xdr_numbering 0x2a00000104"
    by code_simp+
  then show ?thesis
    using good_iff_constructed [OF xdr.error_numbering_axioms] xdr.error_numbering_axioms by blast
qed

end
