(* ===== verification/Ledger_Key.thy ===== *)
theory Ledger_Key
  imports Metered_Map "HOL-Library.Product_Lexorder"
begin

text \<open>
  Ledger keys and entries as the storage layer sees them, their metered comparison
  (\<^verbatim>\<open>soroban-env-host/src/host/comparison.rs\<close>, \<open>Compare<LedgerKey> for Budget\<close>) and the ledger
  parameters that bound lifetimes (\<^verbatim>\<open>host/ledger_info_helper.rs\<close>).

  The XDR types are external: a key keeps its variant and opaque payloads of an ordered type
  \<open>'p\<close> (account id, trustline, contract address, data key, code hash), an entry its variant and
  an opaque content. The XDR discriminants and the comparisons of the payload types are
  parameters, with the contract \<open>payload_order\<close>: comparing payloads, when it succeeds, answers
  their order. The theorem of this theory is that ledger keys then satisfy the contract of the
  ordered map.
\<close>

datatype ContractDataDurability = Temporary | Persistent

datatype LedgerEntryType =
  TAccount | TTrustline | TOffer | TData | TClaimableBalance | TLiquidityPool |
  TContractData | TContractCode | TConfigSetting | TTtl

datatype 'p LedgerKey =
    KAccount 'p | KTrustline 'p | KOffer 'p | KData 'p | KClaimableBalance 'p
  | KLiquidityPool 'p | KContractData 'p 'p ContractDataDurability | KContractCode 'p
  | KConfigSetting 'p | KTtl 'p

record 'e LedgerEntry =
  data_type :: LedgerEntryType
  data_content :: 'e

fun key_variant :: "'p LedgerKey \<Rightarrow> LedgerEntryType" where
  "key_variant (KAccount _) = TAccount"
| "key_variant (KTrustline _) = TTrustline"
| "key_variant (KOffer _) = TOffer"
| "key_variant (KData _) = TData"
| "key_variant (KClaimableBalance _) = TClaimableBalance"
| "key_variant (KLiquidityPool _) = TLiquidityPool"
| "key_variant (KContractData _ _ _) = TContractData"
| "key_variant (KContractCode _) = TContractCode"
| "key_variant (KConfigSetting _) = TConfigSetting"
| "key_variant (KTtl _) = TTtl"

fun supported_type :: "LedgerEntryType \<Rightarrow> bool" where
  "supported_type TAccount = True"
| "supported_type TTrustline = True"
| "supported_type TContractData = True"
| "supported_type TContractCode = True"
| "supported_type _ = False"

definition check_supported_ledger_entry_type :: "'e LedgerEntry \<Rightarrow> ('s, unit) hm" where
  "check_supported_ledger_entry_type le =
     (if supported_type (data_type le) then retM () else throwM (Err Storage InternalError))"

definition check_supported_ledger_key_type :: "'p LedgerKey \<Rightarrow> ('s, unit) hm" where
  "check_supported_ledger_key_type lk =
     (if supported_type (key_variant lk) then retM () else throwM (Err Storage InternalError))"

fun get_key_durability :: "'p LedgerKey \<Rightarrow> ContractDataDurability option" where
  "get_key_durability (KContractData _ _ d) = Some d"
| "get_key_durability (KContractCode _) = Some Persistent"
| "get_key_durability _ = None"

section \<open>Comparison\<close>

record 'p key_compares =
  cmp_account :: "'p \<Rightarrow> 'p \<Rightarrow> Ordering metered"
  cmp_trustline :: "'p \<Rightarrow> 'p \<Rightarrow> Ordering metered"
  cmp_address :: "'p \<Rightarrow> 'p \<Rightarrow> Ordering metered"
  cmp_scval :: "'p \<Rightarrow> 'p \<Rightarrow> Ordering metered"
  cmp_durability :: "ContractDataDurability \<Rightarrow> ContractDataDurability \<Rightarrow> Ordering metered"
  cmp_code :: "'p \<Rightarrow> 'p \<Rightarrow> Ordering metered"
  key_discriminant :: "LedgerEntryType \<Rightarrow> nat"

text \<open>The comparison of tuples, component by component (\<^verbatim>\<open>soroban-env-common/src/compare.rs\<close>).\<close>

definition compare_then :: "Ordering metered \<Rightarrow> Ordering metered \<Rightarrow> Ordering metered" where
  "compare_then c d = bindM c (\<lambda>ord. case ord of Equal \<Rightarrow> d | unequal \<Rightarrow> retM unequal)"

definition compare_contract_data ::
  "'p key_compares \<Rightarrow> 'p \<times> 'p \<times> ContractDataDurability \<Rightarrow> 'p \<times> 'p \<times> ContractDataDurability \<Rightarrow>
     Ordering metered" where
  "compare_contract_data C a b =
     compare_then (cmp_address C (fst a) (fst b))
       (compare_then (cmp_scval C (fst (snd a)) (fst (snd b)))
          (cmp_durability C (snd (snd a)) (snd (snd b))))"

fun compare_same_variant :: "'p key_compares \<Rightarrow> 'p LedgerKey \<Rightarrow> 'p LedgerKey \<Rightarrow> Ordering metered" where
  "compare_same_variant C (KAccount a) (KAccount b) = cmp_account C a b"
| "compare_same_variant C (KTrustline a) (KTrustline b) = cmp_trustline C a b"
| "compare_same_variant C (KContractData a k d) (KContractData b l e) =
     compare_contract_data C (a, k, d) (b, l, e)"
| "compare_same_variant C (KContractCode a) (KContractCode b) = cmp_code C a b"
| "compare_same_variant C a b =
     (if \<not> supported_type (key_variant a) \<or> \<not> supported_type (key_variant b)
      then throwM (Err Value InternalError)
      else retM (cmp_of (key_discriminant C (key_variant a)) (key_discriminant C (key_variant b))))"

definition compare_ledger_key ::
  "'p key_compares \<Rightarrow> 'p LedgerKey \<Rightarrow> 'p LedgerKey \<Rightarrow> Ordering metered" where
  "compare_ledger_key C a b =
     thenM (check_supported_ledger_key_type a)
       (thenM (check_supported_ledger_key_type b) (compare_same_variant C a b))"

section \<open>Ledger parameters (ledger\_info\_helper.rs)\<close>

text \<open>The network id, which only the conversions and hashes read, is left out.\<close>

record LedgerInfo =
  protocol_version :: u32
  sequence_number :: u32
  timestamp :: u64
  base_reserve :: u32
  min_temp_entry_ttl :: u32
  min_persistent_entry_ttl :: u32
  max_entry_ttl :: u32

definition with_ledger_info :: "LedgerInfo option \<Rightarrow> (LedgerInfo \<Rightarrow> ('s, 'a) hm) \<Rightarrow> ('s, 'a) hm" where
  "with_ledger_info li f = (case li of None \<Rightarrow> throwM (Err Context InternalError) | Some l \<Rightarrow> f l)"

definition get_min_live_until_ledger ::
  "LedgerInfo option \<Rightarrow> ContractDataDurability \<Rightarrow> ('s, u32) hm" where
  "get_min_live_until_ledger li storage_type =
     bindM (with_ledger_info li (\<lambda>l. retM (sequence_number l))) (\<lambda>ledger_seq.
       bindM (case storage_type of
           Temporary \<Rightarrow> with_ledger_info li (\<lambda>l. retM (min_temp_entry_ttl l))
         | Persistent \<Rightarrow> with_ledger_info li (\<lambda>l. retM (min_persistent_entry_ttl l)))
         (\<lambda>min_live_until.
            okOrM (checked_add ledger_seq (saturating_sub min_live_until 1))
              (Err Context InternalError)))"

definition max_live_until_ledger :: "LedgerInfo option \<Rightarrow> ('s, u32) hm" where
  "max_live_until_ledger li = with_ledger_info li (\<lambda>l.
     okOrM (checked_add (sequence_number l) (saturating_sub (max_entry_ttl l) 1))
       (Err Context InternalError))"

section \<open>Ledger keys are ordered\<close>

fun key_payload :: "'p LedgerKey \<Rightarrow> 'p \<times> 'p" where
  "key_payload (KContractData a k _) = (a, k)"
| "key_payload (KAccount a) = (a, a)"
| "key_payload (KTrustline a) = (a, a)"
| "key_payload (KOffer a) = (a, a)"
| "key_payload (KData a) = (a, a)"
| "key_payload (KClaimableBalance a) = (a, a)"
| "key_payload (KLiquidityPool a) = (a, a)"
| "key_payload (KContractCode a) = (a, a)"
| "key_payload (KConfigSetting a) = (a, a)"
| "key_payload (KTtl a) = (a, a)"

fun key_durability_rank :: "(ContractDataDurability \<Rightarrow> nat) \<Rightarrow> 'p LedgerKey \<Rightarrow> nat" where
  "key_durability_rank r (KContractData _ _ d) = r d"
| "key_durability_rank r _ = 0"

definition key_rank ::
  "'p key_compares \<Rightarrow> (ContractDataDurability \<Rightarrow> nat) \<Rightarrow> 'p LedgerKey \<Rightarrow> nat \<times> ('p \<times> 'p) \<times> nat" where
  "key_rank C r k =
     (key_discriminant C (key_variant k), key_payload k, key_durability_rank r k)"

lemma cmp_of_pair:
  "cmp_of (a, b) (c, d) = (case cmp_of a c of Equal \<Rightarrow> cmp_of b d | unequal \<Rightarrow> unequal)"
  for a c :: "'a::linorder" and b d :: "'b::linorder"
  by (cases a c rule: linorder_cases) (auto simp: cmp_of_def)

lemma cmp_of_refl [simp]: "cmp_of a a = Equal"
  by simp

lemma compare_then_sound:
  assumes "compare_then c d s = (Inr ord, s')"
    and "\<And>s o' s'. c s = (Inr o', s') \<Longrightarrow> o' = x" and "\<And>s o' s'. d s = (Inr o', s') \<Longrightarrow> o' = y"
  shows "ord = (case x of Equal \<Rightarrow> y | unequal \<Rightarrow> unequal)"
proof -
  from assms(1) obtain o' s1 where c: "c s = (Inr o', s1)"
    and d: "(case o' of Equal \<Rightarrow> d | unequal \<Rightarrow> retM unequal) s1 = (Inr ord, s')"
    unfolding compare_then_def bindM_Inr by blast
  from d assms(2) [OF c] assms(3) show ?thesis by (cases x) (auto simp: retM_Inr)
qed

lemma compare_distinct_variants:
  "key_variant a \<noteq> key_variant b \<Longrightarrow> supported_type (key_variant a) \<Longrightarrow>
   supported_type (key_variant b) \<Longrightarrow> compare_same_variant C a b =
     retM (cmp_of (key_discriminant C (key_variant a)) (key_discriminant C (key_variant b)))"
  by (cases a; cases b) simp_all

lemma compare_ledger_key_Inr:
  "compare_ledger_key C a b s = (Inr ord, s') \<longleftrightarrow>
     supported_type (key_variant a) \<and> supported_type (key_variant b) \<and>
     compare_same_variant C a b s = (Inr ord, s')"
  by (auto simp: compare_ledger_key_def check_supported_ledger_key_type_def)

locale payload_order =
  fixes C :: "'p::linorder key_compares" and rank :: "ContractDataDurability \<Rightarrow> nat"
  assumes discriminants: "inj (key_discriminant C)" and ranks: "inj rank"
    and account: "cmp_account C a b s = (Inr ord, s') \<Longrightarrow> ord = cmp_of a b"
    and trustline: "cmp_trustline C a b s = (Inr ord, s') \<Longrightarrow> ord = cmp_of a b"
    and address: "cmp_address C a b s = (Inr ord, s') \<Longrightarrow> ord = cmp_of a b"
    and scval: "cmp_scval C a b s = (Inr ord, s') \<Longrightarrow> ord = cmp_of a b"
    and durability: "cmp_durability C d e s = (Inr ord, s') \<Longrightarrow> ord = cmp_of (rank d) (rank e)"
    and code: "cmp_code C a b s = (Inr ord, s') \<Longrightarrow> ord = cmp_of a b"
begin

lemma key_rank_inj: "inj (key_rank C rank)"
proof (rule injI)
  fix a b assume eq: "key_rank C rank a = key_rank C rank b"
  then have "key_variant a = key_variant b" using discriminants by (auto simp: key_rank_def dest: injD)
  with eq show "a = b" using ranks by (cases a; cases b) (auto simp: key_rank_def dest: injD)
qed

lemma contract_data_sound:
  "compare_contract_data C (a, k, d) (b, l, e) s = (Inr ord, s') \<Longrightarrow>
     ord = cmp_of (a, k, rank d) (b, l, rank e)"
  unfolding compare_contract_data_def fst_conv snd_conv cmp_of_pair
  by (rule compare_then_sound, assumption, erule address, rule compare_then_sound, assumption,
      erule scval, erule durability)

lemma compare_sound:
  assumes "compare_ledger_key C a b s = (Inr ord, s')"
  shows "ord = cmp_of (key_rank C rank a) (key_rank C rank b)"
proof (cases "key_variant a = key_variant b")
  case False
  then have "key_discriminant C (key_variant a) \<noteq> key_discriminant C (key_variant b)"
    using discriminants by (auto dest: injD)
  then have "cmp_of (key_rank C rank a) (key_rank C rank b) =
      cmp_of (key_discriminant C (key_variant a)) (key_discriminant C (key_variant b))"
    by (auto simp: key_rank_def cmp_of_def)
  with assms False show ?thesis
    by (auto simp: compare_ledger_key_Inr compare_distinct_variants retM_Inr)
next
  case True
  then have r: "cmp_of (key_rank C rank a) (key_rank C rank b) =
      cmp_of (key_payload a, key_durability_rank rank a) (key_payload b, key_durability_rank rank b)"
    by (simp add: key_rank_def cmp_of_pair [of "key_discriminant C _"])
  have triple: "cmp_of ((a, k), d) ((b, l), e) = cmp_of (a, k, d) (b, l, e)"
    for a b k l :: 'p and d e :: nat by (auto simp: cmp_of_def)
  have twice: "cmp_of (a, a, 0 :: nat) (b, b, 0) = cmp_of a b" for a b :: 'p
    by (auto simp: cmp_of_def)
  from assms have run: "compare_same_variant C a b s = (Inr ord, s')"
    and sup: "supported_type (key_variant a)" by (auto simp: compare_ledger_key_Inr)
  from True sup run show ?thesis unfolding r
    by (cases a; cases b)
      (auto simp: twice triple dest: account trustline code contract_data_sound)
qed

end

locale total_payload_order = payload_order +
  assumes account_total: "totalM (cmp_account C a b)"
    and trustline_total: "totalM (cmp_trustline C a b)"
    and address_total: "totalM (cmp_address C a b)"
    and scval_total: "totalM (cmp_scval C a b)"
    and durability_total: "totalM (cmp_durability C d e)"
    and code_total: "totalM (cmp_code C a b)"
begin

lemma compare_then_total: "totalM c \<Longrightarrow> totalM d \<Longrightarrow> totalM (compare_then c d)"
  unfolding compare_then_def by (auto intro!: totalM_bind split: Ordering.split)

lemma compare_total:
  assumes "supported_type (key_variant a)" "supported_type (key_variant b)"
  shows "totalM (compare_ledger_key C a b)"
proof -
  have "totalM (compare_same_variant C a b)"
    using assms
    by (cases a; cases b)
      (auto simp: compare_contract_data_def account_total trustline_total code_total
        intro!: compare_then_total address_total scval_total durability_total)
  with assms show ?thesis by (simp add: compare_ledger_key_def check_supported_ledger_key_type_def)
qed

end

section \<open>An instance\<close>

text \<open>
  Fixed-size payloads with the numbering of the XDR enumerations. The theorems that follow hold
  for every instance of \<open>total_payload_order\<close>; this one shows the contract can be met.
\<close>

fun xdr_entry_type :: "LedgerEntryType \<Rightarrow> nat" where
  "xdr_entry_type TAccount = 0"
| "xdr_entry_type TTrustline = 1"
| "xdr_entry_type TOffer = 2"
| "xdr_entry_type TData = 3"
| "xdr_entry_type TClaimableBalance = 4"
| "xdr_entry_type TLiquidityPool = 5"
| "xdr_entry_type TContractData = 6"
| "xdr_entry_type TContractCode = 7"
| "xdr_entry_type TConfigSetting = 8"
| "xdr_entry_type TTtl = 9"

fun xdr_durability :: "ContractDataDurability \<Rightarrow> nat" where
  "xdr_durability Temporary = 0"
| "xdr_durability Persistent = 1"

definition fixed_compares :: "'p::linorder key_compares" where
  "fixed_compares = \<lparr>cmp_account = compare_fixed 32, cmp_trustline = compare_fixed 80,
     cmp_address = compare_fixed 40, cmp_scval = compare_fixed 64,
     cmp_durability = (\<lambda>d e. compare_fixed 4 (xdr_durability d) (xdr_durability e)),
     cmp_code = compare_fixed 32, key_discriminant = xdr_entry_type\<rparr>"

interpretation fixed_keys: total_payload_order fixed_compares xdr_durability
proof unfold_locales
  show "inj (key_discriminant fixed_compares)"
    by (rule injI, rename_tac x y, case_tac x; case_tac y; simp add: fixed_compares_def)
  show "inj xdr_durability" by (rule injI, rename_tac x y, case_tac x; case_tac y; simp)
qed (auto simp: fixed_compares_def compare_fixed_def m_simps)

end
