(* ===== verification/Host_Storage.thy ===== *)
theory Host_Storage
  imports Ledger_Key
begin

text \<open>
  Model of \<^verbatim>\<open>soroban-env-host/src/storage.rs\<close>: the transactional view of the ledger.

  A \<open>store\<close> is a footprint (which keys may be, or have been, accessed and how), a mode, and a
  map from keys to an entry with its live-until ledger, or \<open>None\<close> for an absent entry. In
  recording mode accesses extend the footprint and misses read through to a snapshot; in
  enforcing mode an access must be in the footprint. The operations work on the store and the
  budget together. Key comparison is a parameter with the contract \<open>storage_keys\<close>, which the
  ledger keys of theory \<open>Ledger_Key\<close> provide.
\<close>

datatype AccessType = ReadOnly | ReadWrite

type_synonym 'e EntryWithLiveUntil = "'e LedgerEntry \<times> u32 option"

text \<open>The snapshot source of recording mode, supplied by the embedder.\<close>

record ('p, 'e) snapshot_source =
  src_has :: "'p LedgerKey \<Rightarrow> Error + bool"
  src_get :: "'p LedgerKey \<Rightarrow> Error + 'e EntryWithLiveUntil"

datatype ('p, 'e) FootprintMode = Recording "('p, 'e) snapshot_source" | Enforcing

record ('p, 'e) store =
  footprint :: "('p LedgerKey, AccessType) ord_map"
  mode :: "('p, 'e) FootprintMode"
  smap :: "('p LedgerKey, 'e EntryWithLiveUntil option) ord_map"

type_synonym ('p, 'e, 'a) storing = "(('p, 'e) store \<times> BudgetImpl, 'a) hm"

type_synonym 'p key_compare = "'p LedgerKey \<Rightarrow> 'p LedgerKey \<Rightarrow> Ordering metered"

definition footprint_ctx :: "'p key_compare \<Rightarrow> ('p LedgerKey, AccessType) map_ctx" where
  "footprint_ctx kc = \<lparr>compare = kc, key_type = rc_type, val_type = shallow_type 1\<rparr>"

definition entry_type :: "'e EntryWithLiveUntil option metered_type" where
  "entry_type = option_type (pair_type rc_type (option_type (shallow_type 4)))"

definition storage_ctx :: "'p key_compare \<Rightarrow> ('p LedgerKey, 'e EntryWithLiveUntil option) map_ctx" where
  "storage_ctx kc = \<lparr>compare = kc, key_type = rc_type, val_type = entry_type\<rparr>"

definition onBudget :: "'a metered \<Rightarrow> ('p, 'e, 'a) storing" where
  "onBudget m = zoomM snd (\<lambda>b st. (fst st, b)) m"

definition setFootprint :: "('p LedgerKey, AccessType) ord_map \<Rightarrow> ('p, 'e, unit) storing" where
  "setFootprint f = modifyM (\<lambda>(s, b). (s\<lparr>footprint := f\<rparr>, b))"

definition setMap :: "('p LedgerKey, 'e EntryWithLiveUntil option) ord_map \<Rightarrow> ('p, 'e, unit) storing" where
  "setMap m = modifyM (\<lambda>(s, b). (s\<lparr>smap := m\<rparr>, b))"

definition ofSum :: "Error + 'a \<Rightarrow> ('s, 'a) hm" where
  "ofSum r = (case r of Inl e \<Rightarrow> throwM e | Inr x \<Rightarrow> retM x)"

section \<open>Footprints\<close>

definition record_access ::
  "'p key_compare \<Rightarrow> 'p LedgerKey \<Rightarrow> AccessType \<Rightarrow> ('p, 'e, unit) storing" where
  "record_access kc key ty =
     bindM (getM (\<lambda>st. footprint (fst st))) (\<lambda>fp.
     bindM (onBudget (map_get (footprint_ctx kc) fp key)) (\<lambda>existing.
       case existing of
         Some old \<Rightarrow>
           (case (old, ty) of
              (ReadOnly, ReadOnly) \<Rightarrow> retM ()
            | (ReadOnly, ReadWrite) \<Rightarrow>
                bindM (onBudget (map_insert (footprint_ctx kc) fp key ty)) setFootprint
            | (ReadWrite, ReadOnly) \<Rightarrow> retM ()
            | (ReadWrite, ReadWrite) \<Rightarrow> retM ())
       | None \<Rightarrow> bindM (onBudget (map_insert (footprint_ctx kc) fp key ty)) setFootprint))"

definition enforce_access ::
  "'p key_compare \<Rightarrow> 'p LedgerKey \<Rightarrow> AccessType \<Rightarrow> ('p, 'e, unit) storing" where
  "enforce_access kc key ty =
     bindM (getM (\<lambda>st. footprint (fst st))) (\<lambda>fp.
     bindM (onBudget (map_get (footprint_ctx kc) fp key)) (\<lambda>existing.
       case existing of
         Some old \<Rightarrow>
           (case (old, ty) of
              (ReadOnly, ReadOnly) \<Rightarrow> retM ()
            | (ReadOnly, ReadWrite) \<Rightarrow> throwM (Err Storage ExceededLimit)
            | (ReadWrite, ReadOnly) \<Rightarrow> retM ()
            | (ReadWrite, ReadWrite) \<Rightarrow> retM ())
       | None \<Rightarrow> throwM (Err Storage ExceededLimit)))"

section \<open>Storage operations\<close>

definition with_enforcing_footprint_and_map ::
  "('p LedgerKey, AccessType) ord_map \<Rightarrow> ('p LedgerKey, 'e EntryWithLiveUntil option) ord_map \<Rightarrow>
     ('p, 'e) store" where
  "with_enforcing_footprint_and_map fp m = \<lparr>footprint = fp, mode = Enforcing, smap = m\<rparr>"

definition with_recording_footprint :: "('p, 'e) snapshot_source \<Rightarrow> ('p, 'e) store" where
  "with_recording_footprint src = \<lparr>footprint = [], mode = Recording src, smap = []\<rparr>"

definition read_through ::
  "'p key_compare \<Rightarrow> ('p, 'e) snapshot_source \<Rightarrow> 'p LedgerKey \<Rightarrow> ('p, 'e, unit) storing" where
  "read_through kc src key =
     bindM (getM (\<lambda>st. smap (fst st))) (\<lambda>m.
     bindM (onBudget (map_contains_key (storage_ctx kc) m key)) (\<lambda>present.
       if \<not> present then
         bindM (bindM (ofSum (src_has src key)) (\<lambda>has.
                  if has then bindM (ofSum (src_get src key)) (\<lambda>e. retM (Some e)) else retM None))
           (\<lambda>val. bindM (onBudget (map_insert (storage_ctx kc) m key val)) setMap)
       else retM ()))"

definition prepare_read_only_access ::
  "'p key_compare \<Rightarrow> 'p LedgerKey \<Rightarrow> ('p, 'e, unit) storing" where
  "prepare_read_only_access kc key =
     bindM (getM (\<lambda>st. mode (fst st))) (\<lambda>md. case md of
         Recording src \<Rightarrow> thenM (record_access kc key ReadOnly) (read_through kc src key)
       | Enforcing \<Rightarrow> enforce_access kc key ReadOnly)"

definition try_get_full ::
  "'p key_compare \<Rightarrow> 'p LedgerKey \<Rightarrow> ('p, 'e, 'e EntryWithLiveUntil option) storing" where
  "try_get_full kc key =
     thenM (check_supported_ledger_key_type key)
       (thenM (prepare_read_only_access kc key)
          (bindM (getM (\<lambda>st. smap (fst st))) (\<lambda>m.
             bindM (onBudget (map_get (storage_ctx kc) m key)) (\<lambda>r. case r of
                None \<Rightarrow> throwM (Err Storage InternalError)
              | Some pair_option \<Rightarrow> retM pair_option))))"

definition try_get :: "'p key_compare \<Rightarrow> 'p LedgerKey \<Rightarrow> ('p, 'e, 'e LedgerEntry option) storing" where
  "try_get kc key = bindM (try_get_full kc key) (\<lambda>r. retM (map_option fst r))"

definition storage_get :: "'p key_compare \<Rightarrow> 'p LedgerKey \<Rightarrow> ('p, 'e, 'e LedgerEntry) storing" where
  "storage_get kc key = bindM (try_get kc key) (\<lambda>r. okOrM r (Err Storage MissingValue))"

definition get_with_live_until_ledger ::
  "'p key_compare \<Rightarrow> 'p LedgerKey \<Rightarrow> ('p, 'e, 'e EntryWithLiveUntil) storing" where
  "get_with_live_until_ledger kc key =
     bindM (try_get_full kc key) (\<lambda>r. okOrM r (Err Storage MissingValue))"

definition put_opt ::
  "'p key_compare \<Rightarrow> 'p LedgerKey \<Rightarrow> 'e EntryWithLiveUntil option \<Rightarrow> ('p, 'e, unit) storing" where
  "put_opt kc key val =
     thenM (check_supported_ledger_key_type key)
       (thenM (case val of Some le \<Rightarrow> check_supported_ledger_entry_type (fst le) | None \<Rightarrow> retM ())
          (thenM (bindM (getM (\<lambda>st. mode (fst st))) (\<lambda>md. case md of
                    Recording _ \<Rightarrow> record_access kc key ReadWrite
                  | Enforcing \<Rightarrow> enforce_access kc key ReadWrite))
             (bindM (getM (\<lambda>st. smap (fst st))) (\<lambda>m.
                bindM (onBudget (map_insert (storage_ctx kc) m key val)) setMap))))"

definition storage_put ::
  "'p key_compare \<Rightarrow> 'p LedgerKey \<Rightarrow> 'e LedgerEntry \<Rightarrow> u32 option \<Rightarrow> ('p, 'e, unit) storing" where
  "storage_put kc key val live_until_ledger = put_opt kc key (Some (val, live_until_ledger))"

definition storage_del :: "'p key_compare \<Rightarrow> 'p LedgerKey \<Rightarrow> ('p, 'e, unit) storing" where
  "storage_del kc key = put_opt kc key None"

definition storage_has :: "'p key_compare \<Rightarrow> 'p LedgerKey \<Rightarrow> ('p, 'e, bool) storing" where
  "storage_has kc key =
     thenM (check_supported_ledger_key_type key)
       (thenM (prepare_read_only_access kc key)
          (bindM (getM (\<lambda>st. smap (fst st))) (\<lambda>m.
             bindM (onBudget (map_get (storage_ctx kc) m key)) (\<lambda>r.
               bindM (okOrM r (Err Storage InternalError)) (\<lambda>v. retM (v \<noteq> None))))))"

definition extend_ttl ::
  "'p key_compare \<Rightarrow> LedgerInfo option \<Rightarrow> 'p LedgerKey \<Rightarrow> u32 \<Rightarrow> u32 \<Rightarrow> ('p, 'e, unit) storing" where
  "extend_ttl kc li key threshold extend_to =
     thenM (check_supported_ledger_key_type key)
     (if threshold > extend_to then throwM (Err Storage InvalidInput)
      else bindM (get_with_live_until_ledger kc key) (\<lambda>(entry, old_opt).
       bindM (okOrM old_opt (Err Storage InternalError)) (\<lambda>old_live_until.
       bindM (with_ledger_info li (\<lambda>l. retM (sequence_number l))) (\<lambda>ledger_seq.
       if old_live_until < ledger_seq then throwM (Err Storage InternalError)
       else bindM (with_ledger_info li (\<lambda>l.
                okOrM (checked_add (sequence_number l) extend_to) (Err Context InternalError)))
         (\<lambda>wanted.
       bindM (max_live_until_ledger li) (\<lambda>max_live.
       bindM (if wanted > max_live then
                (case get_key_durability key of
                   Some Persistent \<Rightarrow> retM max_live
                 | Some Temporary \<Rightarrow> throwM (Err Storage InvalidAction)
                 | None \<Rightarrow> throwM (Err Storage InternalError))
              else retM wanted) (\<lambda>new_live_until.
       if new_live_until > old_live_until \<and> saturating_sub old_live_until ledger_seq \<le> threshold
       then bindM (getM (\<lambda>st. smap (fst st))) (\<lambda>m.
              bindM (onBudget (map_insert (storage_ctx kc) m key (Some (entry, Some new_live_until))))
                setMap)
       else retM ())))))))"

section \<open>The abstract ledger\<close>

text \<open>
  The abstract state is a pair of partial functions, the footprint and the loaded entries. An
  abstract operation has the same monadic shape with metering and the vector representation
  gone. \<open>snap\<close> is the snapshot in recording mode and \<open>None\<close> in enforcing mode.
\<close>

type_synonym ('p, 'e) astate =
  "('p LedgerKey \<rightharpoonup> AccessType) \<times> ('p LedgerKey \<rightharpoonup> 'e EntryWithLiveUntil option)"

type_synonym ('p, 'e) snapshot = "'p LedgerKey \<Rightarrow> 'e EntryWithLiveUntil option"

definition recorded ::
  "('k \<rightharpoonup> AccessType) \<Rightarrow> 'k \<Rightarrow> AccessType \<Rightarrow> ('k \<rightharpoonup> AccessType)" where
  "recorded fp k ty = fp(k \<mapsto> if fp k = Some ReadWrite then ReadWrite else ty)"

definition allowed :: "('k \<rightharpoonup> AccessType) \<Rightarrow> 'k \<Rightarrow> AccessType \<Rightarrow> bool" where
  "allowed fp k ty \<longleftrightarrow> fp k = Some ReadWrite \<or> fp k = Some ReadOnly \<and> ty = ReadOnly"

definition a_access ::
  "('p, 'e) snapshot option \<Rightarrow> 'p LedgerKey \<Rightarrow> AccessType \<Rightarrow> (('p, 'e) astate, unit) hm" where
  "a_access snap k ty = (case snap of
     Some _ \<Rightarrow> modifyM (\<lambda>(fp, mp). (recorded fp k ty, mp))
   | None \<Rightarrow> bindM (getM fst) (\<lambda>fp. guardM (allowed fp k ty) (Err Storage ExceededLimit)))"

definition a_load ::
  "('p, 'e) snapshot option \<Rightarrow> 'p LedgerKey \<Rightarrow> (('p, 'e) astate, unit) hm" where
  "a_load snap k = (case snap of
     Some sn \<Rightarrow> modifyM (\<lambda>(fp, mp). (fp, if mp k = None then mp(k \<mapsto> sn k) else mp))
   | None \<Rightarrow> retM ())"

definition a_get_full ::
  "('p, 'e) snapshot option \<Rightarrow> 'p LedgerKey \<Rightarrow>
     (('p, 'e) astate, 'e EntryWithLiveUntil option) hm" where
  "a_get_full snap k =
     thenM (check_supported_ledger_key_type k)
       (thenM (thenM (a_access snap k ReadOnly) (a_load snap k))
          (bindM (getM (\<lambda>st. snd st k)) (\<lambda>r. case r of
              None \<Rightarrow> throwM (Err Storage InternalError) | Some v \<Rightarrow> retM v)))"

definition a_put ::
  "('p, 'e) snapshot option \<Rightarrow> 'p LedgerKey \<Rightarrow> 'e EntryWithLiveUntil option \<Rightarrow>
     (('p, 'e) astate, unit) hm" where
  "a_put snap k val =
     thenM (check_supported_ledger_key_type k)
       (thenM (case val of Some le \<Rightarrow> check_supported_ledger_entry_type (fst le) | None \<Rightarrow> retM ())
          (thenM (a_access snap k ReadWrite) (modifyM (\<lambda>(fp, mp). (fp, mp(k \<mapsto> val))))))"

definition a_ttl :: "LedgerInfo option \<Rightarrow> 'p LedgerKey \<Rightarrow> u32 option \<Rightarrow> u32 \<Rightarrow> u32 \<Rightarrow>
    ('s, u32 option) hm" where
  "a_ttl li key old_opt threshold extend_to =
     bindM (okOrM old_opt (Err Storage InternalError)) (\<lambda>old_live_until.
     bindM (with_ledger_info li (\<lambda>l. retM (sequence_number l))) (\<lambda>ledger_seq.
     if old_live_until < ledger_seq then throwM (Err Storage InternalError)
     else bindM (with_ledger_info li (\<lambda>l.
              okOrM (checked_add (sequence_number l) extend_to) (Err Context InternalError)))
       (\<lambda>wanted.
     bindM (max_live_until_ledger li) (\<lambda>max_live.
     bindM (if wanted > max_live then
              (case get_key_durability key of
                 Some Persistent \<Rightarrow> retM max_live
               | Some Temporary \<Rightarrow> throwM (Err Storage InvalidAction)
               | None \<Rightarrow> throwM (Err Storage InternalError))
            else retM wanted) (\<lambda>new_live_until.
     retM (if new_live_until > old_live_until \<and> saturating_sub old_live_until ledger_seq \<le> threshold
           then Some new_live_until else None))))))"

definition a_extend ::
  "('p, 'e) snapshot option \<Rightarrow> LedgerInfo option \<Rightarrow> 'p LedgerKey \<Rightarrow> u32 \<Rightarrow> u32 \<Rightarrow>
     (('p, 'e) astate, unit) hm" where
  "a_extend snap li key threshold extend_to =
     thenM (check_supported_ledger_key_type key)
     (if threshold > extend_to then throwM (Err Storage InvalidInput)
      else bindM (bindM (a_get_full snap key) (\<lambda>r. okOrM r (Err Storage MissingValue)))
        (\<lambda>(entry, old_opt). bindM (a_ttl li key old_opt threshold extend_to) (\<lambda>upd.
           case upd of None \<Rightarrow> retM ()
           | Some new_live_until \<Rightarrow>
               modifyM (\<lambda>(fp, mp). (fp, mp(key \<mapsto> Some (entry, Some new_live_until)))))))"

lemma bindM_if: "bindM (if c then m else n) f = (if c then bindM m f else bindM n f)"
  by simp

text \<open>\<open>extend_ttl\<close> with the computation of the new lifetime separated from its effect.\<close>

lemma extend_ttl_alt:
  "extend_ttl kc li key threshold extend_to =
     thenM (check_supported_ledger_key_type key)
     (if threshold > extend_to then throwM (Err Storage InvalidInput)
      else bindM (get_with_live_until_ledger kc key)
        (\<lambda>(entry, old_opt). bindM (a_ttl li key old_opt threshold extend_to) (\<lambda>upd.
           case upd of None \<Rightarrow> retM ()
           | Some n \<Rightarrow> bindM (getM (\<lambda>st. smap (fst st))) (\<lambda>m.
               bindM (onBudget (map_insert (storage_ctx kc) m key (Some (entry, Some n)))) setMap))))"
  unfolding extend_ttl_def a_ttl_def
  by (simp add: bindM_assoc bindM_if if_distrib [of "case_option _ _"] cong: if_cong)

section \<open>Programs over storage\<close>

text \<open>
  A transaction as the storage layer sees it: a sequence of operations in which every next one
  may depend on all the answers so far. Its trace is the list of answers.
\<close>

datatype ('p, 'e) storage_op =
    OGet "'p LedgerKey" | OHas "'p LedgerKey"
  | OPut "'p LedgerKey" "'e LedgerEntry" "u32 option" | ODel "'p LedgerKey"
  | OExtend "'p LedgerKey" u32 u32

datatype 'e storage_out = OutEntry "'e EntryWithLiveUntil" | OutBool bool | OutUnit

datatype ('p, 'e) storage_prog =
    Done
  | Do "('p, 'e) storage_op" "Error + 'e storage_out \<Rightarrow> ('p, 'e) storage_prog"

fun run_op :: "'p key_compare \<Rightarrow> LedgerInfo option \<Rightarrow> ('p, 'e) storage_op \<Rightarrow>
    ('p, 'e, 'e storage_out) storing" where
  "run_op kc li (OGet k) = bindM (get_with_live_until_ledger kc k) (\<lambda>e. retM (OutEntry e))"
| "run_op kc li (OHas k) = bindM (storage_has kc k) (\<lambda>x. retM (OutBool x))"
| "run_op kc li (OPut k e l) = thenM (storage_put kc k e l) (retM OutUnit)"
| "run_op kc li (ODel k) = thenM (storage_del kc k) (retM OutUnit)"
| "run_op kc li (OExtend k t x) = thenM (extend_ttl kc li k t x) (retM OutUnit)"

primrec run_prog :: "'p key_compare \<Rightarrow> LedgerInfo option \<Rightarrow> ('p, 'e) storage_prog \<Rightarrow>
    ('p, 'e) store \<times> BudgetImpl \<Rightarrow>
    (Error + 'e storage_out) list \<times> ('p, 'e) store \<times> BudgetImpl" where
  "run_prog kc li Done st = ([], st)"
| "run_prog kc li (Do c cont) st = (case run_op kc li c st of (r, st') \<Rightarrow>
     (case run_prog kc li (cont r) st' of (rs, st'') \<Rightarrow> (r # rs, st'')))"

fun a_op :: "('p, 'e) snapshot option \<Rightarrow> LedgerInfo option \<Rightarrow> ('p, 'e) storage_op \<Rightarrow>
    (('p, 'e) astate, 'e storage_out) hm" where
  "a_op snap li (OGet k) = bindM (bindM (a_get_full snap k) (\<lambda>r. okOrM r (Err Storage MissingValue)))
     (\<lambda>e. retM (OutEntry e))"
| "a_op snap li (OHas k) =
     bindM (bindM (a_get_full snap k) (\<lambda>v. retM (v \<noteq> None))) (\<lambda>x. retM (OutBool x))"
| "a_op snap li (OPut k e l) = thenM (a_put snap k (Some (e, l))) (retM OutUnit)"
| "a_op snap li (ODel k) = thenM (a_put snap k None) (retM OutUnit)"
| "a_op snap li (OExtend k t x) = thenM (a_extend snap li k t x) (retM OutUnit)"

primrec a_prog :: "('p, 'e) snapshot option \<Rightarrow> LedgerInfo option \<Rightarrow> ('p, 'e) storage_prog \<Rightarrow>
    ('p, 'e) astate \<Rightarrow> (Error + 'e storage_out) list \<times> ('p, 'e) astate" where
  "a_prog snap li Done st = ([], st)"
| "a_prog snap li (Do c cont) st = (case a_op snap li c st of (r, st') \<Rightarrow>
     (case a_prog snap li (cont r) st' of (rs, st'') \<Rightarrow> (r # rs, st'')))"

section \<open>Refinement of the abstract ledger\<close>

definition abs_store :: "('p, 'e) store \<Rightarrow> ('p, 'e) astate" where
  "abs_store s = (map_of (footprint s), map_of (smap s))"

abbreviation supported_key :: "'p LedgerKey \<Rightarrow> bool" where
  "supported_key k \<equiv> supported_type (key_variant k)"

definition store_wf :: "('p LedgerKey \<Rightarrow> 'o::linorder) \<Rightarrow> ('p, 'e) store \<Rightarrow> bool" where
  "store_wf g s \<longleftrightarrow> map_wf g (footprint s) \<and> map_wf g (smap s) \<and>
     (\<forall>k \<in> dom (map_of (footprint s)) \<union> dom (map_of (smap s)). supported_key k)"

definition small :: "('p, 'e) astate \<Rightarrow> bool" where
  "small st \<longleftrightarrow> card (dom (fst st)) < u32_MAX \<and> card (dom (snd st)) < u32_MAX"

text \<open>Abstract operations only ever add keys.\<close>

definition grows :: "('p, 'e) astate \<Rightarrow> ('p, 'e) astate \<Rightarrow> bool" where
  "grows st st' \<longleftrightarrow> (finite (dom (fst st)) \<longrightarrow> finite (dom (snd st)) \<longrightarrow>
     finite (dom (fst st')) \<and> finite (dom (snd st')) \<and>
     dom (fst st) \<subseteq> dom (fst st') \<and> dom (snd st) \<subseteq> dom (snd st'))"

abbreviation growM :: "(('p, 'e) astate, 'a) hm \<Rightarrow> bool" where
  "growM \<equiv> relM grows"

lemma grows_refl: "reflp grows" and grows_trans: "transp grows"
  unfolding reflp_def transp_def grows_def by (simp, meson order_trans)

text \<open>
  \<open>refM g md m a\<close>: from every well-formed store in mode \<open>md\<close> and every unlimited budget, as
  long as the maps stay below their capacity, the concrete operation answers exactly what the
  abstract one does and ends in a well-formed store that represents the abstract result.
\<close>

definition refM :: "('p LedgerKey \<Rightarrow> 'o::linorder) \<Rightarrow> ('p, 'e) FootprintMode \<Rightarrow>
    ('p, 'e, 'a) storing \<Rightarrow> (('p, 'e) astate, 'a) hm \<Rightarrow> bool" where
  "refM g md m a \<longleftrightarrow> (\<forall>s b. unlimited b \<longrightarrow> store_wf g s \<longrightarrow> mode s = md \<longrightarrow>
     small (snd (a (abs_store s))) \<longrightarrow>
     (\<exists>s' b'. m (s, b) = (fst (a (abs_store s)), (s', b')) \<and> unlimited b' \<and> store_wf g s' \<and>
        mode s' = md \<and> abs_store s' = snd (a (abs_store s))))"

lemma refM_D:
  "refM g md m a \<Longrightarrow> unlimited b \<Longrightarrow> store_wf g s \<Longrightarrow> mode s = md \<Longrightarrow> a (abs_store s) = (r, st) \<Longrightarrow>
   small st \<Longrightarrow> \<exists>s' b'. m (s, b) = (r, (s', b')) \<and> unlimited b' \<and> store_wf g s' \<and> mode s' = md \<and>
     abs_store s' = st"
  unfolding refM_def by (metis fst_conv snd_conv)

lemma pureM_checks [intro!, simp]:
  "pureM (check_supported_ledger_key_type k)" "pureM (check_supported_ledger_entry_type le)"
  by (auto simp: check_supported_ledger_key_type_def check_supported_ledger_entry_type_def)

lemmas growM_pure = relM_pure [OF grows_refl]

lemma growM_simps [intro!, simp]:
  "growM (retM x)" "growM (throwM e)" "growM (getM f)" "growM (guardM c e)" "growM (okOrM y e)"
  "growM (check_supported_ledger_key_type k)" "growM (check_supported_ledger_entry_type le)"
  by (auto intro!: growM_pure)

lemmas growM_bind [intro] = relM_bind [OF grows_trans]

lemma growM_access [intro!, simp]: "growM (a_access snap k ty)"
  by (cases snap) (auto simp: a_access_def relM_def grows_def modifyM_def recorded_def m_defs)

lemma growM_load [intro!, simp]: "growM (a_load snap k)"
  by (cases snap) (auto simp: a_load_def relM_def grows_def modifyM_def m_defs)

lemma growM_modify_put [intro!, simp]: "growM (modifyM (\<lambda>(fp, mp). (fp, mp(k \<mapsto> v))))"
  by (auto simp: relM_def grows_def modifyM_def)

lemma growM_get_full [intro!, simp]: "growM (a_get_full snap k)"
  unfolding a_get_full_def by (auto intro!: growM_bind split: option.split)

lemma growM_put [intro!, simp]: "growM (a_put snap k v)"
  unfolding a_put_def by (auto intro!: growM_bind split: option.split)

lemma store_wf_finite:
  "finite (dom (fst (abs_store s)))" "finite (dom (snd (abs_store s)))"
  by (simp_all add: abs_store_def finite_dom_map_of)

lemma small_mono:
  assumes "growM a" "finite (dom (fst st))" "finite (dom (snd st))" "small (snd (a st))"
  shows "small st"
proof -
  have "finite (dom (fst (snd (a st))))" "finite (dom (snd (snd (a st))))"
    "dom (fst st) \<subseteq> dom (fst (snd (a st)))" "dom (snd st) \<subseteq> dom (snd (snd (a st)))"
    using assms(1-3) unfolding relM_def grows_def by blast+
  with assms(4) show ?thesis unfolding small_def by (meson card_mono le_less_trans)
qed

lemma refM_ret [intro!, simp]: "refM g md (retM x) (retM x)"
  by (simp add: refM_def retM_def)

lemma refM_throw [intro!, simp]: "refM g md (throwM e) (throwM e)"
  by (simp add: refM_def throwM_def)

lemma refM_okOr [intro!, simp]: "refM g md (okOrM x e) (okOrM x e)"
  by (cases x) (simp_all add: okOrM_def)

lemma refM_check [intro!, simp]:
  "refM g md (check_supported_ledger_key_type k) (check_supported_ledger_key_type k)"
  "refM g md (check_supported_ledger_entry_type le) (check_supported_ledger_entry_type le)"
  by (auto simp: check_supported_ledger_key_type_def check_supported_ledger_entry_type_def)

lemma refM_bind [intro]:
  assumes m: "refM g md m a" and f: "\<And>x. refM g md (f x) (h x)" and grow: "\<And>x. growM (h x)"
    and "growM a"
  shows "refM g md (bindM m f) (bindM a h)"
  unfolding refM_def
proof (intro allI impI)
  fix s b assume pre: "unlimited b" "store_wf g s" "mode s = md"
    and sm: "small (snd (bindM a h (abs_store s)))"
  obtain r st where a: "a (abs_store s) = (r, st)" by (cases "a (abs_store s)")
  have fin: "finite (dom (fst st))" "finite (dom (snd st))"
    using \<open>growM a\<close> store_wf_finite [of s] a unfolding relM_def grows_def by (metis snd_conv)+
  have "small st"
  proof (cases r)
    case (Inr x)
    with sm a have "small (snd (h x st))" by (simp add: bindM_def)
    then show ?thesis by (rule small_mono [OF grow fin])
  qed (use sm a in \<open>simp add: bindM_def\<close>)
  with m pre a obtain s' b' where run: "m (s, b) = (r, (s', b'))" and
    post: "unlimited b'" "store_wf g s'" "mode s' = md" "abs_store s' = st"
    unfolding refM_def by fastforce
  show "\<exists>s' b'. bindM m f (s, b) = (fst (bindM a h (abs_store s)), (s', b')) \<and> unlimited b' \<and>
      store_wf g s' \<and> mode s' = md \<and> abs_store s' = snd (bindM a h (abs_store s))"
  proof (cases r)
    case (Inl e)
    with run post a show ?thesis by (auto simp: bindM_def)
  next
    case (Inr x)
    with sm a have "small (snd (h x (abs_store s')))" by (simp add: bindM_def post)
    with f [of x] post obtain s'' b'' where "f x (s', b') = (fst (h x st), (s'', b''))"
      "unlimited b''" "store_wf g s''" "mode s'' = md" "abs_store s'' = snd (h x st)"
      unfolding refM_def by (metis (no_types, lifting))
    with run Inr a show ?thesis by (simp add: bindM_def)
  qed
qed

lemma refM_with_ledger_info [intro]:
  "(\<And>l. refM g md (f l) (h l)) \<Longrightarrow> refM g md (with_ledger_info li f) (with_ledger_info li h)"
  by (cases li) (auto simp: with_ledger_info_def)

lemma growM_with_ledger_info [intro]: "(\<And>l. growM (h l)) \<Longrightarrow> growM (with_ledger_info li h)"
  by (cases li) (auto simp: with_ledger_info_def)

lemma refM_if [intro]: "refM g md m a \<Longrightarrow> refM g md n h \<Longrightarrow>
    refM g md (if c then m else n) (if c then a else h)"
  by simp

lemma growM_if [intro]: "growM m \<Longrightarrow> growM n \<Longrightarrow> growM (if c then m else n)"
  by simp

lemma growM_max_live [intro!, simp]: "growM (max_live_until_ledger li)"
  unfolding max_live_until_ledger_def by auto

lemma refM_max_live [intro!, simp]: "refM g md (max_live_until_ledger li) (max_live_until_ledger li)"
  unfolding max_live_until_ledger_def by auto

lemma pureM_with_ledger_info [intro]: "(\<And>l. pureM (h l)) \<Longrightarrow> pureM (with_ledger_info li h)"
  by (cases li) (auto simp: with_ledger_info_def)

lemma pureM_max_live [intro!, simp]: "pureM (max_live_until_ledger li)"
  unfolding max_live_until_ledger_def by auto

lemma pureM_ttl [intro!, simp]: "pureM (a_ttl li key old t e)"
  unfolding a_ttl_def
  by (intro pureM_bind pureM_with_ledger_info pureM_if pureM_simps pureM_max_live)
    (auto split: option.split ContractDataDurability.split)

lemmas growM_ttl [intro!, simp] = growM_pure [OF pureM_ttl]

lemma refM_ttl [intro!, simp]: "refM g md (a_ttl li key old t e) (a_ttl li key old t e)"
  unfolding a_ttl_def
  by (intro refM_bind refM_with_ledger_info refM_if refM_ret refM_throw refM_okOr refM_max_live
      growM_bind growM_with_ledger_info growM_if growM_simps growM_max_live)
    (auto split: option.split ContractDataDurability.split)

lemma growM_extend [intro!, simp]: "growM (a_extend snap li k t e)"
  unfolding a_extend_def
  by (intro growM_bind growM_if growM_simps growM_get_full)
    (auto intro!: growM_bind split: option.split)

lemma growM_op [intro!, simp]: "growM (a_op snap li c)"
  by (cases c) (auto intro!: growM_bind)

lemma a_prog_grows:
  "a_prog snap li c st = (rs, st') \<Longrightarrow> finite (dom (fst st)) \<Longrightarrow> finite (dom (snd st)) \<Longrightarrow>
   finite (dom (fst st')) \<and> finite (dom (snd st')) \<and>
   dom (fst st) \<subseteq> dom (fst st') \<and> dom (snd st) \<subseteq> dom (snd st')"
proof (induction c arbitrary: st rs)
  case (Do c cont)
  obtain r st1 where op: "a_op snap li c st = (r, st1)" by (cases "a_op snap li c st")
  have 1: "finite (dom (fst st1)) \<and> finite (dom (snd st1)) \<and>
      dom (fst st) \<subseteq> dom (fst st1) \<and> dom (snd st) \<subseteq> dom (snd st1)"
    using growM_op [of snap li c] Do.prems(2,3) op unfolding relM_def grows_def by (metis snd_conv)
  obtain rs' where "a_prog snap li (cont r) st1 = (rs', st')"
    using Do.prems(1) op by (auto split: prod.splits)
  from Do.IH [OF _ this] 1 show ?case by (meson order_trans rangeI)
qed simp

lemma a_prog_small:
  assumes "finite (dom (fst st))" "finite (dom (snd st))" "a_prog snap li c st = (rs, st')" "small st'"
  shows "small st"
  using a_prog_grows [OF assms(3,1,2)] assms(4) unfolding small_def
  by (meson card_mono le_less_trans)

text \<open>A snapshot that never fails, as a source, and the mode it belongs to.\<close>

definition src_of :: "('p, 'e) snapshot \<Rightarrow> ('p, 'e) snapshot_source" where
  "src_of sn = \<lparr>src_has = (\<lambda>k. Inr (sn k \<noteq> None)), src_get = (\<lambda>k. Inr (the (sn k)))\<rparr>"

definition mode_of :: "('p, 'e) snapshot option \<Rightarrow> ('p, 'e) FootprintMode" where
  "mode_of snap = (case snap of Some sn \<Rightarrow> Recording (src_of sn) | None \<Rightarrow> Enforcing)"

lemma refM_mode:
  "refM g md (f md) a \<Longrightarrow> refM g md (bindM (getM (\<lambda>st. mode (fst st))) f) a"
  by (simp add: refM_def)

section \<open>The contract of the storage keys\<close>

text \<open>
  Comparing two supported keys answers a fixed linear order and fails on an exhausted budget only:
  the values in the keys are within the depth limit and none is an XDR vector or map without
  content.
\<close>

locale storage_keys =
  fixes kc :: "'p key_compare" and g :: "'p LedgerKey \<Rightarrow> 'o::linorder"
  assumes rank_inj: "inj g"
    and sound: "kc a b s = (Inr ord, s') \<Longrightarrow> ord = cmp_of (g a) (g b)"
    and total: "supported_key a \<Longrightarrow> supported_key b \<Longrightarrow> totalM (kc a b)"
begin

lemma footprint_order: "total_key_order (footprint_ctx kc) g supported_key"
  by unfold_locales (auto simp: footprint_ctx_def rank_inj sound total)

lemma entry_type_total: "total_type entry_type"
  unfolding entry_type_def by (intro total_option total_pair) simp_all

lemma storage_order: "total_key_order (storage_ctx kc) g supported_key"
  by unfold_locales (auto simp: storage_ctx_def rank_inj sound total entry_type_total)

lemmas fp_get = total_key_order.get_total [OF footprint_order]
  key_order.get_refines [OF total_key_order.axioms(1) [OF footprint_order]]
lemmas fp_insert = total_key_order.insert_total [OF footprint_order]
  key_order.insert_refines [OF total_key_order.axioms(1) [OF footprint_order]]
lemmas sm_get = total_key_order.get_total [OF storage_order]
  key_order.get_refines [OF total_key_order.axioms(1) [OF storage_order]]
lemmas sm_contains = total_key_order.contains_key_total [OF storage_order]
  key_order.contains_key_refines [OF total_key_order.axioms(1) [OF storage_order]]
lemmas sm_insert = total_key_order.insert_total [OF storage_order]
  key_order.insert_refines [OF total_key_order.axioms(1) [OF storage_order]]

lemma good_keys: "(\<forall>k \<in> fst ` set m. supported_key k) \<longleftrightarrow> (\<forall>k \<in> dom (map_of m). supported_key k)"
  by (simp add: dom_map_of_conv_image_fst)

lemma map_wf_length: "map_wf g m \<Longrightarrow> length m = card (dom (map_of m))"
  unfolding dom_map_of_conv_image_fst
  using keys_sorted_distinct [of g m] distinct_card [of "map fst m"] by (simp add: map_wf_def)

lemma fp_get_run:
  assumes "store_wf g s" "supported_key k" "unlimited b"
  obtains b' where "onBudget (map_get (footprint_ctx kc) (footprint s) k) (s, b) =
      (Inr (map_of (footprint s) k), (s, b'))" "unlimited b'"
proof -
  have "map_wf g (footprint s)" "\<forall>k \<in> fst ` set (footprint s). supported_key k"
    using assms(1) unfolding store_wf_def good_keys by blast+
  with totalM_D [OF fp_get(1) assms(3)] fp_get(2) assms(2) obtain b' where
    "map_get (footprint_ctx kc) (footprint s) k b = (Inr (map_of (footprint s) k), b')" "unlimited b'"
    by metis
  then show thesis by (intro that [of b']) (simp_all add: onBudget_def zoomM_def)
qed

lemma sm_get_run:
  assumes "store_wf g s" "supported_key k" "unlimited b"
  obtains b' where "onBudget (map_get (storage_ctx kc) (smap s) k) (s, b) =
      (Inr (map_of (smap s) k), (s, b'))" "unlimited b'"
proof -
  have "map_wf g (smap s)" "\<forall>k \<in> fst ` set (smap s). supported_key k"
    using assms(1) unfolding store_wf_def good_keys by blast+
  with totalM_D [OF sm_get(1) assms(3)] sm_get(2) assms(2) obtain b' where
    "map_get (storage_ctx kc) (smap s) k b = (Inr (map_of (smap s) k), b')" "unlimited b'"
    by metis
  then show thesis by (intro that [of b']) (simp_all add: onBudget_def zoomM_def)
qed

lemma sm_contains_run:
  assumes "store_wf g s" "supported_key k" "unlimited b"
  obtains b' where "onBudget (map_contains_key (storage_ctx kc) (smap s) k) (s, b) =
      (Inr (map_of (smap s) k \<noteq> None), (s, b'))" "unlimited b'"
proof -
  have "map_wf g (smap s)" "\<forall>k \<in> fst ` set (smap s). supported_key k"
    using assms(1) unfolding store_wf_def good_keys by blast+
  with totalM_D [OF sm_contains(1) assms(3), of "smap s" k] assms(2) obtain r b' where
    run: "map_contains_key (storage_ctx kc) (smap s) k b = (Inr r, b')" "unlimited b'"
    and wf: "map_wf g (smap s)" by metis
  from sm_contains(2) [OF wf run(1)] run show thesis
    by (intro that [of b']) (simp_all add: onBudget_def zoomM_def domIff)
qed

lemma fp_insert_run:
  assumes wf: "store_wf g s" and k: "supported_key k" and b: "unlimited b"
    and room: "card (dom ((map_of (footprint s))(k \<mapsto> ty))) < u32_MAX"
  obtains fp' b' where
    "bindM (onBudget (map_insert (footprint_ctx kc) (footprint s) k ty)) setFootprint (s, b) =
      (Inr (), (s\<lparr>footprint := fp'\<rparr>, b'))" "unlimited b'" "store_wf g (s\<lparr>footprint := fp'\<rparr>)"
    "map_of fp' = (map_of (footprint s))(k \<mapsto> ty)"
proof -
  have m: "map_wf g (footprint s)" "\<forall>k \<in> fst ` set (footprint s). supported_key k"
    using wf unfolding store_wf_def good_keys by blast+
  have "card (dom (map_of (footprint s))) \<le> card (dom ((map_of (footprint s))(k \<mapsto> ty)))"
    by (intro card_mono) (auto simp: finite_dom_map_of)
  then have "length (footprint s) < u32_MAX" using room map_wf_length [OF m(1)] by simp
  with totalM_D [OF fp_insert(1) b] m k obtain fp' b' where ins:
    "map_insert (footprint_ctx kc) (footprint s) k ty b = (Inr fp', b')" and b': "unlimited b'"
    by metis
  have fp': "map_wf g fp'" "map_of fp' = (map_of (footprint s))(k \<mapsto> ty)"
    using fp_insert(2) [OF m(1) ins] by auto
  show thesis
  proof (rule that [of fp' b'])
    show "store_wf g (s\<lparr>footprint := fp'\<rparr>)" using wf k fp' by (auto simp: store_wf_def)
  qed (use ins b' fp' in \<open>simp_all add: onBudget_def zoomM_def bindM_def setFootprint_def modifyM_def\<close>)
qed

lemma sm_insert_run:
  assumes wf: "store_wf g s" and k: "supported_key k" and b: "unlimited b"
    and room: "card (dom ((map_of (smap s))(k \<mapsto> v))) < u32_MAX"
  obtains m' b' where
    "bindM (onBudget (map_insert (storage_ctx kc) (smap s) k v)) setMap (s, b) =
      (Inr (), (s\<lparr>smap := m'\<rparr>, b'))" "unlimited b'" "store_wf g (s\<lparr>smap := m'\<rparr>)"
    "map_of m' = (map_of (smap s))(k \<mapsto> v)"
proof -
  have m: "map_wf g (smap s)" "\<forall>k \<in> fst ` set (smap s). supported_key k"
    using wf unfolding store_wf_def good_keys by blast+
  have "card (dom (map_of (smap s))) \<le> card (dom ((map_of (smap s))(k \<mapsto> v)))"
    by (intro card_mono) (auto simp: finite_dom_map_of)
  then have "length (smap s) < u32_MAX" using room map_wf_length [OF m(1)] by simp
  with totalM_D [OF sm_insert(1) b] m k obtain m' b' where ins:
    "map_insert (storage_ctx kc) (smap s) k v b = (Inr m', b')" and b': "unlimited b'"
    by metis
  have m': "map_wf g m'" "map_of m' = (map_of (smap s))(k \<mapsto> v)"
    using sm_insert(2) [OF m(1) ins] by auto
  show thesis
  proof (rule that [of m' b'])
    show "store_wf g (s\<lparr>smap := m'\<rparr>)" using wf k m' by (auto simp: store_wf_def)
  qed (use ins b' m' in \<open>simp_all add: onBudget_def zoomM_def bindM_def setMap_def modifyM_def\<close>)
qed

lemma enforce_run:
  assumes "store_wf g s" "supported_key k" "unlimited b"
  obtains b' where "enforce_access kc k ty (s, b) =
      (if allowed (map_of (footprint s)) k ty then Inr () else Inl (Err Storage ExceededLimit), (s, b'))"
    "unlimited b'"
proof -
  obtain b' where get: "onBudget (map_get (footprint_ctx kc) (footprint s) k) (s, b) =
      (Inr (map_of (footprint s) k), (s, b'))" "unlimited b'"
    using fp_get_run [OF assms] by blast
  then show thesis
    by (intro that [of b'])
      (auto simp: enforce_access_def allowed_def m_defs split: option.split AccessType.split)
qed

lemma refM_enforce:
  assumes "supported_key k"
  shows "refM g Enforcing (enforce_access kc k ty) (a_access None k ty)"
  unfolding refM_def
proof (intro allI impI)
  fix s :: "('p, 'e) store" and b
  assume pre: "unlimited b" "store_wf g s" "mode s = Enforcing"
  obtain b' where "enforce_access kc k ty (s, b) =
      (if allowed (map_of (footprint s)) k ty then Inr () else Inl (Err Storage ExceededLimit), (s, b'))"
    "unlimited b'" using enforce_run [OF pre(2) assms pre(1)] by blast
  with pre show "\<exists>s' b'. enforce_access kc k ty (s, b) = (fst (a_access None k ty (abs_store s)), (s', b'))
      \<and> unlimited b' \<and> store_wf g s' \<and> mode s' = Enforcing
      \<and> abs_store s' = snd (a_access None k ty (abs_store s))"
    by (auto simp: a_access_def abs_store_def guardM_def retM_apply throwM_apply)
qed

lemma refM_record:
  assumes "supported_key k"
  shows "refM g (Recording (src :: ('p, 'e) snapshot_source)) (record_access kc k ty)
    (a_access (Some sn) k ty)"
  unfolding refM_def
proof (intro allI impI)
  fix s :: "('p, 'e) store" and b
  assume pre: "unlimited b" "store_wf g s" "mode s = Recording src"
    and sm: "small (snd (a_access (Some sn) k ty (abs_store s)))"
  let ?fp = "map_of (footprint s)"
  have abs: "a_access (Some sn) k ty (abs_store s) = (Inr (), (recorded ?fp k ty, map_of (smap s)))"
    by (simp add: a_access_def modifyM_def abs_store_def)
  obtain b1 where get: "onBudget (map_get (footprint_ctx kc) (footprint s) k) (s, b) =
      (Inr (?fp k), (s, b1))" and b1: "unlimited b1"
    using fp_get_run [OF pre(2) assms pre(1)] by blast
  have stay: "recorded ?fp k ty = ?fp" if "?fp k = Some ReadWrite \<or> ?fp k = Some ty"
    using that by (auto simp: recorded_def fun_eq_iff)
  have upd: "recorded ?fp k ty = ?fp(k \<mapsto> ty)" if "?fp k \<noteq> Some ReadWrite"
    using that by (simp add: recorded_def)
  have ins: "\<exists>s' b'. bindM (onBudget (map_insert (footprint_ctx kc) (footprint s) k ty)) setFootprint
      (s, b1) = (Inr (), (s', b')) \<and> unlimited b' \<and> store_wf g s' \<and> mode s' = Recording src
      \<and> abs_store s' = (recorded ?fp k ty, map_of (smap s))" if "?fp k \<noteq> Some ReadWrite"
  proof -
    have "card (dom (?fp(k \<mapsto> ty))) < u32_MAX" using sm upd [OF that] by (simp add: abs small_def)
    from fp_insert_run [OF pre(2) assms b1 this] pre(3) upd [OF that] show ?thesis
      by (metis abs_store_def fst_conv snd_conv select_convs(1-3) surjective update_convs(1))
  qed
  show "\<exists>s' b'. record_access kc k ty (s, b) = (fst (a_access (Some sn) k ty (abs_store s)), (s', b'))
      \<and> unlimited b' \<and> store_wf g s' \<and> mode s' = Recording src
      \<and> abs_store s' = snd (a_access (Some sn) k ty (abs_store s))"
  proof (cases "?fp k = Some ReadWrite \<or> ?fp k = Some ty")
    case True
    then have "record_access kc k ty (s, b) = (Inr (), (s, b1))"
      by (cases ty) (auto simp: record_access_def bindM_run get retM_def split: AccessType.split)
    with pre b1 stay [OF True] show ?thesis unfolding abs by (auto simp: abs_store_def)
  next
    case False
    then have "record_access kc k ty (s, b) =
        bindM (onBudget (map_insert (footprint_ctx kc) (footprint s) k ty)) setFootprint (s, b1)"
      by (auto simp: record_access_def bindM_run get split: option.split AccessType.split)
    with ins False show ?thesis by (simp add: abs)
  qed
qed

lemma refM_load:
  fixes sn :: "('p, 'e) snapshot"
  assumes "supported_key k"
  shows "refM g (Recording (src_of sn)) (read_through kc (src_of sn) k) (a_load (Some sn) k)"
  unfolding refM_def
proof (intro allI impI)
  fix s :: "('p, 'e) store" and b
  assume pre: "unlimited b" "store_wf g s" "mode s = Recording (src_of sn)"
    and sm: "small (snd (a_load (Some sn) k (abs_store s)))"
  let ?m = "map_of (smap s)"
  have abs: "a_load (Some sn) k (abs_store s) =
      (Inr (), (map_of (footprint s), if ?m k = None then ?m(k \<mapsto> sn k) else ?m))"
    by (simp add: a_load_def modifyM_def abs_store_def)
  obtain b1 where has: "onBudget (map_contains_key (storage_ctx kc) (smap s) k) (s, b) =
      (Inr (?m k \<noteq> None), (s, b1))" and b1: "unlimited b1"
    using sm_contains_run [OF pre(2) assms pre(1)] by blast
  have val: "bindM (ofSum (src_has (src_of sn) k)) (\<lambda>h. if h
      then bindM (ofSum (src_get (src_of sn) k)) (\<lambda>e. retM (Some e)) else retM None) = retM (sn k)"
    by (cases "sn k") (auto simp: src_of_def ofSum_def)
  show "\<exists>s' b'. read_through kc (src_of sn) k (s, b) = (fst (a_load (Some sn) k (abs_store s)), (s', b'))
      \<and> unlimited b' \<and> store_wf g s' \<and> mode s' = Recording (src_of sn)
      \<and> abs_store s' = snd (a_load (Some sn) k (abs_store s))"
  proof (cases "?m k = None")
    case False
    then have "read_through kc (src_of sn) k (s, b) = (Inr (), (s, b1))"
      by (simp add: read_through_def bindM_run has retM_def)
    with False pre b1 show ?thesis unfolding abs by (auto simp: abs_store_def)
  next
    case True
    then have none: "onBudget (map_contains_key (storage_ctx kc) (smap s) k) (s, b) =
        (Inr False, (s, b1))" using has by simp
    have run: "read_through kc (src_of sn) k (s, b) =
        bindM (onBudget (map_insert (storage_ctx kc) (smap s) k (sn k))) setMap (s, b1)"
      unfolding read_through_def getM_bind fst_conv by (subst bindM_run, rule none) (simp add: val)
    have "card (dom (?m(k \<mapsto> sn k))) < u32_MAX" using sm True unfolding abs by (simp add: small_def)
    from sm_insert_run [OF pre(2) assms b1 this] obtain m' b' where
      "bindM (onBudget (map_insert (storage_ctx kc) (smap s) k (sn k))) setMap (s, b1) =
        (Inr (), (s\<lparr>smap := m'\<rparr>, b'))" "unlimited b'" "store_wf g (s\<lparr>smap := m'\<rparr>)"
      "map_of m' = ?m(k \<mapsto> sn k)" .
    with run pre(3) True show ?thesis unfolding abs by (auto simp: abs_store_def)
  qed
qed

lemma refM_insert:
  fixes md :: "('p, 'e) FootprintMode"
  assumes "supported_key k"
  shows "refM g md (bindM (getM (\<lambda>st. smap (fst st))) (\<lambda>m.
      bindM (onBudget (map_insert (storage_ctx kc) m k v)) setMap))
    (modifyM (\<lambda>(fp, mp). (fp, mp(k \<mapsto> v))))"
  unfolding refM_def
proof (intro allI impI)
  fix s :: "('p, 'e) store" and b
  assume pre: "unlimited b" "store_wf g s" "mode s = md"
    and sm: "small (snd (modifyM (\<lambda>(fp, mp). (fp, mp(k \<mapsto> v))) (abs_store s)))"
  have "card (dom ((map_of (smap s))(k \<mapsto> v))) < u32_MAX"
    using sm by (simp add: modifyM_def abs_store_def small_def)
  from sm_insert_run [OF pre(2) assms pre(1) this] obtain m' b' where
    "bindM (onBudget (map_insert (storage_ctx kc) (smap s) k v)) setMap (s, b) =
      (Inr (), (s\<lparr>smap := m'\<rparr>, b'))" "unlimited b'" "store_wf g (s\<lparr>smap := m'\<rparr>)"
    "map_of m' = (map_of (smap s))(k \<mapsto> v)" .
  with pre(3) show "\<exists>s' b'. bindM (getM (\<lambda>st. smap (fst st)))
      (\<lambda>m. bindM (onBudget (map_insert (storage_ctx kc) m k v)) setMap) (s, b) =
      (fst (modifyM (\<lambda>(fp, mp). (fp, mp(k \<mapsto> v))) (abs_store s)), (s', b')) \<and> unlimited b' \<and>
      store_wf g s' \<and> mode s' = md \<and>
      abs_store s' = snd (modifyM (\<lambda>(fp, mp). (fp, mp(k \<mapsto> v))) (abs_store s))"
    by (auto simp: modifyM_def abs_store_def)
qed

lemma refM_lookup:
  fixes md :: "('p, 'e) FootprintMode"
  assumes "supported_key k"
  shows "refM g md (bindM (getM (\<lambda>st. smap (fst st))) (\<lambda>m. onBudget (map_get (storage_ctx kc) m k)))
    (getM (\<lambda>st. snd st k))"
  unfolding refM_def
proof (intro allI impI)
  fix s :: "('p, 'e) store" and b
  assume pre: "unlimited b" "store_wf g s" "mode s = md"
  from sm_get_run [OF pre(2) assms pre(1)] obtain b' where
    "onBudget (map_get (storage_ctx kc) (smap s) k) (s, b) = (Inr (map_of (smap s) k), (s, b'))"
    "unlimited b'" .
  with pre(2,3) show "\<exists>s' b'. bindM (getM (\<lambda>st. smap (fst st))) (\<lambda>m. onBudget (map_get (storage_ctx kc) m k)) (s, b)
      = (fst (getM (\<lambda>st. snd st k) (abs_store s)), (s', b')) \<and> unlimited b' \<and> store_wf g s' \<and>
      mode s' = md \<and> abs_store s' = snd (getM (\<lambda>st. snd st k) (abs_store s))"
    by (auto simp: getM_def abs_store_def bindM_def)
qed

lemma refM_prepare:
  assumes "supported_key k"
  shows "refM g (mode_of snap) (prepare_read_only_access kc k)
    (thenM (a_access snap k ReadOnly) (a_load snap k))"
proof (cases snap)
  case None
  with refM_enforce [OF assms] show ?thesis
    by (auto simp: None mode_of_def prepare_read_only_access_def a_load_def intro!: refM_mode)
next
  case (Some sn)
  with refM_record [OF assms] refM_load [OF assms] show ?thesis
    by (auto simp: mode_of_def prepare_read_only_access_def intro!: refM_mode refM_bind)
qed

lemma refM_read:
  assumes "supported_key k" "\<And>r. refM g (mode_of snap) (f r) (h r)" "\<And>r. growM (h r)"
  shows "refM g (mode_of snap)
    (thenM (prepare_read_only_access kc k) (bindM (getM (\<lambda>st. smap (fst st)))
       (\<lambda>m. bindM (onBudget (map_get (storage_ctx kc) m k)) f)))
    (thenM (thenM (a_access snap k ReadOnly) (a_load snap k)) (bindM (getM (\<lambda>st. snd st k)) h))"
proof -
  have "refM g (mode_of snap)
    (bindM (bindM (getM (\<lambda>st. smap (fst st))) (\<lambda>m. onBudget (map_get (storage_ctx kc) m k))) f)
    (bindM (getM (\<lambda>st. snd st k)) h)"
    by (intro refM_bind refM_lookup assms growM_simps)
  then show ?thesis unfolding bindM_assoc [of "getM _"]
    by (rule refM_bind [OF refM_prepare [OF assms(1)]]) (auto intro!: growM_bind assms)
qed

lemma refM_get_full: "refM g (mode_of snap) (try_get_full kc k) (a_get_full snap k)"
proof (cases "supported_key k")
  case True
  then show ?thesis unfolding try_get_full_def a_get_full_def
    by (simp add: check_supported_ledger_key_type_def, intro refM_read) (auto split: option.split)
qed (simp add: try_get_full_def a_get_full_def check_supported_ledger_key_type_def)

lemma refM_has:
  "refM g (mode_of snap) (storage_has kc k) (bindM (a_get_full snap k) (\<lambda>v. retM (v \<noteq> None)))"
proof (cases "supported_key k")
  case True
  have eq: "bindM (a_get_full snap k) (\<lambda>v. retM (v \<noteq> None)) =
      thenM (thenM (a_access snap k ReadOnly) (a_load snap k)) (bindM (getM (\<lambda>st. snd st k))
        (\<lambda>r. bindM (okOrM r (Err Storage InternalError)) (\<lambda>v. retM (v \<noteq> None))))"
    by (simp add: a_get_full_def True check_supported_ledger_key_type_def bindM_assoc okOrM_def)
  show ?thesis unfolding storage_has_def eq using True
    by (simp add: check_supported_ledger_key_type_def, intro refM_read) auto
qed (simp add: storage_has_def a_get_full_def check_supported_ledger_key_type_def)

lemma refM_put: "refM g (mode_of snap) (put_opt kc k v) (a_put snap k v)"
proof (cases "supported_key k")
  case True
  have acc: "refM g (mode_of snap) (bindM (getM (\<lambda>st. mode (fst st))) (\<lambda>md. case md of
        Recording _ \<Rightarrow> record_access kc k ReadWrite | Enforcing \<Rightarrow> enforce_access kc k ReadWrite))
      (a_access snap k ReadWrite)"
    using refM_record [OF True] refM_enforce [OF True]
    by (cases snap) (auto simp: mode_of_def intro!: refM_mode)
  have ent: "refM g (mode_of snap)
      (case v of Some le \<Rightarrow> check_supported_ledger_entry_type (fst le) | None \<Rightarrow> retM ())
      (case v of Some le \<Rightarrow> check_supported_ledger_entry_type (fst le) | None \<Rightarrow> retM ())"
    by (auto split: option.split)
  show ?thesis unfolding put_opt_def a_put_def
    by (rule refM_bind [OF refM_check(1)], rule refM_bind [OF ent], rule refM_bind [OF acc],
        rule refM_insert [OF True]) (auto intro!: growM_bind split: option.split)
qed (simp add: put_opt_def a_put_def check_supported_ledger_key_type_def)

lemma refM_extend:
  fixes snap :: "('p, 'e) snapshot option"
  shows "refM g (mode_of snap) (extend_ttl kc li k t e) (a_extend snap li k t e)"
proof (cases "supported_key k \<and> t \<le> e")
  case True
  have "refM g (mode_of snap) (case x of (entry, old) \<Rightarrow> bindM (a_ttl li k old t e) (\<lambda>upd. case upd of
        None \<Rightarrow> retM ()
      | Some n \<Rightarrow> bindM (getM (\<lambda>st. smap (fst st))) (\<lambda>m.
          bindM (onBudget (map_insert (storage_ctx kc) m k (Some (entry, Some n)))) setMap)))
    (case x of (entry, old) \<Rightarrow> bindM (a_ttl li k old t e) (\<lambda>upd. case upd of
        None \<Rightarrow> retM ()
      | Some n \<Rightarrow> modifyM (\<lambda>(fp, mp). (fp, mp(k \<mapsto> Some (entry, Some n))))))"
    for x :: "'e EntryWithLiveUntil"
    using True refM_insert [of k] by (cases x) (auto intro!: refM_bind split: option.split)
  moreover have "growM (case x of (entry, old) \<Rightarrow> bindM (a_ttl li k old t e) (\<lambda>upd. case upd of
        None \<Rightarrow> retM ()
      | Some n \<Rightarrow> modifyM (\<lambda>(fp, mp). (fp, mp(k \<mapsto> Some (entry, Some n))))))"
    for x :: "'e EntryWithLiveUntil"
    by (cases x) (auto intro!: growM_bind split: option.split)
  ultimately show ?thesis unfolding extend_ttl_alt a_extend_def get_with_live_until_ledger_def
    by (intro refM_bind refM_check refM_if refM_throw refM_get_full refM_okOr
        growM_bind growM_if growM_simps growM_get_full)
qed (auto simp: extend_ttl_alt a_extend_def check_supported_ledger_key_type_def not_le)

lemma refM_op: "refM g (mode_of snap) (run_op kc li c) (a_op snap li c)"
proof (cases c)
  case (OGet k)
  then show ?thesis unfolding get_with_live_until_ledger_def
    by (simp add: get_with_live_until_ledger_def)
      (intro refM_bind refM_get_full refM_okOr refM_ret growM_bind growM_simps growM_get_full)
next
  case (OHas k)
  then show ?thesis
    by (simp only: run_op.simps a_op.simps) (intro refM_bind refM_has refM_ret growM_bind growM_simps growM_get_full)
next
  case (OPut k e l)
  then show ?thesis by (simp add: storage_put_def) (intro refM_bind refM_put refM_ret growM_simps growM_put)
next
  case (ODel k)
  then show ?thesis by (simp add: storage_del_def) (intro refM_bind refM_put refM_ret growM_simps growM_put)
next
  case (OExtend k t x)
  then show ?thesis by simp (intro refM_bind refM_extend refM_ret growM_simps growM_extend)
qed

text \<open>The refinement of whole programs.\<close>

lemma run_prog_refines:
  assumes "unlimited b" "store_wf g s" "mode s = mode_of snap"
    "a_prog snap li c (abs_store s) = (rs, st)" "small st"
  shows "\<exists>s' b'. run_prog kc li c (s, b) = (rs, (s', b')) \<and> store_wf g s' \<and> abs_store s' = st"
  using assms
proof (induction c arbitrary: s b rs)
  case (Do c cont)
  obtain r st1 where op: "a_op snap li c (abs_store s) = (r, st1)" by (cases "a_op snap li c (abs_store s)")
  obtain rs' st2 where rest: "a_prog snap li (cont r) st1 = (rs', st2)"
    by (cases "a_prog snap li (cont r) st1")
  have rs: "rs = r # rs'" "st2 = st" using Do.prems(4) op rest by simp_all
  have fin: "finite (dom (fst st1))" "finite (dom (snd st1))"
    using growM_op [of snap li c] store_wf_finite [of s] op unfolding relM_def grows_def by (metis snd_conv)+
  have "small st1" using a_prog_small [OF fin rest] Do.prems(5) rs by simp
  then obtain s1 b1 where "run_op kc li c (s, b) = (r, (s1, b1))" "unlimited b1" "store_wf g s1"
    "mode s1 = mode_of snap" "abs_store s1 = st1"
    using refM_op [of snap li c] Do.prems(1-3) op unfolding refM_def by fastforce
  with Do.IH [of "cont r" b1 s1 rs'] rest Do.prems(5) rs show ?case by auto
qed auto

end

section \<open>A recorded footprint is enough\<close>

definition covers :: "('k \<rightharpoonup> AccessType) \<Rightarrow> ('k \<rightharpoonup> AccessType) \<Rightarrow> bool" where
  "covers fp f \<longleftrightarrow> (\<forall>k. (fp k \<noteq> None \<longrightarrow> f k \<noteq> None) \<and> (fp k = Some ReadWrite \<longrightarrow> f k = Some ReadWrite))"

definition same_view :: "('p, 'e) snapshot \<Rightarrow> ('p LedgerKey \<rightharpoonup> AccessType) \<Rightarrow>
    ('p LedgerKey \<rightharpoonup> 'e EntryWithLiveUntil option) \<Rightarrow>
    ('p LedgerKey \<rightharpoonup> 'e EntryWithLiveUntil option) \<Rightarrow> bool" where
  "same_view sn f mp me \<longleftrightarrow> (\<forall>k \<in> dom f. me k = (case mp k of Some v \<Rightarrow> Some v | None \<Rightarrow> Some (sn k)))"

lemma covers_refl [simp]: "covers fp fp"
  by (simp add: covers_def)

lemma covers_trans: "covers a b \<Longrightarrow> covers b c \<Longrightarrow> covers a c"
  by (auto simp: covers_def)

lemma covers_recorded: "covers fp (recorded fp k ty)"
  by (auto simp: covers_def recorded_def)

lemma recorded_allowed: "covers (recorded fp k ty) f \<Longrightarrow> allowed f k ty \<and> k \<in> dom f"
  by (cases ty; cases "f k") (auto simp: covers_def recorded_def allowed_def split: if_splits
      intro: AccessType.exhaust)

abbreviation coverM :: "(('p, 'e) astate, 'a) hm \<Rightarrow> bool" where
  "coverM \<equiv> relM (\<lambda>st st'. covers (fst st) (fst st'))"

lemmas coverM_pure = relM_pure [of "\<lambda>st st'. covers (fst st) (fst st')", OF reflpI, OF covers_refl]

lemma coverM_bind [intro]: "coverM a \<Longrightarrow> (\<And>x. coverM (f x)) \<Longrightarrow> coverM (bindM a f)"
  by (rule relM_bind) (auto simp: transp_def intro: covers_trans)

lemma coverM_simps [intro!, simp]:
  "coverM (modifyM (\<lambda>(fp, mp). (fp, h mp)))" "coverM (a_access snap k ty)" "coverM (a_load snap k)"
  by (auto simp: relM_def modifyM_def a_access_def a_load_def m_defs covers_recorded split: option.split)

lemma coverM_basic [intro!, simp]:
  "coverM (retM x)" "coverM (throwM e)" "coverM (getM f)" "coverM (okOrM y e)"
  "coverM (check_supported_ledger_key_type k)" "coverM (check_supported_ledger_entry_type le)"
  "coverM (a_ttl li key old t x')"
  by (rule coverM_pure, simp)+

lemma coverM_get_full [intro!, simp]: "coverM (a_get_full snap k)"
  unfolding a_get_full_def by (auto intro!: coverM_bind split: option.split)

lemma coverM_put [intro!, simp]: "coverM (a_put snap k v)"
  unfolding a_put_def by (auto intro!: coverM_bind split: option.split)

lemma coverM_extend [intro!, simp]: "coverM (a_extend snap li k t e)"
  unfolding a_extend_def by (auto intro!: coverM_bind split: option.split)

lemma coverM_op: "coverM (a_op snap li c)"
  by (cases c) (auto intro!: coverM_bind)

text \<open>
  \<open>simM\<close>: if the recording step ends with a footprint that \<open>f\<close> covers, then from the same view
  of the ledger the enforcing step under \<open>f\<close> gives the same answer and keeps the views equal.
\<close>

definition simM :: "('p, 'e) snapshot \<Rightarrow> ('p LedgerKey \<rightharpoonup> AccessType) \<Rightarrow>
    (('p, 'e) astate, 'a) hm \<Rightarrow> (('p, 'e) astate, 'a) hm \<Rightarrow> bool" where
  "simM sn f r e \<longleftrightarrow> (\<forall>fp mp me x fp' mp'. r (fp, mp) = (x, (fp', mp')) \<longrightarrow> covers fp' f \<longrightarrow>
     same_view sn f mp me \<longrightarrow> (\<exists>me'. e (f, me) = (x, (f, me')) \<and> same_view sn f mp' me'))"

lemma simM_ret: "simM sn f (retM x) (retM x)"
  by (auto simp: simM_def retM_def)

lemma simM_pure:
  assumes "\<And>st. r st = (x, st)" "\<And>st. e st = (x, st)"
  shows "simM sn f r e"
  using assms by (auto simp: simM_def)

lemma simM_bind:
  assumes "simM sn f r e" "\<And>x. simM sn f (r' x) (e' x)" "\<And>x. coverM (r' x)"
  shows "simM sn f (bindM r r') (bindM e e')"
  unfolding simM_def
proof (intro allI impI)
  fix fp mp me y fp'' mp''
  assume run: "bindM r r' (fp, mp) = (y, (fp'', mp''))" and cov: "covers fp'' f"
    and view: "same_view sn f mp me"
  obtain x fp' mp' where 1: "r (fp, mp) = (x, (fp', mp'))" by (cases "r (fp, mp)") auto
  show "\<exists>me'. bindM e e' (f, me) = (y, (f, me')) \<and> same_view sn f mp'' me'"
  proof (cases x)
    case (Inl err)
    with run 1 have "y = Inl err" "fp'' = fp'" "mp'' = mp'" by (simp_all add: bindM_def)
    with assms(1) 1 Inl cov view show ?thesis unfolding simM_def by (fastforce simp: bindM_def)
  next
    case (Inr z)
    with run 1 have 2: "r' z (fp', mp') = (y, (fp'', mp''))" by (simp add: bindM_def)
    then have "covers fp' fp''" using assms(3) [of z] unfolding relM_def by (metis fst_conv snd_conv)
    then have "covers fp' f" using cov by (rule covers_trans)
    with assms(1) 1 view obtain me' where "e (f, me) = (x, (f, me'))" "same_view sn f mp' me'"
      unfolding simM_def by blast
    with assms(2) [of z] 2 cov Inr show ?thesis unfolding simM_def by (fastforce simp: bindM_def)
  qed
qed

lemma simM_refl_pure: "(\<exists>x. \<forall>st. a st = (x, st)) \<Longrightarrow> simM sn f a a"
  by (auto intro: simM_pure)

lemma simM_basic [intro!, simp]:
  "simM sn f (throwM e) (throwM e)" "simM sn f (retM x) (retM x)" "simM sn f (okOrM y e) (okOrM y e)"
  "simM sn f (check_supported_ledger_key_type k) (check_supported_ledger_key_type k)"
  "simM sn f (check_supported_ledger_entry_type le) (check_supported_ledger_entry_type le)"
  by (auto intro!: simM_refl_pure simp: m_defs check_supported_ledger_key_type_def
      check_supported_ledger_entry_type_def split: option.split)

lemma simM_if: "simM sn f m a \<Longrightarrow> simM sn f n h \<Longrightarrow>
    simM sn f (if c then m else n) (if c then a else h)"
  by simp

lemma simM_with_ledger_info:
  "(\<And>l. simM sn f (m l) (h l)) \<Longrightarrow> simM sn f (with_ledger_info li m) (with_ledger_info li h)"
  by (cases li) (auto simp: with_ledger_info_def)

lemma coverM_misc [intro!, simp]:
  "coverM (max_live_until_ledger li)" "coverM (with_ledger_info li (\<lambda>l. retM (q l)))"
  "coverM (with_ledger_info li (\<lambda>l. okOrM (q' l) e))"
  by (auto intro!: coverM_pure pureM_with_ledger_info)

lemma coverM_if: "coverM m \<Longrightarrow> coverM n \<Longrightarrow> coverM (if c then m else n)"
  by simp

lemma simM_ttl: "simM sn f (a_ttl li key old t e) (a_ttl li key old t e)"
  unfolding a_ttl_def max_live_until_ledger_def
  by (intro simM_bind simM_with_ledger_info simM_if simM_basic coverM_bind coverM_if coverM_basic
      coverM_misc) (auto split: option.split ContractDataDurability.split)

text \<open>The accesses themselves.\<close>

lemma simM_read:
  assumes "\<And>v. simM sn f (r v) (e v)" "\<And>v. coverM (r v)"
  shows "simM sn f
    (thenM (thenM (a_access (Some sn) k ReadOnly) (a_load (Some sn) k)) (bindM (getM (\<lambda>st. snd st k)) r))
    (thenM (thenM (a_access None k ReadOnly) (a_load None k)) (bindM (getM (\<lambda>st. snd st k)) e))"
  unfolding simM_def
proof (intro allI impI)
  fix fp mp me y fp'' mp''
  let ?fp = "recorded fp k ReadOnly" and ?mp = "if mp k = None then mp(k \<mapsto> sn k) else mp"
  assume "thenM (thenM (a_access (Some sn) k ReadOnly) (a_load (Some sn) k))
      (bindM (getM (\<lambda>st. snd st k)) r) (fp, mp) = (y, (fp'', mp''))"
    and cov: "covers fp'' f" and view: "same_view sn f mp me"
  then have run: "r (?mp k) (?fp, ?mp) = (y, (fp'', mp''))"
    by (simp add: a_access_def a_load_def bindM_assoc)
  then have "covers ?fp fp''" using assms(2) unfolding relM_def by (metis fst_conv snd_conv)
  then have ok: "allowed f k ReadOnly" "k \<in> dom f"
    using recorded_allowed [OF covers_trans [OF _ cov]] by simp_all
  have view': "same_view sn f ?mp me" using view by (auto simp: same_view_def)
  have "me k = ?mp k" using view ok(2) by (auto simp: same_view_def split: option.splits)
  then have "thenM (thenM (a_access None k ReadOnly) (a_load None k))
      (bindM (getM (\<lambda>st. snd st k)) e) (f, me) = e (?mp k) (f, me)"
    using ok(1) by (simp add: a_access_def a_load_def guardM_def bindM_assoc)
  with assms(1) run cov view' show "\<exists>me'. thenM (thenM (a_access None k ReadOnly) (a_load None k))
      (bindM (getM (\<lambda>st. snd st k)) e) (f, me) = (y, (f, me')) \<and> same_view sn f mp'' me'"
    unfolding simM_def by metis
qed

lemma simM_write:
  "simM sn f (thenM (a_access (Some sn) k ReadWrite) (modifyM (\<lambda>(fp, mp). (fp, mp(k \<mapsto> v)))))
    (thenM (a_access None k ReadWrite) (modifyM (\<lambda>(fp, mp). (fp, mp(k \<mapsto> v)))))"
  by (auto simp: simM_def a_access_def modifyM_apply bindM_assoc guardM_def same_view_def
      dest!: recorded_allowed)

lemma simM_get_full: "simM sn f (a_get_full (Some sn) k) (a_get_full None k)"
  unfolding a_get_full_def
  by (rule simM_bind, simp, rule simM_read) (auto intro!: coverM_bind split: option.split)

lemma simM_put: "simM sn f (a_put (Some sn) k v) (a_put None k v)"
  unfolding a_put_def
  by (rule simM_bind, simp, rule simM_bind, simp split: option.split, rule simM_write)
    (auto intro!: coverM_bind split: option.split)

lemma simM_effect:
  assumes "k \<in> dom f"
  shows "simM sn f (modifyM (\<lambda>(fp, mp). (fp, mp(k \<mapsto> v)))) (modifyM (\<lambda>(fp, mp). (fp, mp(k \<mapsto> v))))"
  using assms by (auto simp: simM_def modifyM_apply same_view_def)

lemma simM_access_absent:
  assumes "k \<notin> dom f" "\<And>x. coverM (K x)"
  shows "simM sn f (bindM (a_access (Some sn) k ty) K) e"
  unfolding simM_def
proof (intro allI impI)
  fix fp mp me x fp' mp'
  assume "bindM (a_access (Some sn) k ty) K (fp, mp) = (x, (fp', mp'))" and cov: "covers fp' f"
  then have "K () (recorded fp k ty, mp) = (x, (fp', mp'))" by (simp add: a_access_def)
  then have "covers (recorded fp k ty) fp'"
    using assms(2) unfolding relM_def by (metis fst_conv snd_conv)
  from recorded_allowed [OF covers_trans [OF this cov]] assms(1)
  show "\<exists>me'. e (f, me) = (x, (f, me')) \<and> same_view sn f mp' me'" by simp
qed

lemma simM_extend: "simM sn f (a_extend (Some sn) li k t x) (a_extend None li k t x)"
proof (cases "k \<in> dom f \<or> \<not> supported_key k \<or> x < t")
  case True
  then show ?thesis
  proof (elim disjE)
    assume k: "k \<in> dom f"
    show ?thesis unfolding a_extend_def
      by (intro simM_bind simM_basic simM_if simM_get_full coverM_bind coverM_basic coverM_if coverM_get_full)
        (auto intro!: simM_bind simM_ttl simM_effect k coverM_bind split: option.split)
  qed (auto simp: a_extend_def check_supported_ledger_key_type_def intro: simM_basic)
next
  case False
  then have "a_extend (Some sn) li k t x = bindM (a_access (Some sn) k ReadOnly) (\<lambda>_.
      thenM (a_load (Some sn) k) (bindM (bindM (getM (\<lambda>st. snd st k)) (\<lambda>r. case r of
         None \<Rightarrow> throwM (Err Storage InternalError) | Some v \<Rightarrow> retM v))
       (\<lambda>r. bindM (okOrM r (Err Storage MissingValue)) (\<lambda>(entry, old_opt).
          bindM (a_ttl li k old_opt t x) (\<lambda>upd. case upd of None \<Rightarrow> retM ()
           | Some n \<Rightarrow> modifyM (\<lambda>(fp, mp). (fp, mp(k \<mapsto> Some (entry, Some n)))))))))"
    by (simp add: a_extend_def a_get_full_def check_supported_ledger_key_type_def bindM_assoc)
  with False show ?thesis
    by (auto intro!: simM_access_absent coverM_bind split: option.split)
qed

lemma simM_op: "simM sn f (a_op (Some sn) li c) (a_op None li c)"
  by (cases c) (auto intro!: simM_bind simM_get_full simM_put simM_extend coverM_bind)

lemma a_prog_covers: "a_prog snap li c st = (rs, st') \<Longrightarrow> covers (fst st) (fst st')"
proof (induction c arbitrary: st rs)
  case (Do c cont)
  obtain r st1 where op: "a_op snap li c st = (r, st1)" by (cases "a_op snap li c st")
  have 1: "covers (fst st) (fst st1)" using coverM_op [of snap li c] op unfolding relM_def
    by (metis snd_conv)
  obtain rs' where "a_prog snap li (cont r) st1 = (rs', st')"
    using Do.prems(1) op by (auto split: prod.splits)
  from Do.IH [OF rangeI this] 1 show ?case by (blast intro: covers_trans)
qed simp

lemma simM_prog:
  assumes "a_prog (Some sn) li c (fp, mp) = (rs, (fp', mp'))" "covers fp' f" "same_view sn f mp me"
  shows "fst (a_prog None li c (f, me)) = rs"
  using assms
proof (induction c arbitrary: fp mp me rs)
  case (Do c cont)
  obtain r fp1 mp1 where op: "a_op (Some sn) li c (fp, mp) = (r, (fp1, mp1))"
    by (cases "a_op (Some sn) li c (fp, mp)") auto
  obtain rs' where rest: "a_prog (Some sn) li (cont r) (fp1, mp1) = (rs', (fp', mp'))"
    and rs: "rs = r # rs'" using Do.prems(1) op by (auto split: prod.splits)
  have "covers fp1 fp'" using a_prog_covers [OF rest] by simp
  then have "covers fp1 f" using Do.prems(2) by (rule covers_trans)
  then obtain me1 where e: "a_op None li c (f, me) = (r, (f, me1))" "same_view sn f mp1 me1"
    using simM_op [of sn f li c] op Do.prems(3) unfolding simM_def by blast
  from Do.IH [OF rangeI rest Do.prems(2) e(2)] show ?case
    by (auto simp: e(1) rs split: prod.split)
qed simp

text \<open>In enforcing mode no key ever enters the footprint or the map.\<close>

definition same_keys :: "('p, 'e) astate \<Rightarrow> ('p, 'e) astate \<Rightarrow> bool" where
  "same_keys st st' \<longleftrightarrow> fst st' = fst st \<and>
     (dom (fst st) \<subseteq> dom (snd st) \<longrightarrow> dom (snd st') = dom (snd st))"

lemma same_keys_refl: "reflp same_keys" and same_keys_trans: "transp same_keys"
  by (auto simp: reflp_def transp_def same_keys_def)

lemmas keysM_bind = relM_bind [OF same_keys_trans] and keysM_pure = relM_pure [OF same_keys_refl]

lemma pureM_access: "pureM (a_access None k ty)" and pureM_load: "pureM (a_load None k)"
  by (auto simp: a_access_def a_load_def)

lemma pureM_get_full: "pureM (a_get_full None k)"
  unfolding a_get_full_def
  by (intro pureM_bind pureM_access pureM_load pureM_checks pureM_simps) (auto split: option.split)

lemma a_access_run:
  "a_access None k ty st = (if allowed (fst st) k ty then Inr () else Inl (Err Storage ExceededLimit), st)"
  by (simp add: a_access_def guardM_def retM_def throwM_def)

lemma keysM_put: "relM same_keys (a_put None k v)"
proof -
  have "relM same_keys (thenM (a_access None k ReadWrite) (modifyM (\<lambda>(fp, mp). (fp, mp(k \<mapsto> v)))))"
    by (auto simp: relM_def same_keys_def bindM_def a_access_run modifyM_apply allowed_def)
  note wr = this
  show ?thesis unfolding a_put_def
    by (rule keysM_bind, simp add: keysM_pure, rule keysM_bind)
      (auto intro!: keysM_pure wr split: option.split)
qed

lemma a_get_full_present:
  "a_get_full None k st = (Inr v, st') \<Longrightarrow> k \<in> dom (fst st) \<and> k \<in> dom (snd st) \<and> st' = st \<and> snd st k = Some v"
  by (auto simp: a_get_full_def m_simps a_access_run a_load_def allowed_def
      check_supported_ledger_key_type_def split: if_splits option.splits)

lemma keysM_extend: "relM same_keys (a_extend None li (k :: 'p LedgerKey) t e :: (('p, 'e) astate, unit) hm)"
  unfolding relM_def
proof
  fix st :: "('p, 'e) astate"
  let ?K = "\<lambda>(entry, old). bindM (a_ttl li k old t e) (\<lambda>upd. case upd of None \<Rightarrow> retM ()
      | Some n \<Rightarrow> modifyM (\<lambda>(fp, mp). (fp, mp(k \<mapsto> Some (entry, Some n)))))"
  have K: "same_keys st (snd (?K x st))" if "k \<in> dom (snd st)" for x :: "'e EntryWithLiveUntil"
  proof (cases x)
    case (Pair entry old)
    obtain r st' where t: "a_ttl li k old t e st = (r, st')" by (cases "a_ttl li k old t e st")
    then have "st' = st" by (rule pureM_run [OF pureM_ttl])
    with that t show ?thesis
      by (auto simp: Pair bindM_def modifyM_apply retM_def same_keys_def case_prod_beta
          split: sum.split option.split if_splits)
  qed
  obtain r st' where g: "a_get_full None k st = (r, st')" by (cases "a_get_full None k st")
  then have st': "st' = st" by (rule pureM_run [OF pureM_get_full])
  have "same_keys st (snd (bindM (bindM (a_get_full None k) (\<lambda>r. okOrM r (Err Storage MissingValue))) ?K st))"
  proof (cases r)
    case (Inr v)
    then have "k \<in> dom (snd st)" using a_get_full_present g by blast
    with K g Inr st' show ?thesis
      by (cases v) (auto simp: bindM_assoc bindM_run okOrM_def throwM_apply same_keys_def)
  qed (use g st' in \<open>simp add: bindM_def same_keys_def\<close>)
  then show "same_keys st (snd (a_extend None li k t e st))"
    by (auto simp: a_extend_def check_supported_ledger_key_type_def throwM_apply same_keys_def)
qed

lemma keysM_op: "relM same_keys (a_op None li c)"
  by (cases c) (auto intro!: keysM_bind keysM_put keysM_extend keysM_pure [OF pureM_get_full]
      keysM_pure [OF pureM_simps(1)] keysM_pure [OF pureM_simps(5)])

lemma a_prog_same_keys: "a_prog None li c st = (rs, st') \<Longrightarrow> same_keys st st'"
proof (induction c arbitrary: st rs)
  case (Do c cont)
  obtain r st1 where op: "a_op None li c st = (r, st1)" by (cases "a_op None li c st")
  have 1: "same_keys st st1" using keysM_op [of li c] op unfolding relM_def by (metis snd_conv)
  obtain rs' where "a_prog None li (cont r) st1 = (rs', st')"
    using Do.prems(1) op by (auto split: prod.splits)
  from Do.IH [OF rangeI this] 1 show ?case using same_keys_trans by (blast dest: transpD)
qed (simp add: same_keys_def)

section \<open>Isolation in enforcing mode, on every budget\<close>

abbreviation sameM :: "('p, 'e, 'a) storing \<Rightarrow> bool" where
  "sameM \<equiv> relM (\<lambda>st st'. fst st' = fst st)"

lemma sameM_pure: "pureM m \<Longrightarrow> sameM m"
  by (rule relM_pure) (rule reflpI, simp)

lemma sameM_bind: "sameM m \<Longrightarrow> (\<And>x. sameM (f x)) \<Longrightarrow> sameM (bindM m f)"
  by (rule relM_bind) (rule transpI, simp)

lemma sameM_onBudget: "sameM (onBudget m)"
  by (simp add: relM_def onBudget_def zoomM_def split: prod.split)

lemma sameM_enforce: "sameM (enforce_access kc k ty)"
  unfolding enforce_access_def
  by (intro sameM_bind sameM_onBudget sameM_pure)
    (auto intro: sameM_pure split: option.split AccessType.split)

lemma sameM_run: "sameM m \<Longrightarrow> m (s, b) = (r, (s', b')) \<Longrightarrow> s' = s"
  unfolding relM_def by (drule spec [of _ "(s, b)"]) simp

text \<open>How the contents of a key may change under a footprint.\<close>

definition isolated :: "('p, 'e) store \<Rightarrow> ('p, 'e) store \<Rightarrow> bool" where
  "isolated s s' \<longleftrightarrow> footprint s' = footprint s \<and> mode s' = mode s \<and>
     (\<forall>k. (map_of (footprint s) k = None \<longrightarrow> map_of (smap s') k = map_of (smap s) k) \<and>
          (map_of (footprint s) k \<noteq> Some ReadWrite \<longrightarrow>
             map_option (map_option fst) (map_of (smap s') k) =
             map_option (map_option fst) (map_of (smap s) k)))"

lemma isolated_refl [simp]: "isolated s s"
  by (simp add: isolated_def)

lemma isolated_trans: "isolated a b \<Longrightarrow> isolated b c \<Longrightarrow> isolated a c"
  by (simp add: isolated_def)

context storage_keys
begin

lemmas fp_sound = key_order.get_refines [OF total_key_order.axioms(1) [OF footprint_order]]

lemma isolated_insert:
  assumes "store_wf g s" "map_insert (storage_ctx kc) (smap s) k v b = (Inr m', b')" "supported_key k"
    and "allowed (map_of (footprint s)) k ReadWrite \<or>
      allowed (map_of (footprint s)) k ReadOnly \<and>
      map_option (map_option fst) (map_of (smap s) k) = Some (map_option fst v)"
  shows "isolated s (s\<lparr>smap := m'\<rparr>) \<and> store_wf g (s\<lparr>smap := m'\<rparr>)"
proof -
  have "map_wf g (smap s)" using assms(1) by (simp add: store_wf_def)
  from sm_insert(2) [OF this assms(2)] have m': "map_wf g m'" "map_of m' = (map_of (smap s))(k \<mapsto> v)"
    by auto
  then show ?thesis using assms(1,3,4) by (auto simp: isolated_def store_wf_def allowed_def)
qed

lemma enforce_ok:
  assumes "store_wf g s" "enforce_access kc k ty (s, b) = (Inr u, st)"
  shows "allowed (map_of (footprint s)) k ty"
proof -
  have wf: "map_wf g (footprint s)" using assms(1) by (simp add: store_wf_def)
  from assms(2) obtain r b1 where "map_get (footprint_ctx kc) (footprint s) k b = (Inr r, b1)"
    and "(case r of Some old \<Rightarrow> (case (old, ty) of
              (ReadOnly, ReadOnly) \<Rightarrow> retM ()
            | (ReadOnly, ReadWrite) \<Rightarrow> throwM (Err Storage ExceededLimit)
            | (ReadWrite, ReadOnly) \<Rightarrow> retM ()
            | (ReadWrite, ReadWrite) \<Rightarrow> retM ())
       | None \<Rightarrow> throwM (Err Storage ExceededLimit)) (s, b1) = (Inr u, st)"
    by (auto simp: enforce_access_def bindM_Inr onBudget_def zoomM_Inr)
  with fp_sound [OF wf] show ?thesis
    by (auto simp: allowed_def split: option.splits AccessType.splits)
qed

lemma has_enforcing:
  assumes "store_wf g s" "mode s = Enforcing" "storage_has kc k (s, b) = (r, (s', b'))"
  shows "s' = s"
proof -
  have pre: "prepare_read_only_access kc k (s, c) = enforce_access kc k ReadOnly (s, c)" for c
    using assms(2) by (simp add: prepare_read_only_access_def)
  let ?m = "thenM (check_supported_ledger_key_type k) (thenM (enforce_access kc k ReadOnly)
      (bindM (getM (\<lambda>st. smap (fst st))) (\<lambda>m. bindM (onBudget (map_get (storage_ctx kc) m k)) (\<lambda>r.
         bindM (okOrM r (Err Storage InternalError)) (\<lambda>v. retM (v \<noteq> None))))))"
  have eq: "storage_has kc k (s, b) = ?m (s, b)"
    by (auto simp: storage_has_def check_supported_ledger_key_type_def intro!: bindM_cong pre)
  have run: "?m (s, b) = (r, (s', b'))" by (rule trans [OF eq [symmetric] assms(3)])
  have "sameM ?m"
    by (intro sameM_bind sameM_enforce sameM_onBudget sameM_pure pureM_simps pureM_checks)
  then show ?thesis using run by (rule sameM_run)
qed

lemma get_full_enforcing:
  assumes "store_wf g s" "mode s = Enforcing" "try_get_full kc k (s, b) = (r, (s', b'))"
  shows "s' = s" "r = Inr v \<Longrightarrow> allowed (map_of (footprint s)) k ReadOnly \<and> map_of (smap s) k = Some v"
proof -
  have pre: "prepare_read_only_access kc k (s, c) = enforce_access kc k ReadOnly (s, c)" for c
    using assms(2) by (simp add: prepare_read_only_access_def)
  have eq: "try_get_full kc k (s, b) =
      thenM (check_supported_ledger_key_type k) (thenM (enforce_access kc k ReadOnly)
          (bindM (getM (\<lambda>st. smap (fst st))) (\<lambda>m.
             bindM (onBudget (map_get (storage_ctx kc) m k)) (\<lambda>r. case r of
                None \<Rightarrow> throwM (Err Storage InternalError) | Some v \<Rightarrow> retM v)))) (s, b)"
    (is "_ = ?m (s, b)")
    by (auto simp: try_get_full_def check_supported_ledger_key_type_def intro!: bindM_cong pre)
  have run: "?m (s, b) = (r, (s', b'))" by (rule trans [OF eq [symmetric] assms(3)])
  have "sameM ?m"
    by (intro sameM_bind sameM_enforce sameM_onBudget sameM_pure)
      (auto intro: sameM_pure split: option.split)
  then show "s' = s" using run by (rule sameM_run)
  assume "r = Inr v"
  with run obtain s1 b1 where e: "enforce_access kc k ReadOnly (s, b) = (Inr (), (s1, b1))"
    and rest: "bindM (onBudget (map_get (storage_ctx kc) (smap s1) k)) (\<lambda>r. case r of
        None \<Rightarrow> throwM (Err Storage InternalError) | Some v \<Rightarrow> retM v) (s1, b1) = (Inr v, (s', b'))"
    by (auto simp: bindM_Inr retM_Inr check_supported_ledger_key_type_def split: if_splits)
  have "s1 = s" by (rule sameM_run [OF sameM_enforce e])
  with rest obtain b2 where "map_get (storage_ctx kc) (smap s) k b1 = (Inr (Some v), b2)"
    by (auto simp: bindM_Inr onBudget_def zoomM_Inr retM_Inr split: option.splits)
  note e = e [unfolded \<open>s1 = s\<close>] and this
  with assms(1) enforce_ok sm_get(2) show
    "allowed (map_of (footprint s)) k ReadOnly \<and> map_of (smap s) k = Some v"
    by (metis store_wf_def)
qed

lemma put_enforcing:
  assumes "store_wf g s" "mode s = Enforcing" "put_opt kc k v (s, b) = (r, (s', b'))"
  shows "isolated s s' \<and> store_wf g s'"
proof -
  let ?ent = "case v of Some le \<Rightarrow> check_supported_ledger_entry_type (fst le) | None \<Rightarrow> retM ()"
  let ?ins = "bindM (getM (\<lambda>st. smap (fst st))) (\<lambda>m.
      bindM (onBudget (map_insert (storage_ctx kc) m k v)) setMap)"
  have eq: "put_opt kc k v (s, b) = (if supported_key k then
      thenM ?ent (thenM (enforce_access kc k ReadWrite) ?ins) (s, b) else (Inl (Err Storage InternalError), (s, b)))"
    using assms(2) by (auto simp: put_opt_def check_supported_ledger_key_type_def
        check_supported_ledger_entry_type_def throwM_apply intro!: bindM_cong split: option.split)
  show ?thesis
  proof (cases "supported_key k \<and> ?ent (s, b) = (Inr (), (s, b))")
    case False
    then have "s' = s" using eq assms(3)
      by (cases v) (auto simp: check_supported_ledger_entry_type_def throwM_apply retM_apply split: if_splits)
    with assms(1) show ?thesis by simp
  next
    case True
    then have run: "thenM (enforce_access kc k ReadWrite) ?ins (s, b) = (r, (s', b'))"
      using eq assms(3) by (simp add: bindM_run)
    obtain q s1 b1 where e: "enforce_access kc k ReadWrite (s, b) = (q, (s1, b1))"
      by (cases "enforce_access kc k ReadWrite (s, b)") auto
    have s1: "s1 = s" by (rule sameM_run [OF sameM_enforce e])
    show ?thesis
    proof (cases q)
      case (Inl err)
      with run e s1 assms(1) show ?thesis by (simp add: bindM_def)
    next
      case (Inr u)
      with e s1 have al: "allowed (map_of (footprint s)) k ReadWrite" using enforce_ok [OF assms(1)] by metis
      obtain q2 b2 where ins: "map_insert (storage_ctx kc) (smap s) k v b1 = (q2, b2)"
        by (cases "map_insert (storage_ctx kc) (smap s) k v b1")
      from run e Inr s1 have "bindM (onBudget (map_insert (storage_ctx kc) (smap s) k v)) setMap (s, b1)
          = (r, (s', b'))" by (simp add: bindM_run)
      then have "s' = s \<or> (\<exists>m'. q2 = Inr m' \<and> s' = s\<lparr>smap := m'\<rparr>)"
        by (cases q2) (auto simp: bindM_def onBudget_def zoomM_def ins setMap_def modifyM_apply)
      with isolated_insert [OF assms(1)] ins True al assms(1) show ?thesis by auto
    qed
  qed
qed

lemma get_live_enforcing:
  assumes "store_wf g s" "mode s = Enforcing" "get_with_live_until_ledger kc k (s, b) = (r, (s', b'))"
  shows "s' = s" "r = Inr v \<Longrightarrow>
    allowed (map_of (footprint s)) k ReadOnly \<and> map_of (smap s) k = Some (Some v)"
proof -
  obtain q s1 b1 where g: "try_get_full kc k (s, b) = (q, (s1, b1))"
    by (cases "try_get_full kc k (s, b)") auto
  have s1: "s1 = s" by (rule get_full_enforcing(1) [OF assms(1,2) g])
  have run: "(r, (s', b')) = (case q of Inl e \<Rightarrow> (Inl e, (s, b1))
      | Inr x \<Rightarrow> okOrM x (Err Storage MissingValue) (s, b1))"
    using assms(3) g s1 by (simp add: get_with_live_until_ledger_def bindM_def split: sum.split)
  then show "s' = s"
    by (auto simp: okOrM_def retM_apply throwM_apply split: sum.splits option.splits)
  assume "r = Inr v"
  with run have "q = Inr (Some v)"
    by (auto simp: okOrM_def retM_apply throwM_apply split: sum.splits option.splits)
  then show "allowed (map_of (footprint s)) k ReadOnly \<and> map_of (smap s) k = Some (Some v)"
    using get_full_enforcing(2) [OF assms(1,2) g] by blast
qed

lemma extend_enforcing:
  assumes "store_wf g s" "mode s = Enforcing" "extend_ttl kc li k t e (s, b) = (r, (s', b'))"
  shows "isolated s s' \<and> store_wf g s'"
proof (cases "supported_key k \<and> t \<le> e")
  case True
  obtain q s1 b1 where g: "get_with_live_until_ledger kc k (s, b) = (q, (s1, b1))"
    by (cases "get_with_live_until_ledger kc k (s, b)") auto
  have s1: "s1 = s" by (rule get_live_enforcing(1) [OF assms(1,2) g])
  have nt: "\<not> e < t" using True by (simp add: not_less)
  show ?thesis
  proof (cases q)
    case (Inl err)
    with True assms(1,3) g s1 nt show ?thesis
      by (simp add: extend_ttl_alt check_supported_ledger_key_type_def bindM_run_err)
  next
    case (Inr x)
    obtain entry old where x: "x = (entry, old)" by (cases x)
    have found: "allowed (map_of (footprint s)) k ReadOnly" "map_of (smap s) k = Some (Some (entry, old))"
      using get_live_enforcing(2) [OF assms(1,2) g Inr] x by auto
    obtain u st2 where ttl: "a_ttl li k old t e (s, b1) = (u, st2)" by (cases "a_ttl li k old t e (s, b1)")
    have st2: "st2 = (s, b1)" by (rule pureM_run [OF pureM_ttl ttl])
    have run: "bindM (a_ttl li k old t e) (\<lambda>upd. case upd of None \<Rightarrow> retM ()
           | Some n \<Rightarrow> bindM (getM (\<lambda>st. smap (fst st))) (\<lambda>m.
               bindM (onBudget (map_insert (storage_ctx kc) m k (Some (entry, Some n)))) setMap))
        (s, b1) = (r, (s', b'))"
      using True assms(3) g s1 Inr x nt
      by (simp add: extend_ttl_alt check_supported_ledger_key_type_def bindM_run)
    show ?thesis
    proof (cases "\<exists>n. u = Inr (Some n)")
      case False
      then have "s' = s" using run ttl st2 by (auto simp: bindM_def retM_apply split: sum.splits option.splits)
      with assms(1) show ?thesis by simp
    next
      case True
      then obtain n where n: "u = Inr (Some n)" by blast
      obtain q2 b2 where ins: "map_insert (storage_ctx kc) (smap s) k (Some (entry, Some n)) b1 = (q2, b2)"
        by (cases "map_insert (storage_ctx kc) (smap s) k (Some (entry, Some n)) b1")
      have "bindM (onBudget (map_insert (storage_ctx kc) (smap s) k (Some (entry, Some n)))) setMap
          (s, b1) = (r, (s', b'))" using run ttl st2 n by (simp add: bindM_run)
      then have "s' = s \<or> (\<exists>m'. q2 = Inr m' \<and> s' = s\<lparr>smap := m'\<rparr>)"
        by (cases q2) (auto simp: bindM_def onBudget_def zoomM_def ins setMap_def modifyM_apply)
      with isolated_insert [OF assms(1)] ins \<open>supported_key k \<and> t \<le> e\<close> found assms(1) show ?thesis
        by auto
    qed
  qed
next
  case False
  then have "s' = s" using assms(3)
    by (auto simp: extend_ttl_alt check_supported_ledger_key_type_def throwM_apply retM_def bindM_def
        split: if_splits)
  with assms(1) show ?thesis by simp
qed

lemma bind_ret_run: "bindM m (\<lambda>x. retM (h x)) st = (r, st') \<Longrightarrow> \<exists>q. m st = (q, st')"
  by (auto simp: bindM_def retM_apply split: prod.splits sum.splits)

lemma op_enforcing:
  assumes "store_wf g s" "mode s = Enforcing" "run_op kc li c (s, b) = (r, (s', b'))"
  shows "isolated s s' \<and> store_wf g s'"
proof -
  show ?thesis
  proof (cases c)
    case (OGet k)
    then obtain q where "get_with_live_until_ledger kc k (s, b) = (q, (s', b'))"
      using assms(3) bind_ret_run by fastforce
    from get_live_enforcing(1) [OF assms(1,2) this] assms(1) show ?thesis by simp
  next
    case (OHas k)
    then obtain q where "storage_has kc k (s, b) = (q, (s', b'))" using assms(3) bind_ret_run by fastforce
    from has_enforcing [OF assms(1,2) this] assms(1) show ?thesis by simp
  next
    case (OPut k e l)
    then obtain q where "put_opt kc k (Some (e, l)) (s, b) = (q, (s', b'))"
      using assms(3) bind_ret_run [of _ "\<lambda>_. OutUnit"] by (fastforce simp: storage_put_def)
    then show ?thesis by (rule put_enforcing [OF assms(1,2)])
  next
    case (ODel k)
    then obtain q where "put_opt kc k None (s, b) = (q, (s', b'))"
      using assms(3) bind_ret_run [of _ "\<lambda>_. OutUnit"] by (fastforce simp: storage_del_def)
    then show ?thesis by (rule put_enforcing [OF assms(1,2)])
  next
    case (OExtend k t x)
    then obtain q where "extend_ttl kc li k t x (s, b) = (q, (s', b'))"
      using assms(3) bind_ret_run [of _ "\<lambda>_. OutUnit"] by fastforce
    then show ?thesis by (rule extend_enforcing [OF assms(1,2)])
  qed
qed

lemma prog_enforcing:
  "store_wf g s \<Longrightarrow> mode s = Enforcing \<Longrightarrow> run_prog kc li c (s, b) = (rs, (s', b')) \<Longrightarrow>
   isolated s s' \<and> store_wf g s'"
proof (induction c arbitrary: s b rs)
  case (Do c cont)
  obtain r s1 b1 where op: "run_op kc li c (s, b) = (r, (s1, b1))"
    by (cases "run_op kc li c (s, b)") auto
  have 1: "isolated s s1" "store_wf g s1" using op_enforcing [OF Do.prems(1,2) op] by auto
  then have "mode s1 = Enforcing" using Do.prems(2) by (simp add: isolated_def)
  moreover obtain rs' where "run_prog kc li (cont r) (s1, b1) = (rs', (s', b'))"
    using Do.prems(3) op by (auto split: prod.splits)
  ultimately have "isolated s1 s' \<and> store_wf g s'" using Do.IH [OF rangeI 1(2)] by blast
  with 1 show ?case by (blast intro: isolated_trans)
qed simp

lemma get_full_run:
  assumes "store_wf g s" "mode s = Enforcing" "supported_key k" "unlimited b"
  obtains b' where "unlimited b'" "try_get_full kc k (s, b) =
    (if \<not> allowed (map_of (footprint s)) k ReadOnly then Inl (Err Storage ExceededLimit)
     else case map_of (smap s) k of None \<Rightarrow> Inl (Err Storage InternalError) | Some v \<Rightarrow> Inr v, (s, b'))"
proof -
  obtain b1 where e: "enforce_access kc k ReadOnly (s, b) = (if allowed (map_of (footprint s)) k ReadOnly
      then Inr () else Inl (Err Storage ExceededLimit), (s, b1))" and b1: "unlimited b1"
    using enforce_run [OF assms(1,3,4)] by blast
  obtain b2 where g: "onBudget (map_get (storage_ctx kc) (smap s) k) (s, b1) =
      (Inr (map_of (smap s) k), (s, b2))" and b2: "unlimited b2"
    using sm_get_run [OF assms(1,3) b1] by blast
  have pre: "prepare_read_only_access kc k (s, b) = enforce_access kc k ReadOnly (s, b)"
    using assms(2) by (simp add: prepare_read_only_access_def)
  show thesis
  proof (cases "allowed (map_of (footprint s)) k ReadOnly")
    case True
    with e have "prepare_read_only_access kc k (s, b) = (Inr (), (s, b1))" by (simp add: pre)
    then have "try_get_full kc k (s, b) = (case map_of (smap s) k of
        None \<Rightarrow> Inl (Err Storage InternalError) | Some v \<Rightarrow> Inr v, (s, b2))"
      using assms(3) g
      by (cases "map_of (smap s) k") (simp_all add: try_get_full_def check_supported_ledger_key_type_def
          bindM_run throwM_apply retM_apply)
    with True b2 show thesis by (intro that [of b2]) simp_all
  next
    case False
    with e have "prepare_read_only_access kc k (s, b) = (Inl (Err Storage ExceededLimit), (s, b1))"
      by (simp add: pre)
    with False b1 assms(3) show thesis
      by (intro that [of b1])
        (simp_all add: try_get_full_def check_supported_ledger_key_type_def bindM_run_err)
  qed
qed

lemma put_success:
  assumes "store_wf g s" "mode s = Enforcing" "put_opt kc k v (s, b) = (Inr u, (s', b'))"
  shows "supported_key k" "allowed (map_of (footprint s)) k ReadWrite"
    "map_of (smap s') = (map_of (smap s))(k \<mapsto> v)"
proof -
  from assms(3) have sup: "supported_key k"
    by (auto simp: put_opt_def bindM_Inr check_supported_ledger_key_type_def split: if_splits)
  from assms(2,3) sup obtain s1 b0 b1 where e: "enforce_access kc k ReadWrite (s, b0) = (Inr (), (s1, b1))"
    and ins: "bindM (onBudget (map_insert (storage_ctx kc) (smap s1) k v)) setMap (s1, b1) = (Inr u, (s', b'))"
    by (auto simp: put_opt_def bindM_Inr retM_Inr getM_Inr check_supported_ledger_key_type_def
        check_supported_ledger_entry_type_def split: option.splits if_splits)
  have s1: "s1 = s" by (rule sameM_run [OF sameM_enforce e])
  with ins obtain m' b2 where i: "map_insert (storage_ctx kc) (smap s) k v b1 = (Inr m', b2)"
    and s': "s' = s\<lparr>smap := m'\<rparr>"
    by (auto simp: bindM_Inr onBudget_def zoomM_Inr setMap_def modifyM_Inr)
  have "map_wf g (smap s)" using assms(1) by (simp add: store_wf_def)
  from sm_insert(2) [OF this i] s' sup enforce_ok [OF assms(1)] e
  show "supported_key k" "allowed (map_of (footprint s)) k ReadWrite"
    "map_of (smap s') = (map_of (smap s))(k \<mapsto> v)" by auto
qed

end

section \<open>Ledger keys provide the contract\<close>

sublocale total_payload_order \<subseteq> storage_keys "compare_ledger_key C" "key_rank C rank"
  by unfold_locales (auto intro: key_rank_inj compare_sound compare_total)

section \<open>How many keys a program touches\<close>

definition touches :: "'p LedgerKey \<Rightarrow> ('p, 'e) astate \<Rightarrow> ('p, 'e) astate \<Rightarrow> bool" where
  "touches k st st' \<longleftrightarrow> dom (fst st') \<subseteq> insert k (dom (fst st)) \<and> dom (snd st') \<subseteq> insert k (dom (snd st))"

lemma touches_refl: "reflp (touches k)" and touches_trans: "transp (touches k)"
  unfolding reflp_def transp_def touches_def by blast+

lemmas touchM_bind = relM_bind [OF touches_trans] and touchM_pure = relM_pure [OF touches_refl]

lemma touchM_basic [intro!, simp]:
  "relM (touches k) (retM x)" "relM (touches k) (throwM e)" "relM (touches k) (getM f)"
  "relM (touches k) (okOrM y e)" "relM (touches k) (check_supported_ledger_key_type k')"
  "relM (touches k) (check_supported_ledger_entry_type le)" "relM (touches k) (a_ttl li key old t z)"
  by (rule touchM_pure, simp)+

lemma touchM_access [intro!, simp]:
  "relM (touches k) (a_access snap k ty)" "relM (touches k) (a_load snap k)"
  "relM (touches k) (modifyM (\<lambda>(fp, mp). (fp, mp(k \<mapsto> v))))"
  by (auto simp: relM_def touches_def a_access_def a_load_def recorded_def modifyM_apply guardM_def
      retM_apply throwM_apply split: option.split if_splits)

lemma touchM_get_full [intro!, simp]: "relM (touches k) (a_get_full snap k)"
  unfolding a_get_full_def by (auto intro!: touchM_bind split: option.split)

lemma touchM_put [intro!, simp]: "relM (touches k) (a_put snap k v)"
  unfolding a_put_def by (auto intro!: touchM_bind split: option.split)

lemma touchM_extend [intro!, simp]: "relM (touches k) (a_extend snap li k t e)"
  unfolding a_extend_def by (auto intro!: touchM_bind split: option.split)

fun op_key :: "('p, 'e) storage_op \<Rightarrow> 'p LedgerKey" where
  "op_key (OGet k) = k" | "op_key (OHas k) = k" | "op_key (OPut k _ _) = k"
| "op_key (ODel k) = k" | "op_key (OExtend k _ _) = k"

lemma touchM_op: "relM (touches (op_key c)) (a_op snap li c)"
  by (cases c) (auto intro!: touchM_bind)

text \<open>\<open>steps n c\<close>: the program makes at most \<open>n\<close> storage operations, whatever the answers.\<close>

inductive steps :: "nat \<Rightarrow> ('p, 'e) storage_prog \<Rightarrow> bool" where
  steps_Done: "steps n Done"
| steps_Do: "(\<And>r. steps n (cont r)) \<Longrightarrow> steps (Suc n) (Do c cont)"

inductive_cases steps_DoE: "steps n (Do c cont)"

lemma card_insert_le_Suc: "finite A \<Longrightarrow> card (insert x A) \<le> Suc (card A)"
  by (simp add: card_insert_if)

lemma a_prog_touches:
  "steps n c \<Longrightarrow> a_prog snap li c st = (rs, st') \<Longrightarrow> finite (dom (fst st)) \<Longrightarrow> finite (dom (snd st)) \<Longrightarrow>
   card (dom (fst st')) \<le> card (dom (fst st)) + n \<and> card (dom (snd st')) \<le> card (dom (snd st)) + n"
proof (induction c arbitrary: n st rs)
  case (Do c cont)
  from Do.prems(1) obtain n' where n: "n = Suc n'" and sub: "\<And>r. steps n' (cont r)"
    by (rule steps_DoE) blast
  obtain r st1 where op: "a_op snap li c st = (r, st1)" by (cases "a_op snap li c st")
  have t: "touches (op_key c) st st1" using touchM_op [of c snap li] op unfolding relM_def
    by (metis snd_conv)
  have fin: "finite (dom (fst st1))" "finite (dom (snd st1))"
    using growM_op [of snap li c] Do.prems(3,4) op unfolding relM_def grows_def by (metis snd_conv)+
  have 1: "card (dom (fst st1)) \<le> Suc (card (dom (fst st)))" "card (dom (snd st1)) \<le> Suc (card (dom (snd st)))"
    using t Do.prems(3,4) unfolding touches_def
    by (meson card_insert_le_Suc card_mono finite_insert order_trans)+
  obtain rs' where "a_prog snap li (cont r) st1 = (rs', st')"
    using Do.prems(2) op by (auto split: prod.splits)
  from Do.IH [OF rangeI sub this fin] 1 n show ?case by linarith
qed simp

section \<open>Properties\<close>

text \<open>C4: Isolation. Whatever a program does, on whatever budget, in enforcing mode: the footprint
  never changes, a key outside it keeps its state, and a key the footprint does not allow to be
  written keeps its entry (only its lifetime can be extended). The maps stay well formed.\<close>

theorem enforcing_isolation:
  assumes "storage_keys kc g" and "store_wf g s" and "mode s = Enforcing"
    and "run_prog kc li c (s, b) = (rs, (s', b'))"
  shows "isolated s s' \<and> store_wf g s'"
  by (rule storage_keys.prog_enforcing [OF assms])

definition sample_key :: "nat LedgerKey" where
  "sample_key = KContractData 7 1 Persistent"

lemma sample_key_supported [simp]: "supported_key sample_key"
  by (simp add: sample_key_def)

definition sample_entry :: "nat LedgerEntry" where
  "sample_entry = \<lparr>data_type = TContractData, data_content = 42\<rparr>"

abbreviation sample_compare :: "nat key_compare" where
  "sample_compare \<equiv> compare_ledger_key fixed_compares"

abbreviation sample_rank :: "nat LedgerKey \<Rightarrow> nat \<times> (nat \<times> nat) \<times> nat" where
  "sample_rank \<equiv> key_rank fixed_compares xdr_durability"

definition sample_store :: "AccessType \<Rightarrow> (nat, nat) store" where
  "sample_store ty = with_enforcing_footprint_and_map [(sample_key, ty)]
     [(sample_key, Some (sample_entry, Some 100))]"

lemma sample_store_wf: "store_wf g (sample_store ty)" "mode (sample_store ty) = Enforcing"
  by (simp_all add: sample_store_def with_enforcing_footprint_and_map_def store_wf_def map_wf_def
      u32_MAX_def sample_key_def)

theorem enforcing_isolation_witness:
  "\<exists>rs s' b'. run_prog sample_compare None (Do (ODel sample_key) (\<lambda>_. Done))
      (sample_store ReadOnly, budget_default) = (rs, (s', b')) \<and>
    map_option (map_option fst) (map_of (smap s') sample_key) = Some (Some sample_entry)"
proof -
  obtain rs s' b' where run: "run_prog sample_compare None (Do (ODel sample_key) (\<lambda>_. Done))
      (sample_store ReadOnly, budget_default) = (rs, (s', b'))"
    by (cases "run_prog sample_compare None (Do (ODel sample_key) (\<lambda>_. Done))
      (sample_store ReadOnly, budget_default)") auto
  from enforcing_isolation [OF fixed_keys.storage_keys_axioms sample_store_wf run]
  have "isolated (sample_store ReadOnly) s'" by simp
  then have "map_option (map_option fst) (map_of (smap s') sample_key) = Some (Some sample_entry)"
    unfolding isolated_def
    by (elim conjE allE [of _ sample_key])
      (simp add: sample_store_def with_enforcing_footprint_and_map_def)
  with run show ?thesis by blast
qed

text \<open>C6: Preflight is faithful. Run a program of fewer than \<open>2^32 - 1\<close> storage operations, each of
  which may depend on all earlier answers, in recording mode over a snapshot. Then the recorded
  footprint is enough: in enforcing mode with that footprint, and a map loaded with the
  snapshot's entries for exactly its keys, the program gets the same answers.\<close>

theorem recorded_footprint_suffices:
  assumes keys: "storage_keys kc g" and "unlimited b" and "unlimited b2"
    and "steps n c" and "n < u32_MAX"
    and rec: "run_prog kc li c (with_recording_footprint (src_of sn), b) = (rs, (s, b1))"
    and m: "map_wf g m"
      "map_of m = (\<lambda>k. if k \<in> dom (map_of (footprint s)) then Some (sn k) else None)"
  shows "fst (run_prog kc li c (with_enforcing_footprint_and_map (footprint s) m, b2)) = rs"
proof -
  let ?r = "with_recording_footprint (src_of sn)" and ?e = "with_enforcing_footprint_and_map (footprint s) m"
  obtain rs0 st where a: "a_prog (Some sn) li c (Map.empty, Map.empty) = (rs0, st)"
    by (cases "a_prog (Some sn) li c (Map.empty, Map.empty)")
  have small: "small st"
    using a_prog_touches [OF assms(4) a] assms(5) by (auto simp: small_def)
  have r: "store_wf g ?r" "mode ?r = mode_of (Some sn)" "abs_store ?r = (Map.empty, Map.empty)"
    by (simp_all add: with_recording_footprint_def store_wf_def map_wf_def mode_of_def abs_store_def)
  from storage_keys.run_prog_refines [OF keys assms(2) r(1,2) _ small, unfolded r(3), OF a] rec
  have rs: "rs0 = rs" and s: "store_wf g s" "abs_store s = st" by auto
  have e: "store_wf g ?e" "mode ?e = mode_of None" "abs_store ?e = (fst st, map_of m)"
    using s m by (auto simp: with_enforcing_footprint_and_map_def store_wf_def mode_of_def abs_store_def
        split: if_splits)
  have fp: "fst st = map_of (footprint s)" using s(2) by (auto simp: abs_store_def)
  have same: "same_view sn (fst st) Map.empty (map_of m)" by (simp add: same_view_def m fp)
  obtain rs1 st1 where a1: "a_prog None li c (fst st, map_of m) = (rs1, st1)"
    by (cases "a_prog None li c (fst st, map_of m)")
  have rs1: "rs1 = rs0"
    using simM_prog [of sn li c Map.empty Map.empty rs0 "fst st" "snd st" "fst st" "map_of m"] a a1 same
    by simp
  have "dom (map_of m) = dom (map_of (footprint s))" using m(2) by (auto split: if_splits)
  then have "dom (snd st1) = dom (fst st)" "fst st1 = fst st"
    using a_prog_same_keys [OF a1] fp by (auto simp: same_keys_def)
  then have "small st1" using small by (simp add: small_def)
  from storage_keys.run_prog_refines [OF keys assms(3) e(1,2) _ this, unfolded e(3), OF a1] rs rs1
  show ?thesis by auto
qed

theorem recorded_footprint_suffices_witness:
  "\<exists>s b1. run_prog sample_compare None (Do (OGet sample_key) (\<lambda>_. Done))
      (with_recording_footprint (src_of (\<lambda>_. Some (sample_entry, Some 100))), unlimited_budget) =
      ([Inr (OutEntry (sample_entry, Some 100))], (s, b1))
   \<and> fst (run_prog sample_compare None (Do (OGet sample_key) (\<lambda>_. Done))
      (with_enforcing_footprint_and_map (footprint s) [(sample_key, Some (sample_entry, Some 100))],
       unlimited_budget)) = [Inr (OutEntry (sample_entry, Some 100))]"
proof -
  let ?c = "Do (OGet sample_key) (\<lambda>_. Done) :: (nat, nat) storage_prog"
  let ?sn = "\<lambda>_ :: nat LedgerKey. Some (sample_entry, Some (100 :: u32))"
  let ?r = "with_recording_footprint (src_of ?sn)"
  note keys = fixed_keys.storage_keys_axioms
  have a: "a_prog (Some ?sn) None ?c (abs_store ?r) =
      ([Inr (OutEntry (sample_entry, Some 100))], ([sample_key \<mapsto> ReadOnly], [sample_key \<mapsto> ?sn sample_key]))"
    by (simp add: a_get_full_def check_supported_ledger_key_type_def a_access_def a_load_def
        abs_store_def with_recording_footprint_def recorded_def okOrM_def)
      (simp add: bindM_def retM_apply modifyM_apply getM_def)
  have "store_wf sample_rank ?r" "mode ?r = mode_of (Some ?sn)"
    by (simp_all add: with_recording_footprint_def store_wf_def map_wf_def mode_of_def)
  from storage_keys.run_prog_refines [OF keys unlimited_budget_unlimited this a]
  obtain s b1 where rec: "run_prog sample_compare None ?c (?r, unlimited_budget) =
      ([Inr (OutEntry (sample_entry, Some 100))], (s, b1))"
    and s: "abs_store s = ([sample_key \<mapsto> ReadOnly], [sample_key \<mapsto> ?sn sample_key])"
    by (auto simp: small_def u32_MAX_def)
  have "steps 1 ?c" unfolding One_nat_def by (intro steps.intros)
  moreover have "map_wf sample_rank [(sample_key, Some (sample_entry, Some (100 :: u32)))]"
    by (simp add: map_wf_def u32_MAX_def)
  moreover have "map_of [(sample_key, Some (sample_entry, Some 100))] =
      (\<lambda>k. if k \<in> dom (map_of (footprint s)) then Some (?sn k) else None)"
    using s by (auto simp: abs_store_def fun_eq_iff)
  ultimately show ?thesis
    using recorded_footprint_suffices [OF keys unlimited_budget_unlimited unlimited_budget_unlimited
        _ _ rec] rec u32_MAX_pos by blast
qed

text \<open>C11: Reading back. In enforcing mode, once a write succeeded (on whatever budget), an unlimited
  read of the key returns the entry and lifetime written; once a deletion succeeded, the key is
  absent. The answers for other keys do not change.\<close>

theorem storage_put_get:
  assumes keys: "storage_keys kc g" and wf: "store_wf g s" "mode s = Enforcing"
    and put: "put_opt kc k v (s, b) = (Inr (), (s', b'))" and b2: "unlimited b2"
  shows "fst (get_with_live_until_ledger kc k (s', b2)) =
      (case v of Some x \<Rightarrow> Inr x | None \<Rightarrow> Inl (Err Storage MissingValue))
    \<and> (\<forall>k'. k' \<noteq> k \<longrightarrow> map_of (smap s') k' = map_of (smap s) k')"
proof -
  note ok = storage_keys.put_success [OF keys wf put]
  have iso: "isolated s s'" "store_wf g s'" using storage_keys.put_enforcing [OF keys wf put] by auto
  have m: "mode s' = Enforcing" "footprint s' = footprint s" using iso(1) wf(2) by (simp_all add: isolated_def)
  have al: "allowed (map_of (footprint s')) k ReadOnly" using ok(2) m(2) by (auto simp: allowed_def)
  obtain b3 where "try_get_full kc k (s', b2) = (Inr v, (s', b3))"
    using storage_keys.get_full_run [OF keys iso(2) m(1) ok(1) b2] al ok(3) by auto
  then have "fst (get_with_live_until_ledger kc k (s', b2)) =
      (case v of Some x \<Rightarrow> Inr x | None \<Rightarrow> Inl (Err Storage MissingValue))"
    by (simp add: get_with_live_until_ledger_def bindM_run okOrM_def retM_apply throwM_apply
        split: option.split)
  with ok(3) show ?thesis by simp
qed

theorem storage_put_get_witness:
  "\<exists>s' b'. put_opt sample_compare sample_key None (sample_store ReadWrite, unlimited_budget) =
      (Inr (), (s', b'))
   \<and> fst (get_with_live_until_ledger sample_compare sample_key (s', unlimited_budget)) =
      Inl (Err Storage MissingValue)"
proof -
  note keys = fixed_keys.storage_keys_axioms
  have "a_put None sample_key None (abs_store (sample_store ReadWrite)) =
      (Inr (), ([sample_key \<mapsto> ReadWrite], [sample_key \<mapsto> None]))"
    by (simp add: a_put_def check_supported_ledger_key_type_def abs_store_def sample_store_def
        with_enforcing_footprint_and_map_def bindM_def a_access_run allowed_def modifyM_apply retM_apply)
  from refM_D [OF storage_keys.refM_put [OF keys] unlimited_budget_unlimited sample_store_wf(1) _ this]
  obtain s' b' where
    put: "put_opt sample_compare sample_key None (sample_store ReadWrite, unlimited_budget) = (Inr (), (s', b'))"
    by (auto simp: mode_of_def sample_store_wf small_def u32_MAX_def)
  from storage_put_get [OF keys sample_store_wf put unlimited_budget_unlimited] put show ?thesis by auto
qed

lemma a_ttl_persistent:
  assumes "get_key_durability k = Some Persistent" "sequence_number l \<le> old"
    and ov: "unat (sequence_number l) + unat extend_to < 2 ^ 32"
      "unat (sequence_number l) + unat (max_entry_ttl l) < 2 ^ 32"
  obtains new where
    "unat new = unat (sequence_number l) + min (unat extend_to) (unat (max_entry_ttl l) - 1)"
    "a_ttl (Some l) k (Some old) threshold extend_to st =
      (Inr (if old < new \<and> saturating_sub old (sequence_number l) \<le> threshold then Some new else None), st)"
proof -
  let ?seq = "sequence_number l"
  obtain w where w: "checked_add ?seq extend_to = Some w" "unat w = unat ?seq + unat extend_to"
    using ov(1) by (cases "checked_add ?seq extend_to") (auto simp: checked_add_None checked_add_Some)
  obtain mx where mx: "checked_add ?seq (saturating_sub (max_entry_ttl l) 1) = Some mx"
    "unat mx = unat ?seq + (unat (max_entry_ttl l) - 1)"
    using ov(2) by (cases "checked_add ?seq (saturating_sub (max_entry_ttl l) 1)")
      (auto simp: checked_add_None checked_add_Some unat_saturating_sub)
  let ?new = "if mx < w then mx else w"
  have "unat ?new = unat ?seq + min (unat extend_to) (unat (max_entry_ttl l) - 1)"
    using w(2) mx(2) by (auto simp: word_less_nat_alt)
  moreover have "a_ttl (Some l) k (Some old) threshold extend_to st =
      (Inr (if old < ?new \<and> saturating_sub old ?seq \<le> threshold then Some ?new else None), st)"
    using assms(1) w(1) mx(1) leD [OF assms(2)]
    by (simp add: a_ttl_def with_ledger_info_def max_live_until_ledger_def okOrM_def retM_apply)
  ultimately show thesis by (rule that)
qed

text \<open>C12: Lifetime extension. For a live persistent entry in the footprint, with a ledger
  configuration that does not overflow, extending succeeds and sets the lifetime to the requested
  ledger, at most the network maximum, and never below what it was; it is left alone while more
  than \<open>threshold\<close> ledgers remain. Nothing else changes.\<close>

theorem extend_ttl_lifetime:
  assumes keys: "storage_keys kc g" and wf: "store_wf g s" "mode s = Enforcing"
    and "unlimited b" and "supported_key k"
    and "allowed (map_of (footprint s)) k ReadOnly"
    and "map_of (smap s) k = Some (Some (entry, Some old))"
    and "get_key_durability k = Some Persistent"
    and "sequence_number l \<le> old" and "threshold \<le> extend_to"
    and "unat (sequence_number l) + unat extend_to < 2 ^ 32"
    and "unat (sequence_number l) + unat (max_entry_ttl l) < 2 ^ 32"
    and "length (smap s) < u32_MAX"
  shows "\<exists>s' b' n. extend_ttl kc (Some l) k threshold extend_to (s, b) = (Inr (), (s', b'))
    \<and> map_of (smap s') = (map_of (smap s))(k \<mapsto> Some (entry, Some n))
    \<and> footprint s' = footprint s
    \<and> unat n = (if unat old - unat (sequence_number l) \<le> unat threshold
        then max (unat old) (unat (sequence_number l) + min (unat extend_to) (unat (max_entry_ttl l) - 1))
        else unat old)"
proof -
  let ?seq = "sequence_number l"
  obtain b1 where "try_get_full kc k (s, b) = (Inr (Some (entry, Some old)), (s, b1))" and b1: "unlimited b1"
    using storage_keys.get_full_run [OF keys wf assms(5,4)] assms(6,7) by auto
  then have get: "get_with_live_until_ledger kc k (s, b) = (Inr (entry, Some old), (s, b1))"
    by (simp add: get_with_live_until_ledger_def bindM_run okOrM_def retM_apply)
  obtain new where new: "unat new = unat ?seq + min (unat extend_to) (unat (max_entry_ttl l) - 1)"
    and ttl: "a_ttl (Some l) k (Some old) threshold extend_to (s, b1) =
      (Inr (if old < new \<and> saturating_sub old ?seq \<le> threshold then Some new else None), (s, b1))"
    by (rule a_ttl_persistent [OF assms(8,9,11,12)])
  have run: "extend_ttl kc (Some l) k threshold extend_to (s, b) =
      (if old < new \<and> saturating_sub old ?seq \<le> threshold
       then bindM (onBudget (map_insert (storage_ctx kc) (smap s) k (Some (entry, Some new)))) setMap (s, b1)
       else (Inr (), (s, b1)))"
    using assms(5,10)
    by (simp add: extend_ttl_alt check_supported_ledger_key_type_def bindM_run get ttl retM_apply leD)
  show ?thesis
  proof (cases "old < new \<and> saturating_sub old ?seq \<le> threshold")
    case True
    have "dom ((map_of (smap s))(k \<mapsto> Some (entry, Some new))) = dom (map_of (smap s))"
      using assms(7) by auto
    then have "card (dom ((map_of (smap s))(k \<mapsto> Some (entry, Some new)))) < u32_MAX"
      using assms(13) storage_keys.map_wf_length [OF keys, of "smap s"] wf(1) by (simp add: store_wf_def)
    from storage_keys.sm_insert_run [OF keys wf(1) assms(5) b1 this] obtain m' b' where
      "bindM (onBudget (map_insert (storage_ctx kc) (smap s) k (Some (entry, Some new)))) setMap (s, b1)
        = (Inr (), (s\<lparr>smap := m'\<rparr>, b'))" "map_of m' = (map_of (smap s))(k \<mapsto> Some (entry, Some new))" .
    with run True new show ?thesis
      by (intro exI [of _ "s\<lparr>smap := m'\<rparr>"] exI [of _ b'] exI [of _ new])
        (auto simp: word_le_nat_alt word_less_nat_alt unat_saturating_sub)
  next
    case False
    with run assms(7) new show ?thesis
      by (intro exI [of _ s] exI [of _ b1] exI [of _ old])
        (auto simp: word_le_nat_alt word_less_nat_alt unat_saturating_sub fun_eq_iff)
  qed
qed

definition sample_ledger :: LedgerInfo where
  "sample_ledger = \<lparr>protocol_version = 20, sequence_number = 90, timestamp = 0, base_reserve = 0,
     min_temp_entry_ttl = 16, min_persistent_entry_ttl = 4096, max_entry_ttl = 6312000\<rparr>"

theorem extend_ttl_lifetime_witness:
  "\<exists>s' b' n. extend_ttl sample_compare (Some sample_ledger) sample_key 50 500
      (sample_store ReadOnly, unlimited_budget) = (Inr (), (s', b'))
    \<and> map_of (smap s') = [sample_key \<mapsto> Some (sample_entry, Some n)]
    \<and> footprint s' = [(sample_key, ReadOnly)] \<and> unat n = 590"
  using extend_ttl_lifetime [OF fixed_keys.storage_keys_axioms sample_store_wf unlimited_budget_unlimited,
      of sample_key ReadOnly sample_entry 100 sample_ledger 50 500]
  by (simp add: sample_store_def with_enforcing_footprint_and_map_def allowed_def sample_key_def
      sample_ledger_def u32_MAX_def)

end
