(* ===== verification/Host_Events.thy ===== *)
theory Host_Events
  imports Metered_Clone
begin

text \<open>
  The events buffer (\<^verbatim>\<open>soroban-env-host/src/events/internal.rs\<close>): contract events and diagnostic
  events in the order they were recorded, each with the fate of the call it came from. Recording
  charges the budget; diagnostic work runs under \<open>Host::with_debug_mode\<close>, that is not at all, or
  in the budget's shadow mode with every error discarded. The conversions of host values into
  XDR values are the record \<open>event_conv\<close>.

  The theorem: nodes with different diagnostic levels agree on the contract events, on the fate of
  each and on the metered budget, whatever is recorded, in whatever nesting of successful and
  failed calls.
\<close>

section \<open>Data\<close>

datatype ContractEventType = SystemEvent | ContractEvent | DiagnosticEvent

record ('o, 'v) InternalContractEvent =
  ce_type :: ContractEventType
  ce_contract_id :: "'o option"
  ce_topics :: 'o
  ce_data :: 'v

datatype ('v, 'x) InternalDiagnosticArg = HostVal 'v | XdrVal 'x

record ('v, 'x) InternalDiagnosticEvent =
  de_contract_id :: "u256 option"
  de_topics :: "('v, 'x) InternalDiagnosticArg list"
  de_args :: "('v, 'x) InternalDiagnosticArg list"

datatype ('o, 'v, 'x) InternalEvent =
    ContractEv "('o, 'v) InternalContractEvent"
  | DiagnosticEv "('v, 'x) InternalDiagnosticEvent"

datatype EventError = FromFailedCall | FromSuccessfulCall

type_synonym ('o, 'v, 'x) events_buffer = "(('o, 'v, 'x) InternalEvent \<times> EventError) list"

text \<open>The external representation.\<close>

record 'x XdrContractEvent =
  xe_contract_id :: "u256 option"
  xe_type :: ContractEventType
  xe_topics :: "'x list"
  xe_data :: 'x

record 'x HostEvent =
  he_event :: "'x XdrContractEvent"
  he_failed_call :: bool

record ('o, 'v, 'x) event_conv =
  vecobject_to_scval_vec :: "'o \<Rightarrow> 'x list metered"
  from_host_val :: "'v \<Rightarrow> 'x metered"
  hash_from_bytesobj_input :: "'o \<Rightarrow> u256 metered"
  clone_scval :: "'x \<Rightarrow> 'x metered"
  clone_hash_opt :: "u256 option \<Rightarrow> u256 option metered"
  scval_vec :: "'x list \<Rightarrow> 'x"
  scval_void :: 'x

section \<open>Operations\<close>

fun mapM :: "('a \<Rightarrow> ('s, 'b) hm) \<Rightarrow> 'a list \<Rightarrow> ('s, 'b list) hm" where
  "mapM f [] = retM []"
| "mapM f (x # xs) = bindM (f x) (\<lambda>y. bindM (mapM f xs) (\<lambda>ys. retM (y # ys)))"

definition contract_event_to_xdr ::
  "('o, 'v, 'x) event_conv \<Rightarrow> ('o, 'v) InternalContractEvent \<Rightarrow> 'x XdrContractEvent metered" where
  "contract_event_to_xdr C e =
     bindM (vecobject_to_scval_vec C (ce_topics e)) (\<lambda>topics.
     bindM (from_host_val C (ce_data e)) (\<lambda>data.
     bindM (case ce_contract_id e of
         Some i \<Rightarrow> bindM (hash_from_bytesobj_input C i) (\<lambda>h. retM (Some h))
       | None \<Rightarrow> retM None) (\<lambda>contract_id.
     retM \<lparr>xe_contract_id = contract_id, xe_type = ce_type e, xe_topics = topics, xe_data = data\<rparr>)))"

text \<open>The collected results are inspected in order.\<close>

definition externalize_args ::
  "('o, 'v, 'x) event_conv \<Rightarrow> ('v, 'x) InternalDiagnosticArg list \<Rightarrow> 'x list metered" where
  "externalize_args C args =
     bindM (getM is_in_shadow_mode) (\<lambda>shadow.
       if \<not> shadow then throwM (Err Events InternalError)
       else thenM (result_vec_init_cpy 64 (length args))
         (mapM (\<lambda>arg. case arg of HostVal h \<Rightarrow> from_host_val C h | XdrVal v \<Rightarrow> clone_scval C v) args))"

definition diagnostic_event_to_xdr ::
  "('o, 'v, 'x) event_conv \<Rightarrow> ('v, 'x) InternalDiagnosticEvent \<Rightarrow> 'x XdrContractEvent metered" where
  "diagnostic_event_to_xdr C e =
     bindM (getM is_in_shadow_mode) (\<lambda>shadow.
       if \<not> shadow then throwM (Err Events InternalError)
       else bindM (externalize_args C (de_topics e)) (\<lambda>topics.
         thenM (guardM (length topics < 2 ^ 32) (Err Value InvalidInput))
         (bindM (externalize_args C (de_args e)) (\<lambda>args.
         bindM (if length args > 1 then
             thenM (guardM (length args < 2 ^ 32) (Err Value InvalidInput)) (retM (scval_vec C args))
           else (case args of arg # _ \<Rightarrow> retM arg | [] \<Rightarrow> retM (scval_void C))) (\<lambda>data.
         bindM (clone_hash_opt C (de_contract_id e)) (\<lambda>contract_id.
         retM \<lparr>xe_contract_id = contract_id, xe_type = DiagnosticEvent, xe_topics = topics,
           xe_data = data\<rparr>))))))"

text \<open>\<open>Budget::with_shadow_mode\<close> for work that changes more than the budget, and \<open>Host::with_debug_mode\<close>.\<close>

definition in_shadow_mode ::
  "('b \<times> BudgetImpl, unit) hm \<Rightarrow> 'b \<times> BudgetImpl \<Rightarrow> 'b \<times> BudgetImpl" where
  "in_shadow_mode f = (\<lambda>(s, b).
     (let prev = is_in_shadow_mode b;
          b1 = b\<lparr>is_in_shadow_mode := True\<rparr>;
          sb = (case check_budget_limit True (cpu_insns b1) of
                  Inl _ \<Rightarrow> (s, b1)
                | Inr _ \<Rightarrow> (case check_budget_limit True (mem_bytes b1) of
                     Inl _ \<Rightarrow> (s, b1)
                   | Inr _ \<Rightarrow> snd (f (s, b1))))
      in (fst sb, (snd sb)\<lparr>is_in_shadow_mode := prev\<rparr>)))"

datatype DiagnosticLevel = NoDiagnostics | Debug

definition with_debug_mode ::
  "DiagnosticLevel \<Rightarrow> ('b \<times> BudgetImpl, unit) hm \<Rightarrow> ('b \<times> BudgetImpl, unit) hm" where
  "with_debug_mode lvl f = modifyM (if lvl = Debug then in_shadow_mode f else (\<lambda>s. s))"

definition on_budget :: "'a metered \<Rightarrow> ('b \<times> BudgetImpl, 'a) hm" where
  "on_budget m = zoomM snd (\<lambda>b (s, _). (s, b)) m"

text \<open>An internal event and its status have a declared size of 40 + 1 + 8.\<close>

definition metered_internal_event_push ::
  "('o, 'v, 'x) InternalEvent \<Rightarrow> (('o, 'v, 'x) events_buffer \<times> BudgetImpl, unit) hm" where
  "metered_internal_event_push e =
     thenM (on_budget (vec_init_cpy 49 1))
       (modifyM (\<lambda>(buf, b). (buf @ [(e, FromSuccessfulCall)], b)))"

fun events_record ::
  "DiagnosticLevel \<Rightarrow> ('o, 'v, 'x) InternalEvent \<Rightarrow> (('o, 'v, 'x) events_buffer \<times> BudgetImpl, unit) hm" where
  "events_record lvl (ContractEv c) = metered_internal_event_push (ContractEv c)"
| "events_record lvl (DiagnosticEv d) = with_debug_mode lvl (metered_internal_event_push (DiagnosticEv d))"

definition events_rollback :: "nat \<Rightarrow> ('o, 'v, 'x) events_buffer \<Rightarrow> ('o, 'v, 'x) events_buffer" where
  "events_rollback events buf =
     take events buf @ map (\<lambda>(e, _). (e, FromFailedCall)) (drop events buf)"

definition metered_external_event_push ::
  "'x XdrContractEvent metered \<Rightarrow> EventError \<Rightarrow> ('x HostEvent list \<times> BudgetImpl, unit) hm" where
  "metered_external_event_push event status =
     bindM (on_budget event) (\<lambda>event.
       thenM (on_budget (vec_init_cpy 136 1))
         (modifyM (\<lambda>(out, b).
           (out @ [\<lparr>he_event = event, he_failed_call = (status = FromFailedCall)\<rparr>], b))))"

fun externalize_loop ::
  "('o, 'v, 'x) event_conv \<Rightarrow> DiagnosticLevel \<Rightarrow> ('o, 'v, 'x) events_buffer \<Rightarrow>
     ('x HostEvent list \<times> BudgetImpl, unit) hm" where
  "externalize_loop C lvl [] = retM ()"
| "externalize_loop C lvl ((ContractEv c, status) # buf) =
     thenM (metered_external_event_push (contract_event_to_xdr C c) status) (externalize_loop C lvl buf)"
| "externalize_loop C lvl ((DiagnosticEv d, status) # buf) =
     thenM (with_debug_mode lvl (metered_external_event_push (diagnostic_event_to_xdr C d) status))
       (externalize_loop C lvl buf)"

definition externalize ::
  "('o, 'v, 'x) event_conv \<Rightarrow> DiagnosticLevel \<Rightarrow> ('o, 'v, 'x) events_buffer \<Rightarrow> 'x HostEvent list metered" where
  "externalize C lvl buf b =
     (case externalize_loop C lvl buf ([], b) of
        (Inl e, (out, b')) \<Rightarrow> (Inl e, b')
      | (Inr _, (out, b')) \<Rightarrow> (Inr out, b'))"

text \<open>\<open>record_diagnostic_event\<close>: the event is allocated (declared size 88) and recorded.\<close>

definition record_diagnostic_event ::
  "DiagnosticLevel \<Rightarrow> ('v, 'x) InternalDiagnosticEvent \<Rightarrow> (('o, 'v, 'x) events_buffer \<times> BudgetImpl, unit) hm" where
  "record_diagnostic_event lvl de =
     with_debug_mode lvl (thenM (on_budget (metered_new 88))
       (events_record lvl (DiagnosticEv de)))"

section \<open>Shadow mode does not show\<close>

text \<open>\<open>hiddenM f v\<close>: run in shadow mode, \<open>f\<close> leaves the metered view \<open>v\<close> of the budget alone.\<close>

abbreviation shadowed :: "BudgetImpl \<Rightarrow> BudgetImpl \<Rightarrow> bool" where
  "shadowed v b \<equiv> is_in_shadow_mode b \<and> metered_view b = v"

abbreviation hiddenM :: "'a metered \<Rightarrow> bool" where
  "hiddenM f \<equiv> (\<forall>v. keepsM (shadowed v) f)"

lemma keeps_init_cpy: "keepsM (shadowed v) (vec_init_cpy sz n)" "keepsM (shadowed v) (metered_new sz)"
  "keepsM (shadowed v) (result_vec_init_cpy sz n)"
  unfolding vec_init_cpy_def result_vec_init_cpy_def metered_new_def charge_bulk_init_cpy_def charge_shallow_copy_def charge_heap_alloc_def charge_def
  by (intro keepsM_bind shadow_charge_keeps)+

lemma keeps_on_budget: "keepsM I m \<Longrightarrow> keepsM (\<lambda>st. P (fst st) \<and> I (snd st)) (on_budget m)"
  by (auto simp: keepsM_def on_budget_def zoomM_def split: prod.splits dest: sndI)

text \<open>Whatever runs in shadow mode and keeps a property of the rest of the state.\<close>

lemma in_shadow_frame:
  assumes "\<And>v. keepsM (\<lambda>st. P (fst st) \<and> shadowed v (snd st)) f" and "P s"
  shows "P (fst (in_shadow_mode f (s, b))) \<and> metered_view (snd (in_shadow_mode f (s, b))) = metered_view b"
proof -
  let ?b1 = "b\<lparr>is_in_shadow_mode := True\<rparr>"
  have "P (fst (snd (f (s, ?b1)))) \<and> shadowed (metered_view ?b1) (snd (snd (f (s, ?b1))))"
    using assms unfolding keepsM_def by auto
  then show ?thesis
    using assms(2) by (auto simp: in_shadow_mode_def Let_def metered_view_mode split: sum.splits)
qed

section \<open>What everybody observes\<close>

fun observable :: "('o, 'v, 'x) events_buffer \<Rightarrow> (('o, 'v) InternalContractEvent \<times> EventError) list" where
  "observable [] = []"
| "observable ((ContractEv c, st) # buf) = (c, st) # observable buf"
| "observable ((DiagnosticEv d, st) # buf) = observable buf"

lemma observable_append [simp]: "observable (xs @ ys) = observable xs @ observable ys"
  by (induction xs rule: observable.induct) simp_all

lemma observable_failed:
  "observable (map (\<lambda>(e, _). (e, FromFailedCall)) buf) = map (\<lambda>(c, _). (c, FromFailedCall)) (observable buf)"
  by (induction buf rule: observable.induct) simp_all

text \<open>The answer and the metered view afterwards depend on the metered view before only.\<close>

definition view_respecting :: "'a metered \<Rightarrow> bool" where
  "view_respecting m \<longleftrightarrow> (\<forall>b b'. metered_view b = metered_view b' \<and> \<not> is_in_shadow_mode b \<longrightarrow>
     fst (m b) = fst (m b') \<and> metered_view (snd (m b)) = metered_view (snd (m b')) \<and>
     \<not> is_in_shadow_mode (snd (m b)))"

lemma dimension_view_eq: "dimension_view d = dimension_view d' \<longleftrightarrow> cost_models d = cost_models d' \<and>
   limit d = limit d' \<and> total_count d = total_count d' \<and> shadow_limit d = shadow_limit d'"
  by (cases d; cases d') (auto simp: dimension_view_def)

lemma metered_view_eq: "metered_view b = metered_view b' \<longleftrightarrow>
   dimension_view (cpu_insns b) = dimension_view (cpu_insns b') \<and>
   dimension_view (mem_bytes b) = dimension_view (mem_bytes b') \<and>
   tracker b = tracker b' \<and> is_in_shadow_mode b = is_in_shadow_mode b' \<and> depth_limit b = depth_limit b'"
  by (cases b; cases b') (auto simp: metered_view_def)

lemma view_respecting_ret [intro!, simp]: "view_respecting (retM x)" "view_respecting (throwM e)"
  by (simp_all add: view_respecting_def m_defs)

lemma view_respecting_bind [intro]:
  assumes "view_respecting m" "\<And>x. view_respecting (f x)"
  shows "view_respecting (bindM m f)"
  unfolding view_respecting_def
proof (intro allI impI)
  fix b b' assume v: "metered_view b = metered_view b' \<and> \<not> is_in_shadow_mode b"
  obtain r b1 where m: "m b = (r, b1)" by (cases "m b")
  obtain r' b1' where m': "m b' = (r', b1')" by (cases "m b'")
  have 1: "r = r'" "metered_view b1 = metered_view b1'" "\<not> is_in_shadow_mode b1"
    using assms(1) v m m' unfolding view_respecting_def by (metis fst_conv snd_conv)+
  then show "fst (bindM m f b) = fst (bindM m f b') \<and>
      metered_view (snd (bindM m f b)) = metered_view (snd (bindM m f b')) \<and>
      \<not> is_in_shadow_mode (snd (bindM m f b))"
    using assms(2) m m' by (cases r) (auto simp: bindM_def view_respecting_def)
qed

lemma view_respecting_charge: "view_respecting (bulk_charge ty iters input)"
proof -
  note eqs = metered_view_eq dimension_view_eq upd_cost_tracker_def Let_def
  have "view_respecting (charge_track ty iters input)"
    unfolding view_respecting_def charge_track_def by (auto simp: eqs split: sum.splits)
  moreover have "view_respecting (charge_cpu ty iters input)" "view_respecting (charge_mem ty iters input)"
    unfolding view_respecting_def charge_cpu_def charge_mem_def dimension_charge_def check_budget_limit_def
    by (auto simp: eqs)
  ultimately show ?thesis unfolding bulk_charge_def by (intro view_respecting_bind)
qed

lemma view_respecting_init: "view_respecting (vec_init_cpy sz n)" "view_respecting (metered_new sz)"
  "view_respecting (clone_sized sz x)"
  unfolding vec_init_cpy_def metered_new_def charge_bulk_init_cpy_def charge_shallow_copy_def
    charge_heap_alloc_def charge_def clone_sized_def metered_clone_def
  by (intro view_respecting_bind view_respecting_charge view_respecting_ret;
      simp add: shallow_type_def default_substructure_def)+

section \<open>Recording in nested calls\<close>

text \<open>
  The traffic of the buffer: events are recorded, calls are entered (\<open>push_context\<close> takes the
  length of the buffer) and left (\<open>pop_context\<close> rolls the buffer back when the call failed).
\<close>

datatype ('o, 'v, 'x) ev_op = OpRecord "('o, 'v, 'x) InternalEvent" | OpEnter | OpLeave bool

type_synonym ('o, 'v, 'x) ev_state = "(('o, 'v, 'x) events_buffer \<times> nat list) \<times> BudgetImpl"

fun ev_step :: "DiagnosticLevel \<Rightarrow> ('o, 'v, 'x) ev_op \<Rightarrow> (('o, 'v, 'x) ev_state, unit) hm" where
  "ev_step lvl (OpRecord e) = (\<lambda>((buf, ms), b).
     case events_record lvl e (buf, b) of (r, (buf', b')) \<Rightarrow> (r, ((buf', ms), b')))"
| "ev_step lvl OpEnter = modifyM (\<lambda>((buf, ms), b). ((buf, length buf # ms), b))"
| "ev_step lvl (OpLeave failed) = (\<lambda>((buf, ms), b). case ms of
     [] \<Rightarrow> (Inl (Err Context InternalError), ((buf, ms), b))
   | m # ms \<Rightarrow> (Inr (), ((if failed then events_rollback m buf else buf, ms), b)))"

fun ev_run :: "DiagnosticLevel \<Rightarrow> ('o, 'v, 'x) ev_op list \<Rightarrow> (('o, 'v, 'x) ev_state, unit) hm" where
  "ev_run lvl [] = retM ()"
| "ev_run lvl (c # cs) = thenM (ev_step lvl c) (ev_run lvl cs)"

text \<open>The run as everybody sees it: its outcome, the non-diagnostic events and the metered budget.\<close>

definition published :: "'x HostEvent list \<Rightarrow> 'x HostEvent list" where
  "published = filter (\<lambda>e. xe_type (he_event e) \<noteq> DiagnosticEvent)"

definition ev_outcome ::
  "('o, 'v, 'x) event_conv \<Rightarrow> DiagnosticLevel \<Rightarrow> ('o, 'v, 'x) ev_op list \<Rightarrow> BudgetImpl \<Rightarrow>
     (Error + 'x HostEvent list) \<times> BudgetImpl" where
  "ev_outcome C lvl ops b =
     (case ev_run lvl ops (([], []), b) of
        (Inl e, (_, b')) \<Rightarrow> (Inl e, metered_view b')
      | (Inr _, ((buf, _), b')) \<Rightarrow>
          (case externalize C lvl buf b' of (r, b'') \<Rightarrow> (map_sum id published r, metered_view b'')))"

definition mark_rel :: "('o, 'v, 'x) events_buffer \<Rightarrow> ('o, 'v, 'x) events_buffer \<Rightarrow> nat \<Rightarrow> nat \<Rightarrow> bool" where
  "mark_rel buf buf' m m' \<longleftrightarrow> m \<le> length buf \<and> m' \<le> length buf' \<and>
     observable (take m buf) = observable (take m' buf')"

definition ev_rel :: "('o, 'v, 'x) ev_state \<Rightarrow> ('o, 'v, 'x) ev_state \<Rightarrow> bool" where
  "ev_rel = (\<lambda>((buf, ms), b) ((buf', ms'), b'). observable buf = observable buf' \<and>
     list_all2 (mark_rel buf buf') ms ms' \<and> sorted_wrt (\<ge>) ms \<and> sorted_wrt (\<ge>) ms' \<and> metered_view b = metered_view b' \<and> \<not> is_in_shadow_mode b)"

lemma mark_rel_append: "mark_rel buf buf' m m' \<Longrightarrow> mark_rel (buf @ xs) (buf' @ ys) m m'"
  by (simp add: mark_rel_def)

lemma observable_rollback:
  assumes "observable buf = observable buf'" "mark_rel buf buf' m m'"
  shows "observable (events_rollback m buf) = observable (events_rollback m' buf')"
proof -
  have "observable (take m buf) @ observable (drop m buf) = observable (take m' buf') @ observable (drop m' buf')"
    using assms(1) by (metis append_take_drop_id observable_append)
  then have "observable (drop m buf) = observable (drop m' buf')" using assms(2) by (simp add: mark_rel_def)
  then show ?thesis using assms(2) by (simp add: events_rollback_def observable_failed mark_rel_def)
qed

lemma take_rollback: "k \<le> m \<Longrightarrow> m \<le> length buf \<Longrightarrow> take k (events_rollback m buf) = take k buf"
  by (simp add: events_rollback_def min_def)

lemma length_rollback [simp]: "length (events_rollback m buf) = length buf"
  by (simp add: events_rollback_def)

text \<open>Marks below the one that is rolled back to still agree: they are no larger.\<close>

lemma marks_rollback:
  assumes "list_all2 (mark_rel buf buf') ms ms'" "\<forall>k\<in>set ms. k \<le> m" "\<forall>k\<in>set ms'. k \<le> m'"
    and "mark_rel buf buf' m m'"
  shows "list_all2 (mark_rel (events_rollback m buf) (events_rollback m' buf')) ms ms'"
  using assms by (auto simp: list_all2_conv_all_nth mark_rel_def take_rollback)

lemma push_diag_keeps:
  "keepsM (\<lambda>st. (\<exists>ds. observable ds = [] \<and> fst st = buf @ ds) \<and> shadowed v (snd st))
     (metered_internal_event_push (DiagnosticEv d))"
proof -
  have c: "keepsM (\<lambda>st. (\<exists>ds. observable ds = [] \<and> fst st = buf @ ds) \<and> shadowed v (snd st))
      (on_budget (vec_init_cpy 49 1))"
    by (rule keeps_on_budget [OF keeps_init_cpy(1)])
  show ?thesis
    unfolding metered_internal_event_push_def
    by (intro keepsM_bind c) (fastforce simp: keepsM_def modifyM_def)
qed

lemma record_diagnostic:
  "\<exists>ds b'. events_record lvl (DiagnosticEv d) (buf, b) = (Inr (), (buf @ ds, b')) \<and>
     observable ds = [] \<and> metered_view b' = metered_view b"
proof (cases lvl)
  case Debug
  obtain s' b' where r: "in_shadow_mode (metered_internal_event_push (DiagnosticEv d)) (buf, b) = (s', b')"
    by (cases "in_shadow_mode (metered_internal_event_push (DiagnosticEv d)) (buf, b)")
  have "(\<exists>ds. observable ds = [] \<and> s' = buf @ ds) \<and> metered_view b' = metered_view b"
    using in_shadow_frame [where P = "\<lambda>s. \<exists>ds. observable ds = [] \<and> s = buf @ ds" and s = buf and b = b, OF push_diag_keeps] r
    by (metis append_Nil2 fst_conv observable.simps(1) snd_conv)
  then show ?thesis using Debug r by (auto simp: with_debug_mode_def modifyM_def)
next
  case NoDiagnostics
  then show ?thesis by (intro exI [of _ "[]"] exI [of _ b]) (simp add: with_debug_mode_def modifyM_def)
qed

lemma marks_append:
  "list_all2 (mark_rel buf buf') ms ms' \<Longrightarrow> list_all2 (mark_rel (buf @ xs) (buf' @ ys)) ms ms'"
  by (erule list_all2_mono) (rule mark_rel_append)

lemma view_respecting_D:
  "view_respecting m \<Longrightarrow> m b = (r, b1) \<Longrightarrow> m b' = (r', b1') \<Longrightarrow> metered_view b = metered_view b' \<Longrightarrow>
   \<not> is_in_shadow_mode b \<Longrightarrow> r = r' \<and> metered_view b1 = metered_view b1' \<and> \<not> is_in_shadow_mode b1"
  unfolding view_respecting_def by (metis fst_conv snd_conv)

lemma ev_record_rel:
  assumes "ev_rel ((buf, ms), b) ((buf', ms'), b')"
  shows "\<exists>r st st'. ev_step l (OpRecord e) ((buf, ms), b) = (r, st) \<and>
    ev_step l' (OpRecord e) ((buf', ms'), b') = (r, st') \<and> ev_rel st st'"
proof (cases e)
  case (ContractEv c)
  obtain r b1 where 1: "vec_init_cpy 49 1 b = (r, b1)" by (cases "vec_init_cpy 49 1 b")
  obtain r' b1' where 2: "vec_init_cpy 49 1 b' = (r', b1')" by (cases "vec_init_cpy 49 1 b'")
  have "r = r' \<and> metered_view b1 = metered_view b1' \<and> \<not> is_in_shadow_mode b1"
    using view_respecting_D [OF view_respecting_init(1) 1 2] assms by (simp add: ev_rel_def)
  then show ?thesis using assms ContractEv 1 2
    by (cases r) (auto simp: ev_rel_def metered_internal_event_push_def on_budget_def m_defs marks_append)
next
  case (DiagnosticEv d)
  obtain ds b1 where 1: "events_record l (DiagnosticEv d) (buf, b) = (Inr (), (buf @ ds, b1))"
    "observable ds = []" "metered_view b1 = metered_view b" using record_diagnostic by blast
  obtain ds' b1' where 2: "events_record l' (DiagnosticEv d) (buf', b') = (Inr (), (buf' @ ds', b1'))"
    "observable ds' = []" "metered_view b1' = metered_view b'" using record_diagnostic by blast
  have "\<not> is_in_shadow_mode b1" using assms 1(3) by (auto simp: ev_rel_def metered_view_eq)
  then show ?thesis using assms 1 2 DiagnosticEv by (auto simp: ev_rel_def marks_append simp del: events_record.simps)
qed

lemma ev_step_rel:
  assumes "ev_rel st st'"
  shows "\<exists>r s s'. ev_step l c st = (r, s) \<and> ev_step l' c st' = (r, s') \<and> ev_rel s s'"
proof -
  obtain buf ms b where st: "st = ((buf, ms), b)" by (metis prod.exhaust)
  obtain buf' ms' b' where st': "st' = ((buf', ms'), b')" by (metis prod.exhaust)
  show ?thesis
  proof (cases c)
    case (OpRecord e)
    then show ?thesis using ev_record_rel assms st st' by metis
  next
    case OpEnter
    have "\<forall>m\<in>set ms. m \<le> length buf" "\<forall>m\<in>set ms'. m \<le> length buf'"
      using assms unfolding st st' ev_rel_def by (auto simp: list_all2_conv_all_nth mark_rel_def in_set_conv_nth)
    then show ?thesis using assms OpEnter unfolding st st'
      by (auto simp: ev_rel_def modifyM_def mark_rel_def)
  next
    case (OpLeave failed)
    show ?thesis
    proof (cases ms)
      case Nil
      then show ?thesis using assms OpLeave unfolding st st' by (auto simp: ev_rel_def)
    next
      case (Cons m ns)
      then obtain m' ns' where ms': "ms' = m' # ns'"
        using assms unfolding st st' by (auto simp: ev_rel_def list_all2_Cons1)
      have "list_all2 (mark_rel (events_rollback m buf) (events_rollback m' buf')) ns ns'"
        using assms unfolding st st' Cons ms' by (intro marks_rollback) (auto simp: ev_rel_def)
      then show ?thesis using assms OpLeave unfolding st st' Cons ms'
        by (auto simp: ev_rel_def observable_rollback)
    qed
  qed
qed

lemma ev_run_rel:
  "ev_rel st st' \<Longrightarrow> \<exists>r s s'. ev_run l ops st = (r, s) \<and> ev_run l' ops st' = (r, s') \<and> ev_rel s s'"
proof (induction ops arbitrary: st st')
  case (Cons c ops)
  obtain r s s' where 1: "ev_step l c st = (r, s)" "ev_step l' c st' = (r, s')" "ev_rel s s'"
    using ev_step_rel [OF Cons.prems] by blast
  then show ?case using Cons.IH [OF 1(3)] by (cases r) (auto simp: bindM_def)
qed (simp add: retM_def)

section \<open>Publishing\<close>

definition out_rel :: "'x HostEvent list \<times> BudgetImpl \<Rightarrow> 'x HostEvent list \<times> BudgetImpl \<Rightarrow> bool" where
  "out_rel = (\<lambda>(out, b) (out', b'). published out = published out' \<and> metered_view b = metered_view b' \<and>
     \<not> is_in_shadow_mode b)"

text \<open>The reference: only contract events are there.\<close>

fun publish_loop ::
  "('o, 'v, 'x) event_conv \<Rightarrow> (('o, 'v) InternalContractEvent \<times> EventError) list \<Rightarrow>
     ('x HostEvent list \<times> BudgetImpl, unit) hm" where
  "publish_loop C [] = retM ()"
| "publish_loop C ((c, status) # xs) =
     thenM (metered_external_event_push (contract_event_to_xdr C c) status) (publish_loop C xs)"

text \<open>
  What is assumed of the conversions: they charge the budget and read host objects; nothing
  about them depends on the shadow counters, and in shadow mode they touch only those.
\<close>

locale event_conversions =
  fixes C :: "('o, 'v, 'x) event_conv"
  assumes vec_respects: "view_respecting (vecobject_to_scval_vec C t)"
    and val_respects: "view_respecting (from_host_val C v)"
    and hash_respects: "view_respecting (hash_from_bytesobj_input C i)"
    and val_hidden: "keepsM (shadowed w) (from_host_val C v)"
    and clone_hidden: "keepsM (shadowed w) (clone_scval C x)"
    and id_hidden: "keepsM (shadowed w) (clone_hash_opt C i')"
begin

lemma contract_respects: "view_respecting (contract_event_to_xdr C e)"
  unfolding contract_event_to_xdr_def
  by (auto intro!: view_respecting_bind vec_respects val_respects hash_respects split: option.split)

lemma mapM_hidden: "keepsM (shadowed w) (mapM (\<lambda>arg. case arg of HostVal h \<Rightarrow> from_host_val C h
    | XdrVal v \<Rightarrow> clone_scval C v) args)"
  by (induction args) (auto intro!: keepsM_bind val_hidden clone_hidden split: InternalDiagnosticArg.split)

lemma diagnostic_hidden: "keepsM (shadowed w) (diagnostic_event_to_xdr C d)"
proof -
  have a: "keepsM (shadowed w) (externalize_args C args)" for args
    unfolding externalize_args_def by (auto intro!: keepsM_bind keeps_init_cpy mapM_hidden)
  show ?thesis unfolding diagnostic_event_to_xdr_def
    by (auto intro!: keepsM_bind a id_hidden split: list.split)
qed

lemma diagnostic_type: "diagnostic_event_to_xdr C d b = (Inr ev, b') \<Longrightarrow> xe_type ev = DiagnosticEvent"
  unfolding diagnostic_event_to_xdr_def by (auto simp: m_simps split: if_splits)

lemma external_diag_keeps:
  "keepsM (\<lambda>st. published (fst st) = out \<and> shadowed w (snd st))
     (metered_external_event_push (diagnostic_event_to_xdr C d) status)"
  unfolding keepsM_def
proof (intro allI impI)
  fix st :: "'x HostEvent list \<times> BudgetImpl"
  assume pre: "published (fst st) = out \<and> shadowed w (snd st)"
  obtain o0 b where st: "st = (o0, b)" by (cases st)
  obtain r b1 where 1: "diagnostic_event_to_xdr C d b = (r, b1)" by (cases "diagnostic_event_to_xdr C d b")
  have s1: "shadowed w b1" using keepsM_D [OF diagnostic_hidden 1] pre st by simp
  obtain r2 b2 where 2: "vec_init_cpy 136 1 b1 = (r2, b2)" by (cases "vec_init_cpy 136 1 b1")
  have s2: "shadowed w b2" using keepsM_D [OF keeps_init_cpy(1) 2] s1 by simp
  show "published (fst (snd (metered_external_event_push (diagnostic_event_to_xdr C d) status st))) = out \<and>
      shadowed w (snd (snd (metered_external_event_push (diagnostic_event_to_xdr C d) status st)))"
    using pre 1 2 s1 s2 diagnostic_type [of d b _ b1] unfolding st
    by (cases r; cases r2) (auto simp: metered_external_event_push_def on_budget_def m_defs published_def)
qed

lemma external_diagnostic:
  "\<exists>out' b'. with_debug_mode l (metered_external_event_push (diagnostic_event_to_xdr C d) status) (out, b) =
     (Inr (), (out', b')) \<and> published out' = published out \<and> metered_view b' = metered_view b"
proof (cases l)
  case Debug
  let ?f = "metered_external_event_push (diagnostic_event_to_xdr C d) status"
  obtain s' b' where r: "in_shadow_mode ?f (out, b) = (s', b')" by (cases "in_shadow_mode ?f (out, b)")
  have "published s' = published out \<and> metered_view b' = metered_view b"
    using in_shadow_frame [where P = "\<lambda>s. published s = published out" and s = out and b = b, OF external_diag_keeps] r
    by (metis fst_conv snd_conv)
  then show ?thesis using Debug r by (simp add: with_debug_mode_def modifyM_def)
qed (simp add: with_debug_mode_def modifyM_def)

lemma external_contract:
  assumes "out_rel (out, b) (out', b')"
  shows "\<exists>r t t'. metered_external_event_push (contract_event_to_xdr C c) status (out, b) = (r, t) \<and>
    metered_external_event_push (contract_event_to_xdr C c) status (out', b') = (r, t') \<and> out_rel t t'"
proof -
  obtain r b1 where 1: "contract_event_to_xdr C c b = (r, b1)" by (cases "contract_event_to_xdr C c b")
  obtain r' b1' where p1: "contract_event_to_xdr C c b' = (r', b1')" by (cases "contract_event_to_xdr C c b'")
  have v: "r = r' \<and> metered_view b1 = metered_view b1' \<and> \<not> is_in_shadow_mode b1"
    using view_respecting_D [OF contract_respects 1 p1] assms by (simp add: out_rel_def)
  obtain q b2 where 2: "vec_init_cpy 136 1 b1 = (q, b2)" by (cases "vec_init_cpy 136 1 b1")
  obtain q' b2' where p2: "vec_init_cpy 136 1 b1' = (q', b2')" by (cases "vec_init_cpy 136 1 b1'")
  have "q = q' \<and> metered_view b2 = metered_view b2' \<and> \<not> is_in_shadow_mode b2"
    using view_respecting_D [OF view_respecting_init(1) 2 p2] v by simp
  then show ?thesis using v 1 p1 2 p2 assms
    by (cases r; cases q) (auto simp: metered_external_event_push_def on_budget_def m_defs out_rel_def published_def)
qed

lemma externalize_publishes:
  "out_rel s s' \<Longrightarrow> \<exists>r t t'. externalize_loop C l buf s = (r, t) \<and>
     publish_loop C (observable buf) s' = (r, t') \<and> out_rel t t'"
proof (induction buf arbitrary: s s' rule: observable.induct)
  case (2 c st buf)
  obtain out b where s: "s = (out, b)" by (cases s)
  obtain out' b' where s': "s' = (out', b')" by (cases s')
  obtain r t t' where "metered_external_event_push (contract_event_to_xdr C c) st s = (r, t)"
    "metered_external_event_push (contract_event_to_xdr C c) st s' = (r, t')" "out_rel t t'"
    using external_contract 2(2) s s' by blast
  then show ?case using 2(1) [of t t'] by (cases r) (auto simp: bindM_def)
next
  case (3 d st buf)
  obtain out b where s: "s = (out, b)" by (cases s)
  obtain out1 b1 where 1: "with_debug_mode l (metered_external_event_push (diagnostic_event_to_xdr C d) st) s =
     (Inr (), (out1, b1))" "published out1 = published out" "metered_view b1 = metered_view b"
    using external_diagnostic s by blast
  have "out_rel (out1, b1) s'" using 3(2) 1 s by (auto simp: out_rel_def metered_view_eq)
  then show ?case using 3(1) 1 by (auto simp: bindM_def)
qed (simp add: retM_def)

lemma same_publication:
  assumes "observable buf = observable buf'" "metered_view b = metered_view b'" "\<not> is_in_shadow_mode b"
    and "externalize C l buf b = (r, b1)" "externalize C l' buf' b' = (r', b1')"
  shows "map_sum id published r = map_sum id published r' \<and> metered_view b1 = metered_view b1'"
proof -
  have rel: "out_rel ([], b) ([], b)" "out_rel ([], b') ([], b)"
    using assms(2,3) by (auto simp: out_rel_def metered_view_eq)
  obtain q t t' where 1: "externalize_loop C l buf ([], b) = (q, t)"
    "publish_loop C (observable buf) ([], b) = (q, t')" "out_rel t t'"
    using externalize_publishes [OF rel(1)] by blast
  obtain u where 2: "externalize_loop C l' buf' ([], b') = (q, u)" "out_rel u t'"
    using externalize_publishes [OF rel(2), of l' buf'] 1(2) assms(1) by auto
  show ?thesis using assms(4,5) 1 2
    by (cases q) (auto simp: externalize_def out_rel_def split: prod.splits)
qed

lemma outcome_independent:
  assumes "\<not> is_in_shadow_mode b"
  shows "ev_outcome C l ops b = ev_outcome C l' ops b"
proof -
  have "ev_rel (([], []), b) (([], []), b)" using assms by (simp add: ev_rel_def)
  from ev_run_rel [OF this] obtain r s s' where
    1: "ev_run l ops (([], []), b) = (r, s)" "ev_run l' ops (([], []), b) = (r, s')" "ev_rel s s'"
    by blast
  obtain buf ms b1 buf' ms' b1' where s: "s = ((buf, ms), b1)" "s' = ((buf', ms'), b1')" by (metis prod.exhaust)
  show ?thesis
  proof (cases r)
    case (Inl e)
    then show ?thesis using 1 s by (simp add: ev_outcome_def ev_rel_def)
  next
    case (Inr u)
    then show ?thesis
      using 1 s same_publication [of buf buf' b1 b1' l _ _ l']
      by (auto simp: ev_outcome_def ev_rel_def split: prod.splits)
  qed
qed

end

section \<open>An instance\<close>

text \<open>Conversions that copy a word into a word, charging what copying an \<open>ScVal\<close> or a hash charges.\<close>

definition copying_conv :: "(u64, u64, u64) event_conv" where
  "copying_conv = \<lparr>vecobject_to_scval_vec = (\<lambda>t. thenM (vec_init_cpy 64 1) (retM [t])),
     from_host_val = clone_sized 64, hash_from_bytesobj_input = (\<lambda>i. bindM (clone_sized 32 i) (\<lambda>i. retM (ucast i))),
     clone_scval = clone_sized 64, clone_hash_opt = clone_sized 40, scval_vec = (\<lambda>xs. sum_list xs), scval_void = 0\<rparr>"

lemma keeps_clone: "keepsM (shadowed v) (clone_sized sz x)"
  unfolding clone_sized_def metered_clone_def charge_shallow_copy_def charge_def
  by (intro keepsM_bind shadow_charge_keeps keepsM_ret) (simp add: shallow_type_def default_substructure_def)

interpretation copying: event_conversions copying_conv
  by unfold_locales
    (auto simp: copying_conv_def intro!: view_respecting_bind view_respecting_init keeps_clone)

section \<open>Diagnostics never diverge\<close>

text \<open>
  C18: the diagnostic level of a node does not show. For any sequence of recorded events (contract
  and diagnostic) in any nesting of calls that succeed or fail, two nodes with different diagnostic
  levels compute the same outcome, publish the same contract events with the same failed-call
  flags, and end with the same metered budget. The conversions to XDR are assumed to depend on
  the metered budget only.
\<close>

theorem diagnostic_level_independent:
  assumes "event_conversions C" and "\<not> is_in_shadow_mode b"
  shows "ev_outcome C l ops b = ev_outcome C l' ops b"
  by (rule event_conversions.outcome_independent [OF assms])

theorem diagnostic_level_independent_witness:
  "event_conversions copying_conv \<and> \<not> is_in_shadow_mode unlimited_budget \<and>
   ev_outcome copying_conv Debug
     [OpRecord (ContractEv \<lparr>ce_type = ContractEvent, ce_contract_id = None, ce_topics = 1, ce_data = 2\<rparr>),
      OpEnter, OpRecord (DiagnosticEv \<lparr>de_contract_id = None, de_topics = [HostVal 3], de_args = []\<rparr>),
      OpRecord (ContractEv \<lparr>ce_type = SystemEvent, ce_contract_id = None, ce_topics = 4, ce_data = 5\<rparr>),
      OpLeave True] unlimited_budget =
   ev_outcome copying_conv NoDiagnostics
     [OpRecord (ContractEv \<lparr>ce_type = ContractEvent, ce_contract_id = None, ce_topics = 1, ce_data = 2\<rparr>),
      OpEnter, OpRecord (DiagnosticEv \<lparr>de_contract_id = None, de_topics = [HostVal 3], de_args = []\<rparr>),
      OpRecord (ContractEv \<lparr>ce_type = SystemEvent, ce_contract_id = None, ce_topics = 4, ce_data = 5\<rparr>),
      OpLeave True] unlimited_budget"
  using diagnostic_level_independent [OF copying.event_conversions_axioms, of unlimited_budget]
    copying.event_conversions_axioms unlimited_budget_unlimited unfolding unlimited_def by blast

end
