(* ===== verification/Host_Data.thy ===== *)
theory Host_Data
  imports Host_Storage Host_Events Val_Repr
begin

text \<open>
  The host's state and the ledger data of contracts: contexts and their instance storage
  (\<^verbatim>\<open>soroban-env-host/src/host/frame.rs\<close>), contract instances, code and data
  (\<^verbatim>\<open>host/data_helper.rs\<close>, the storage functions of \<^verbatim>\<open>host.rs\<close>, \<^verbatim>\<open>host/conversion.rs\<close>) and
  nonces (\<^verbatim>\<open>auth.rs\<close>).

  A host value is the 64-bit word of \<open>Val_Repr\<close>; an XDR value of contract data is of the opaque
  type \<open>'x\<close>. What the XDR library and the object table supply is the record \<open>host_env\<close>: how keys
  are formed, metered clones of XDR structures, conversions between host and XDR values, and
  the comparison of host values. The remaining parts of the host are of type \<open>'z\<close>.

  The theorems: a nonce can be consumed once; a contract's storage functions touch nothing but
  the contract data of that contract.
\<close>

section \<open>Ledger entries\<close>

datatype ScAddress = AccountAddr u256 | ContractAddr u256

datatype ContractExecutable = Wasm u256 | StellarAsset

record 'x ScContractInstance =
  executable :: ContractExecutable
  inst_storage :: "('x \<times> 'x) list option"

datatype 'x ScKey = KeyInstance | KeyNonce int | KeyVal 'x

datatype 'x ScValue = ScInstance "'x ScContractInstance" | ScVoid | ScOther 'x

record 'x ContractDataEntry =
  cd_contract :: ScAddress
  cd_key :: "'x ScKey"
  cd_durability :: ContractDataDurability
  cd_val :: "'x ScValue"

text \<open>Accounts and trustlines of the classic ledger: the fields the host reads or writes.\<close>

datatype SignerKey = Ed25519 u256 | OtherSigner

record Liabilities =
  buying :: int
  selling :: int

datatype AccountEntryExt =
    AccExtV0
  | AccExtV1 Liabilities "(u32 \<times> u32) option"

record AccountEntry =
  account_id :: u256
  acc_balance :: int
  num_sub_entries :: u32
  acc_flags :: u32
  thresholds :: "u8 list"
  signers :: "(SignerKey \<times> u32) list"
  acc_ext :: AccountEntryExt

record TrustLineEntry =
  tl_balance :: int
  tl_limit :: int
  tl_flags :: u32
  tl_liabilities :: "Liabilities option"

datatype 'x EntryData =
    AccountData AccountEntry
  | TrustLineData TrustLineEntry
  | ContractData "'x ContractDataEntry"
  | ContractCode u256 "u8 list"

section \<open>The host\<close>

datatype HostFunctionType = InvokeContract | CreateContract | UploadContractWasm

datatype 'x Frame =
    ContractVM u256 Val "Val list" "'x ScContractInstance" "Val list"
  | HostFunctionFrame HostFunctionType
  | StellarAssetContractFrame u256 Val "Val list" "'x ScContractInstance"

record InstanceStorageMap =
  is_map :: "(Val, Val) ord_map"
  is_modified :: bool

text \<open>A context without its random number generator, which no modelled operation uses.\<close>

record 'x Context =
  frame :: "'x Frame"
  ctx_storage :: "InstanceStorageMap option"

record ('p, 'x, 'z) HostState =
  context_stack :: "'x Context list"
  hstorage :: "('p, 'x EntryData) store"
  hbudget :: BudgetImpl
  hevents :: "(Val, Val, 'x) events_buffer"
  hledger :: "LedgerInfo option"
  hrest :: 'z

type_synonym ('p, 'x, 'z, 'r) hostM = "(('p, 'x, 'z) HostState, 'r) hm"

record ('p, 'x, 'z) host_env =
  key_cmp :: "'p key_compare"
  p_account :: "u256 \<Rightarrow> 'p"
  p_address :: "ScAddress \<Rightarrow> 'p"
  p_key :: "'x ScKey \<Rightarrow> 'p"
  p_code :: "u256 \<Rightarrow> 'p"
  clone_instance :: "'x ScContractInstance \<Rightarrow> 'x ScContractInstance metered"
  clone_entry :: "'x EntryData LedgerEntry \<Rightarrow> 'x EntryData LedgerEntry metered"
  clone_code :: "u8 list \<Rightarrow> u8 list metered"
  clone_account :: "AccountEntry \<Rightarrow> AccountEntry metered"
  scval_from_val :: "Val \<Rightarrow> ('z \<times> BudgetImpl, 'x) hm"
  val_from_scval :: "'x \<Rightarrow> ('z \<times> BudgetImpl, Val) hm"
  scvalue_to_val :: "'x ScValue \<Rightarrow> ('z \<times> BudgetImpl, Val) hm"
  can_represent_scval :: "'x \<Rightarrow> bool"
  val_ctx :: "'z \<Rightarrow> (Val, Val) map_ctx"

definition onB :: "'r metered \<Rightarrow> ('p, 'x, 'z, 'r) hostM" where
  "onB m = zoomM hbudget (\<lambda>b h. h\<lparr>hbudget := b\<rparr>) m"

definition onStore :: "('p, 'x EntryData, 'r) storing \<Rightarrow> ('p, 'x, 'z, 'r) hostM" where
  "onStore m = zoomM (\<lambda>h. (hstorage h, hbudget h)) (\<lambda>(s, b) h. h\<lparr>hstorage := s, hbudget := b\<rparr>) m"

definition onObjects :: "('z \<times> BudgetImpl, 'r) hm \<Rightarrow> ('p, 'x, 'z, 'r) hostM" where
  "onObjects m = zoomM (\<lambda>h. (hrest h, hbudget h)) (\<lambda>(z, b) h. h\<lparr>hrest := z, hbudget := b\<rparr>) m"

section \<open>Contexts\<close>

fun frame_contract_id :: "'x Frame \<Rightarrow> u256 option" where
  "frame_contract_id (ContractVM i _ _ _ _) = Some i"
| "frame_contract_id (HostFunctionFrame _) = None"
| "frame_contract_id (StellarAssetContractFrame i _ _ _) = Some i"

fun frame_instance :: "'x Frame \<Rightarrow> 'x ScContractInstance option" where
  "frame_instance (ContractVM _ _ _ ins _) = Some ins"
| "frame_instance (HostFunctionFrame _) = None"
| "frame_instance (StellarAssetContractFrame _ _ _ ins) = Some ins"

abbreviation context_internal :: Error where "context_internal \<equiv> Err Context InternalError"

definition has_frame :: "('p, 'x, 'z, bool) hostM" where
  "has_frame = getM (\<lambda>h. context_stack h \<noteq> [])"

definition with_current_frame :: "('x Frame \<Rightarrow> ('p, 'x, 'z, 'r) hostM) \<Rightarrow> ('p, 'x, 'z, 'r) hostM" where
  "with_current_frame f = bindM (getM context_stack) (\<lambda>cs.
     if cs = [] then throwM context_internal else f (frame (last cs)))"

definition with_current_frame_opt ::
  "('x Frame option \<Rightarrow> ('p, 'x, 'z, 'r) hostM) \<Rightarrow> ('p, 'x, 'z, 'r) hostM" where
  "with_current_frame_opt f = bindM (getM context_stack) (\<lambda>cs.
     f (if cs = [] then None else Some (frame (last cs))))"

text \<open>
  The closure of \<open>with_current_context_mut\<close> works on the top context; the stack is borrowed, so the
  rest of the state is all it can reach.
\<close>

definition with_current_context_mut ::
  "('x Context \<times> ('p, 'x, 'z) HostState, 'r) hm \<Rightarrow> ('p, 'x, 'z, 'r) hostM" where
  "with_current_context_mut f = (\<lambda>h.
     if context_stack h = [] then (Inl context_internal, h)
     else case f (last (context_stack h), h) of
       (r, (ctx, h')) \<Rightarrow> (r, h'\<lparr>context_stack := butlast (context_stack h) @ [ctx]\<rparr>))"

definition get_current_contract_id_opt_internal :: "('p, 'x, 'z, u256 option) hostM" where
  "get_current_contract_id_opt_internal = with_current_frame_opt (\<lambda>opt. case opt of
     Some fr \<Rightarrow> (case frame_contract_id fr of
         Some i \<Rightarrow> bindM (onB (clone_sized 32 i)) (\<lambda>i. retM (Some i))
       | None \<Rightarrow> retM None)
   | None \<Rightarrow> retM None)"

definition get_current_contract_id_internal :: "('p, 'x, 'z, u256) hostM" where
  "get_current_contract_id_internal = bindM get_current_contract_id_opt_internal (\<lambda>opt.
     case opt of Some i \<Rightarrow> retM i | None \<Rightarrow> throwM context_internal)"

section \<open>Contract instances and code\<close>

definition contract_instance_ledger_key ::
  "('p, 'x, 'z) host_env \<Rightarrow> u256 \<Rightarrow> ('p, 'x, 'z, 'p LedgerKey) hostM" where
  "contract_instance_ledger_key E contract_id =
     bindM (onB (clone_sized 32 contract_id)) (\<lambda>contract_id.
       thenM (onB (metered_new 120))
         (retM (KContractData (p_address E (ContractAddr contract_id)) (p_key E KeyInstance) Persistent)))"

abbreviation storage_internal :: Error where "storage_internal \<equiv> Err Storage InternalError"

definition retrieve_contract_instance_from_storage ::
  "('p, 'x, 'z) host_env \<Rightarrow> 'p LedgerKey \<Rightarrow> ('p, 'x, 'z, 'x ScContractInstance) hostM" where
  "retrieve_contract_instance_from_storage E key =
     bindM (onStore (storage_get (key_cmp E) key)) (\<lambda>entry. case data_content entry of
       ContractData e \<Rightarrow> (case cd_val e of
           ScInstance ins \<Rightarrow> onB (clone_instance E ins)
         | _ \<Rightarrow> throwM storage_internal)
     | _ \<Rightarrow> throwM storage_internal)"

definition contract_code_ledger_key ::
  "('p, 'x, 'z) host_env \<Rightarrow> u256 \<Rightarrow> ('p, 'x, 'z, 'p LedgerKey) hostM" where
  "contract_code_ledger_key E wasm_hash =
     bindM (onB (clone_sized 32 wasm_hash)) (\<lambda>wasm_hash.
       thenM (onB (metered_new 120)) (retM (KContractCode (p_code E wasm_hash))))"

definition retrieve_wasm_from_storage ::
  "('p, 'x, 'z) host_env \<Rightarrow> u256 \<Rightarrow> ('p, 'x, 'z, u8 list) hostM" where
  "retrieve_wasm_from_storage E wasm_hash =
     bindM (contract_code_ledger_key E wasm_hash) (\<lambda>key.
       bindM (onStore (storage_get (key_cmp E) key)) (\<lambda>entry. case data_content entry of
         ContractCode _ code \<Rightarrow> onB (clone_code E code)
       | _ \<Rightarrow> throwM storage_internal))"

definition wasm_exists :: "('p, 'x, 'z) host_env \<Rightarrow> u256 \<Rightarrow> ('p, 'x, 'z, bool) hostM" where
  "wasm_exists E wasm_hash =
     bindM (contract_code_ledger_key E wasm_hash) (\<lambda>key. onStore (storage_has (key_cmp E) key))"

definition new_contract_data :: "'x ContractDataEntry \<Rightarrow> ('p, 'x, 'z, 'x EntryData LedgerEntry) hostM" where
  "new_contract_data data = thenM (onB (metered_new 256))
     (retM \<lparr>data_type = TContractData, data_content = ContractData data\<rparr>)"

definition new_contract_code :: "u256 \<Rightarrow> u8 list \<Rightarrow> ('p, 'x, 'z, 'x EntryData LedgerEntry) hostM" where
  "new_contract_code hash code = thenM (onB (metered_new 256))
     (retM \<lparr>data_type = TContractCode, data_content = ContractCode hash code\<rparr>)"

definition min_live_until :: "ContractDataDurability \<Rightarrow> ('p, 'x, 'z, u32) hostM" where
  "min_live_until d = bindM (getM hledger) (\<lambda>li. get_min_live_until_ledger li d)"

definition store_contract_instance ::
  "('p, 'x, 'z) host_env \<Rightarrow> ContractExecutable option \<Rightarrow> ('x \<times> 'x) list option \<Rightarrow> u256 \<Rightarrow>
     'p LedgerKey \<Rightarrow> ('p, 'x, 'z, unit) hostM" where
  "store_contract_instance E exec instance_storage contract_id key =
     bindM (onStore (storage_has (key_cmp E) key)) (\<lambda>present.
       if present then
         bindM (onStore (get_with_live_until_ledger (key_cmp E) key)) (\<lambda>(current, live_until_ledger).
         bindM (onB (clone_entry E current)) (\<lambda>current.
         bindM (case data_content current of
             ContractData entry \<Rightarrow> (case cd_val entry of
                 ScInstance ins \<Rightarrow>
                   (let ins = (case exec of Some e \<Rightarrow> ins\<lparr>executable := e\<rparr> | None \<Rightarrow> ins);
                        ins = (case instance_storage of
                            Some s \<Rightarrow> ins\<lparr>inst_storage := Some s\<rparr> | None \<Rightarrow> ins)
                    in retM (current\<lparr>data_content := ContractData (entry\<lparr>cd_val := ScInstance ins\<rparr>)\<rparr>))
               | _ \<Rightarrow> throwM storage_internal)
           | _ \<Rightarrow> throwM storage_internal) (\<lambda>current.
         thenM (onB (metered_new 256))
           (onStore (storage_put (key_cmp E) key current live_until_ledger)))))
       else
         bindM (onB (clone_sized 32 contract_id)) (\<lambda>contract_id.
         bindM (okOrM exec context_internal) (\<lambda>exec.
         bindM (new_contract_data \<lparr>cd_contract = ContractAddr contract_id, cd_key = KeyInstance,
             cd_durability = Persistent,
             cd_val = ScInstance \<lparr>executable = exec, inst_storage = instance_storage\<rparr>\<rparr>) (\<lambda>entry.
         bindM (min_live_until Persistent) (\<lambda>live.
           onStore (storage_put (key_cmp E) key entry (Some live)))))))"

definition extend_contract_instance_and_code_ttl_from_contract_id ::
  "('p, 'x, 'z) host_env \<Rightarrow> u256 \<Rightarrow> u32 \<Rightarrow> u32 \<Rightarrow> ('p, 'x, 'z, unit) hostM" where
  "extend_contract_instance_and_code_ttl_from_contract_id E contract_id threshold extend_to =
     bindM (contract_instance_ledger_key E contract_id) (\<lambda>key.
     bindM (getM hledger) (\<lambda>li.
     bindM (onB (metered_clone rc_type key)) (\<lambda>key'.
     thenM (onStore (extend_ttl (key_cmp E) li key' threshold extend_to))
     (bindM (retrieve_contract_instance_from_storage E key) (\<lambda>ins. case executable ins of
         Wasm wasm_hash \<Rightarrow>
           bindM (contract_code_ledger_key E wasm_hash) (\<lambda>key.
             onStore (extend_ttl (key_cmp E) li key threshold extend_to))
       | StellarAsset \<Rightarrow> retM ())))))"

section \<open>Instance storage\<close>

definition onHostOf :: "('s, 'r) hm \<Rightarrow> ('t \<times> 's, 'r) hm" where
  "onHostOf m = zoomM snd (\<lambda>h (t, _). (t, h)) m"

definition maybe_init_instance_storage ::
  "('p, 'x, 'z) host_env \<Rightarrow> ('x Context \<times> ('p, 'x, 'z) HostState, unit) hm" where
  "maybe_init_instance_storage E =
     bindM (getM fst) (\<lambda>ctx.
       if ctx_storage ctx \<noteq> None then retM ()
       else case frame_instance (frame ctx) of
         None \<Rightarrow> throwM context_internal
       | Some ins \<Rightarrow>
           bindM (case inst_storage ins of
               None \<Rightarrow> retM []
             | Some m \<Rightarrow> thenM (onHostOf (onB (result_vec_init_cpy 24 (length m))))
                 (onHostOf (mapM (\<lambda>(k, v). bindM (onObjects (val_from_scval E k)) (\<lambda>k.
                    bindM (onObjects (val_from_scval E v)) (\<lambda>v. retM (k, v)))) m))) (\<lambda>m.
           bindM (getM (\<lambda>st. hrest (snd st))) (\<lambda>z.
           bindM (onHostOf (onB (map_from_map (val_ctx E z) m))) (\<lambda>m.
             modifyM (\<lambda>(ctx, h). (ctx\<lparr>ctx_storage := Some \<lparr>is_map = m, is_modified = False\<rparr>\<rparr>, h))))))"

definition with_instance_storage ::
  "('p, 'x, 'z) host_env \<Rightarrow> ((Val, Val) ord_map \<Rightarrow> 'z \<Rightarrow> 'r metered) \<Rightarrow> ('p, 'x, 'z, 'r) hostM" where
  "with_instance_storage E f =
     with_current_context_mut (thenM (maybe_init_instance_storage E)
       (bindM (getM (\<lambda>st. ctx_storage (fst st))) (\<lambda>s.
          bindM (okOrM s context_internal) (\<lambda>s.
            bindM (getM (\<lambda>st. hrest (snd st))) (\<lambda>z. onHostOf (onB (f (is_map s) z)))))))"

text \<open>The closure answers the new map; any mutable access marks the storage as modified.\<close>

definition with_mut_instance_storage ::
  "('p, 'x, 'z) host_env \<Rightarrow> ((Val, Val) ord_map \<Rightarrow> 'z \<Rightarrow> (Val, Val) ord_map metered) \<Rightarrow>
     ('p, 'x, 'z, unit) hostM" where
  "with_mut_instance_storage E f =
     with_current_context_mut (thenM (maybe_init_instance_storage E)
       (bindM (getM (\<lambda>st. ctx_storage (fst st))) (\<lambda>s.
          bindM (okOrM s context_internal) (\<lambda>s.
            thenM (modifyM (\<lambda>(ctx, h). (ctx\<lparr>ctx_storage := Some (s\<lparr>is_modified := True\<rparr>)\<rparr>, h)))
              (bindM (getM (\<lambda>st. hrest (snd st))) (\<lambda>z.
                bindM (onHostOf (onB (f (is_map s) z))) (\<lambda>m.
                  modifyM (\<lambda>(ctx, h). (ctx\<lparr>ctx_storage := Some \<lparr>is_map = m, is_modified = True\<rparr>\<rparr>, h)))))))))"

definition onBudgetOf :: "'r metered \<Rightarrow> ('z \<times> BudgetImpl, 'r) hm" where
  "onBudgetOf m = zoomM snd (\<lambda>b (z, _). (z, b)) m"

definition host_map_to_scmap ::
  "('p, 'x, 'z) host_env \<Rightarrow> (Val, Val) ord_map \<Rightarrow> ('z \<times> BudgetImpl, ('x \<times> 'x) list) hm" where
  "host_map_to_scmap E m =
     thenM (onBudgetOf (vec_init_cpy 128 (length m)))
     (bindM (getM fst) (\<lambda>z.
     thenM (onBudgetOf (map_charge_scan (val_ctx E z) m))
     (bindM (mapM (\<lambda>(k, v). bindM (scval_from_val E k) (\<lambda>k. bindM (scval_from_val E v) (\<lambda>v. retM (k, v)))) m)
       (\<lambda>mv. thenM (guardM (length mv < 2 ^ 32) (Err Value InvalidInput)) (retM mv)))))"

definition persist_instance_storage :: "('p, 'x, 'z) host_env \<Rightarrow> ('p, 'x, 'z, unit) hostM" where
  "persist_instance_storage E =
     bindM (with_current_context_mut (bindM (getM (\<lambda>st. ctx_storage (fst st))) (\<lambda>s. case s of
         Some s \<Rightarrow> if \<not> is_modified s then retM None
           else bindM (onHostOf (onObjects (host_map_to_scmap E (is_map s)))) (\<lambda>m. retM (Some m))
       | None \<Rightarrow> retM None))) (\<lambda>updated.
     if updated \<noteq> None then
       bindM get_current_contract_id_internal (\<lambda>contract_id.
       bindM (contract_instance_ledger_key E contract_id) (\<lambda>key.
         store_contract_instance E None updated contract_id key))
     else retM ())"

section \<open>Contract data\<close>

datatype StorageType = TemporaryStorage | PersistentStorage | InstanceStorage

text \<open>\<open>TryFrom<StorageType> for ContractDataDurability\<close>.\<close>

fun durability_of :: "StorageType \<Rightarrow> Error + ContractDataDurability" where
  "durability_of TemporaryStorage = Inr Temporary"
| "durability_of PersistentStorage = Inr Persistent"
| "durability_of InstanceStorage = Inl (Err Value InvalidInput)"

definition storage_key_for_address ::
  "('p, 'x, 'z) host_env \<Rightarrow> ScAddress \<Rightarrow> 'x ScKey \<Rightarrow> ContractDataDurability \<Rightarrow>
     ('p, 'x, 'z, 'p LedgerKey) hostM" where
  "storage_key_for_address E contract key durability =
     thenM (onB (metered_new 120)) (retM (KContractData (p_address E contract) (p_key E key) durability))"

definition storage_key_from_scval ::
  "('p, 'x, 'z) host_env \<Rightarrow> 'x \<Rightarrow> ContractDataDurability \<Rightarrow> ('p, 'x, 'z, 'p LedgerKey) hostM" where
  "storage_key_from_scval E key durability =
     bindM get_current_contract_id_internal (\<lambda>contract_id.
       storage_key_for_address E (ContractAddr contract_id) (KeyVal key) durability)"

definition storage_key_from_val ::
  "('p, 'x, 'z) host_env \<Rightarrow> Val \<Rightarrow> ContractDataDurability \<Rightarrow> ('p, 'x, 'z, 'p LedgerKey) hostM" where
  "storage_key_from_val E k durability =
     bindM (onObjects (scval_from_val E k)) (\<lambda>key. storage_key_from_scval E key durability)"

definition check_val_representable_scval :: "('p, 'x, 'z) host_env \<Rightarrow> 'x \<Rightarrow> ('p, 'x, 'z, unit) hostM" where
  "check_val_representable_scval E scval = guardM (can_represent_scval E scval) (Err Value InternalError)"

definition contract_data_key_from_val ::
  "('p, 'x, 'z) host_env \<Rightarrow> Val \<Rightarrow> ContractDataDurability \<Rightarrow> ('p, 'x, 'z, 'p LedgerKey) hostM" where
  "contract_data_key_from_val E k durability =
     bindM (onObjects (scval_from_val E k)) (\<lambda>key_scval.
       thenM (check_val_representable_scval E key_scval)
         (storage_key_from_scval E key_scval durability))"

definition put_contract_data_into_ledger ::
  "('p, 'x, 'z) host_env \<Rightarrow> Val \<Rightarrow> Val \<Rightarrow> StorageType \<Rightarrow> ('p, 'x, 'z, unit) hostM" where
  "put_contract_data_into_ledger E k v t =
     bindM (ofSum (durability_of t)) (\<lambda>durability.
     bindM (contract_data_key_from_val E k durability) (\<lambda>key.
     bindM (onStore (storage_has (key_cmp E) key)) (\<lambda>present.
       if present then
         bindM (onStore (get_with_live_until_ledger (key_cmp E) key)) (\<lambda>(current, live_until_ledger).
         bindM (onB (clone_entry E current)) (\<lambda>current.
         bindM (case data_content current of
             ContractData entry \<Rightarrow>
               bindM (onObjects (scval_from_val E v)) (\<lambda>val.
                 retM (current\<lparr>data_content := ContractData (entry\<lparr>cd_val := ScOther val\<rparr>)\<rparr>))
           | _ \<Rightarrow> throwM storage_internal) (\<lambda>current.
         thenM (onB (metered_new 256))
           (onStore (storage_put (key_cmp E) key current live_until_ledger)))))
       else
         bindM get_current_contract_id_internal (\<lambda>contract_id.
         bindM (onObjects (scval_from_val E k)) (\<lambda>key_val.
         bindM (onObjects (scval_from_val E v)) (\<lambda>val.
         bindM (new_contract_data \<lparr>cd_contract = ContractAddr contract_id, cd_key = KeyVal key_val,
             cd_durability = durability, cd_val = ScOther val\<rparr>) (\<lambda>entry.
         bindM (min_live_until durability) (\<lambda>live.
           onStore (storage_put (key_cmp E) key entry (Some live))))))))))"

definition put_contract_data ::
  "('p, 'x, 'z) host_env \<Rightarrow> Val \<Rightarrow> Val \<Rightarrow> StorageType \<Rightarrow> ('p, 'x, 'z, Val) hostM" where
  "put_contract_data E k v t = thenM (case t of
       InstanceStorage \<Rightarrow> with_mut_instance_storage E (\<lambda>m z. map_insert (val_ctx E z) m k v)
     | _ \<Rightarrow> put_contract_data_into_ledger E k v t) (retM from_void)"

definition has_contract_data ::
  "('p, 'x, 'z) host_env \<Rightarrow> Val \<Rightarrow> StorageType \<Rightarrow> ('p, 'x, 'z, Val) hostM" where
  "has_contract_data E k t = bindM (case t of
       InstanceStorage \<Rightarrow> with_instance_storage E (\<lambda>m z.
         bindM (Metered_Map.map_get (val_ctx E z) m k) (\<lambda>r. retM (r \<noteq> None)))
     | _ \<Rightarrow> bindM (ofSum (durability_of t)) (\<lambda>d.
         bindM (storage_key_from_val E k d) (\<lambda>key. onStore (storage_has (key_cmp E) key))))
     (\<lambda>res. retM (from_bool res))"

definition get_contract_data ::
  "('p, 'x, 'z) host_env \<Rightarrow> Val \<Rightarrow> StorageType \<Rightarrow> ('p, 'x, 'z, Val) hostM" where
  "get_contract_data E k t = (case t of
       InstanceStorage \<Rightarrow> with_instance_storage E (\<lambda>m z.
         bindM (Metered_Map.map_get (val_ctx E z) m k) (\<lambda>r. okOrM r (Err Storage MissingValue)))
     | _ \<Rightarrow> bindM (ofSum (durability_of t)) (\<lambda>d.
         bindM (storage_key_from_val E k d) (\<lambda>key.
           bindM (onStore (storage_get (key_cmp E) key)) (\<lambda>entry. case data_content entry of
             ContractData e \<Rightarrow> onObjects (scvalue_to_val E (cd_val e))
           | _ \<Rightarrow> throwM storage_internal))))"

definition del_contract_data ::
  "('p, 'x, 'z) host_env \<Rightarrow> Val \<Rightarrow> StorageType \<Rightarrow> ('p, 'x, 'z, Val) hostM" where
  "del_contract_data E k t = thenM (case t of
       InstanceStorage \<Rightarrow> with_mut_instance_storage E (\<lambda>m z.
         bindM (map_remove (val_ctx E z) m k) (\<lambda>r. retM (case r of Some (m', _) \<Rightarrow> m' | None \<Rightarrow> m)))
     | _ \<Rightarrow> bindM (ofSum (durability_of t)) (\<lambda>d.
         bindM (contract_data_key_from_val E k d) (\<lambda>key. onStore (storage_del (key_cmp E) key))))
     (retM from_void)"

definition extend_contract_data_ttl ::
  "('p, 'x, 'z) host_env \<Rightarrow> Val \<Rightarrow> StorageType \<Rightarrow> u32 \<Rightarrow> u32 \<Rightarrow> ('p, 'x, 'z, Val) hostM" where
  "extend_contract_data_ttl E k t threshold extend_to =
     (if t = InstanceStorage then throwM (Err Storage InvalidAction)
      else bindM (ofSum (durability_of t)) (\<lambda>d.
        bindM (contract_data_key_from_val E k d) (\<lambda>key.
        bindM (getM hledger) (\<lambda>li.
          thenM (onStore (extend_ttl (key_cmp E) li key threshold extend_to)) (retM from_void)))))"

definition extend_current_contract_instance_and_code_ttl ::
  "('p, 'x, 'z) host_env \<Rightarrow> u32 \<Rightarrow> u32 \<Rightarrow> ('p, 'x, 'z, Val) hostM" where
  "extend_current_contract_instance_and_code_ttl E threshold extend_to =
     bindM get_current_contract_id_internal (\<lambda>contract_id.
       thenM (extend_contract_instance_and_code_ttl_from_contract_id E contract_id threshold extend_to)
         (retM from_void))"

definition try_get_contract_data ::
  "('p, 'x, 'z) host_env \<Rightarrow> Val \<Rightarrow> StorageType \<Rightarrow> ('p, 'x, 'z, Val option) hostM" where
  "try_get_contract_data E k t = bindM (has_contract_data E k t) (\<lambda>b.
     if b = from_bool True then bindM (get_contract_data E k t) (\<lambda>v. retM (Some v)) else retM None)"

section \<open>Nonces\<close>

definition consume_nonce_at ::
  "('p, 'x, 'z) host_env \<Rightarrow> ('a \<Rightarrow> ('z \<times> BudgetImpl, ScAddress) hm) \<Rightarrow> 'a \<Rightarrow> int \<Rightarrow> u32 \<Rightarrow>
     ('p, 'x, 'z, unit) hostM" where
  "consume_nonce_at E scaddress_from_address address nonce live_until_ledger =
     bindM (onObjects (scaddress_from_address address)) (\<lambda>sc_address.
     bindM (onB (clone_sized 33 sc_address)) (\<lambda>contract.
     thenM (onB (clone_sized 64 nonce))
     (bindM (storage_key_for_address E contract (KeyNonce nonce) Temporary) (\<lambda>nonce_key.
     bindM (min_live_until Temporary) (\<lambda>m.
     bindM (onStore (storage_has (key_cmp E) nonce_key)) (\<lambda>present.
       if present then throwM (Err Auth ExistingValue)
       else thenM (onB (metered_new 256))
         (onStore (storage_put (key_cmp E) nonce_key
           \<lparr>data_type = TContractData, data_content = ContractData \<lparr>cd_contract = sc_address,
              cd_key = KeyNonce nonce, cd_durability = Temporary, cd_val = ScVoid\<rparr>\<rparr>
           (Some (max live_until_ledger m))))))))))"

section \<open>Which keys an operation can change\<close>

definition only_in ::
  "('p LedgerKey \<Rightarrow> 'o::linorder) \<Rightarrow> 'p LedgerKey set \<Rightarrow> ('p, 'e) store \<times> BudgetImpl \<Rightarrow> ('p, 'e) store \<times> BudgetImpl \<Rightarrow> bool" where
  "only_in g A = (\<lambda>(s, _) (s', _). mode s = Enforcing \<and> store_wf g s \<longrightarrow>
     mode s' = Enforcing \<and> store_wf g s' \<and> footprint s' = footprint s \<and>
     (\<forall>k. k \<notin> A \<longrightarrow> map_of (smap s') k = map_of (smap s) k))"

lemma only_in_refl: "reflp (only_in g A)" and only_in_trans: "transp (only_in g A)"
  by (auto simp: reflp_def transp_def only_in_def)

lemma only_in_same: "sameM m \<Longrightarrow> relM (only_in g A) m"
  unfolding relM_def only_in_def by (simp add: split_beta)

lemma only_in_pure [simp]: "relM (only_in g A) (retM x)" "relM (only_in g A) (throwM e)"
  by (simp_all add: only_in_same sameM_pure)

lemmas only_in_bind = relM_bind [OF only_in_trans]

context storage_keys
begin

lemma only_in_insert:
  assumes "k \<in> A" "supported_key k"
  shows "relM (only_in g A) (bindM (getM (\<lambda>st. smap (fst st))) (\<lambda>m.
    bindM (onBudget (map_insert (storage_ctx kc) m k v)) setMap))"
  unfolding relM_def
proof
  fix st :: "('p, 'a) store \<times> BudgetImpl"
  obtain s b where st: "st = (s, b)" by (cases st)
  obtain q b' where ins: "map_insert (storage_ctx kc) (smap s) k v b = (q, b')"
    by (cases "map_insert (storage_ctx kc) (smap s) k v b")
  show "only_in g A st (snd (bindM (getM (\<lambda>st. smap (fst st))) (\<lambda>m.
      bindM (onBudget (map_insert (storage_ctx kc) m k v)) setMap) st))"
  proof (cases q)
    case (Inr m')
    have "map_of m' = (map_of (smap s))(k \<mapsto> v) \<and> map_wf g m'" if "store_wf g s"
      using sm_insert(2) [of "smap s" k v b m' b'] ins Inr that by (auto simp: store_wf_def)
    then show ?thesis using st ins Inr assms
      by (auto simp: only_in_def store_wf_def m_defs onBudget_def setMap_def)
  qed (auto simp: st ins only_in_def m_defs onBudget_def)
qed

lemma same_lookup: "sameM (bindM (getM (\<lambda>st. smap (fst st))) (\<lambda>m. bindM (onBudget (h m)) f))"
  if "\<And>x. sameM (f x)" for f :: "'u \<Rightarrow> ('p, 'e, 'w) storing"
  by (intro sameM_bind sameM_onBudget sameM_pure that) simp

lemma only_in_mode:
  "relM (only_in g A) m2 \<Longrightarrow>
   relM (only_in g A) (bindM (getM (\<lambda>st. mode (fst st))) (\<lambda>md. case md of Recording src \<Rightarrow> m1 src | Enforcing \<Rightarrow> m2))"
  unfolding relM_def only_in_def by (auto simp: getM_def bindM_def split: prod.splits FootprintMode.splits)

lemma only_in_prepare: "relM (only_in g A) (prepare_read_only_access kc k)"
  unfolding prepare_read_only_access_def
  by (rule only_in_mode) (auto intro: only_in_same sameM_enforce)

lemma only_in_reads: "relM (only_in g A) (storage_has kc k)" "relM (only_in g A) (try_get_full kc k)"
proof -
  show "relM (only_in g A) (storage_has kc k)" "relM (only_in g A) (try_get_full kc k)"
    unfolding storage_has_def try_get_full_def
    by (intro only_in_bind only_in_prepare only_in_same; auto intro!: sameM_pure same_lookup sameM_bind sameM_onBudget
        split: option.split)+
qed

lemma only_in_gets: "relM (only_in g A) (storage_get kc k)" "relM (only_in g A) (get_with_live_until_ledger kc k)"
  unfolding storage_get_def try_get_def get_with_live_until_ledger_def
  by (intro only_in_bind only_in_reads only_in_same; simp add: sameM_pure)+

lemma only_in_put: "k \<in> A \<Longrightarrow> relM (only_in g A) (put_opt kc k v)"
proof (cases "supported_key k")
  case True
  assume "k \<in> A"
  then show ?thesis unfolding put_opt_def
    by (intro only_in_bind only_in_mode only_in_insert [OF _ True];
        auto intro: only_in_same sameM_pure sameM_enforce split: option.split)
qed (auto simp: put_opt_def check_supported_ledger_key_type_def intro: only_in_same)

lemma only_in_writes: "k \<in> A \<Longrightarrow> relM (only_in g A) (storage_put kc k e l)" "k \<in> A \<Longrightarrow> relM (only_in g A) (storage_del kc k)"
  by (simp_all add: storage_put_def storage_del_def only_in_put)

lemma only_in_extend: "k \<in> A \<Longrightarrow> relM (only_in g A) (extend_ttl kc li k t e)"
proof (cases "supported_key k \<and> \<not> t > e")
  case True
  assume "k \<in> A"
  with True show ?thesis unfolding extend_ttl_alt
    by (auto simp: check_supported_ledger_key_type_def split_beta
        intro!: only_in_bind only_in_gets only_in_insert intro: only_in_same sameM_pure split: option.split)
qed (auto simp: extend_ttl_alt check_supported_ledger_key_type_def intro: only_in_same)

end

section \<open>What a contract's storage functions can change\<close>

definition current_id :: "('p, 'x, 'z) HostState \<Rightarrow> u256 option" where
  "current_id h = (if context_stack h = [] then None else frame_contract_id (frame (last (context_stack h))))"

text \<open>The ledger keys a contract can form from its own values.\<close>

definition own_keys :: "('p, 'x, 'z) host_env \<Rightarrow> u256 \<Rightarrow> 'p LedgerKey set" where
  "own_keys E c = {KContractData (p_address E (ContractAddr c)) (p_key E (KeyVal x)) d | x d. True}"

definition own_rel ::
  "('p, 'x, 'z) host_env \<Rightarrow> ('p LedgerKey \<Rightarrow> 'o::linorder) \<Rightarrow> u256 \<Rightarrow>
     ('p, 'x, 'z) HostState \<Rightarrow> ('p, 'x, 'z) HostState \<Rightarrow> bool" where
  "own_rel E g c h h' \<longleftrightarrow> map frame (context_stack h') = map frame (context_stack h) \<and>
     hledger h' = hledger h \<and> hevents h' = hevents h \<and>
     only_in g (own_keys E c) (hstorage h, hbudget h) (hstorage h', hbudget h')"

lemma own_rel_trans: "own_rel E g c h1 h2 \<Longrightarrow> own_rel E g c h2 h3 \<Longrightarrow> own_rel E g c h1 h3"
  unfolding own_rel_def using only_in_trans [of g "own_keys E c"] by (auto dest: transpD)

lemma own_rel_refl [simp]: "own_rel E g c h h"
  using only_in_refl [of g "own_keys E c"] by (auto simp: own_rel_def dest: reflpD)

lemma frames_current: "map frame (context_stack h') = map frame (context_stack h) \<Longrightarrow> current_id h' = current_id h"
proof -
  assume eq: "map frame (context_stack h') = map frame (context_stack h)"
  then have "context_stack h' = [] \<longleftrightarrow> context_stack h = []" by (metis map_is_Nil_conv)
  then show ?thesis unfolding current_id_def using eq by (metis last_map)
qed

text \<open>Run while contract \<open>c\<close> is current, the operation stays within \<open>own_rel\<close>.\<close>

definition ownM ::
  "('p, 'x, 'z) host_env \<Rightarrow> ('p LedgerKey \<Rightarrow> 'o::linorder) \<Rightarrow> u256 \<Rightarrow> ('p, 'x, 'z, 'r) hostM \<Rightarrow> bool" where
  "ownM E g c m \<longleftrightarrow> (\<forall>h. current_id h = Some c \<longrightarrow> own_rel E g c h (snd (m h)))"

lemma ownM_simps [intro!, simp]:
  "ownM E g c (retM x)" "ownM E g c (throwM e)" "ownM E g c (getM f)" "ownM E g c (okOrM y e1)"
  "ownM E g c (guardM b e2)" "ownM E g c (ofSum z)"
  by (simp_all add: ownM_def m_defs ofSum_def split: option.split sum.split)

lemma ownM_run: "ownM E g c m \<Longrightarrow> m h = (r, h') \<Longrightarrow> current_id h = Some c \<Longrightarrow> own_rel E g c h h' \<and> current_id h' = Some c"
  unfolding ownM_def own_rel_def by (metis frames_current snd_conv)

lemma ownM_bind:
  fixes m :: "('p, 'x, 'z, 'r) hostM"
  assumes "ownM E g c m" "\<And>h x h'. current_id h = Some c \<Longrightarrow> m h = (Inr x, h') \<Longrightarrow> ownM E g c (f x)"
  shows "ownM E g c (bindM m f)"
  unfolding ownM_def
proof (intro allI impI)
  fix h :: "('p, 'x, 'z) HostState" assume c: "current_id h = Some c"
  obtain r h1 where m: "m h = (r, h1)" by (cases "m h")
  note 1 = ownM_run [OF assms(1) m c]
  show "own_rel E g c h (snd (bindM m f h))"
  proof (cases r)
    case (Inr x)
    obtain q h2 where f: "f x h1 = (q, h2)" by (cases "f x h1")
    have "own_rel E g c h1 h2" using ownM_run [OF assms(2) f] c m Inr 1 by blast
    with 1 have "own_rel E g c h h2" by (blast intro: own_rel_trans)
    then show ?thesis by (simp add: bindM_def m Inr f)
  qed (use 1 in \<open>simp add: bindM_def m\<close>)
qed

lemma ownM_onB [intro!, simp]: "ownM E g c (onB m)" "ownM E g c (onObjects m')"
  by (auto simp: ownM_def own_rel_def onB_def onObjects_def zoomM_def only_in_def split: prod.splits)

lemma ownM_onStore:
  "relM (only_in g (own_keys E c)) m \<Longrightarrow> ownM E g c (onStore m)"
  unfolding ownM_def own_rel_def onStore_def zoomM_def relM_def
  by (auto simp: split_beta)

text \<open>Work on the top context.\<close>

definition ctx_rel :: "'x Context \<times> ('p, 'x, 'z) HostState \<Rightarrow> 'x Context \<times> ('p, 'x, 'z) HostState \<Rightarrow> bool" where
  "ctx_rel = (\<lambda>(ctx, h) (ctx', h'). frame ctx' = frame ctx \<and> hstorage h' = hstorage h \<and>
     hledger h' = hledger h \<and> hevents h' = hevents h)"

lemma ctx_rel_refl: "reflp ctx_rel" and ctx_rel_trans: "transp ctx_rel"
  by (auto simp: reflp_def transp_def ctx_rel_def)

lemmas ctxM_bind = relM_bind [OF ctx_rel_trans]

lemma ctxM_simps [intro!, simp]:
  "relM ctx_rel (retM x)" "relM ctx_rel (throwM e)" "relM ctx_rel (getM f)" "relM ctx_rel (okOrM y e)"
  "relM ctx_rel (onHostOf (onB m))" "relM ctx_rel (onHostOf (onObjects m'))"
  "relM ctx_rel (modifyM (\<lambda>(ctx, h). (ctx\<lparr>ctx_storage := s\<rparr>, h)))"
  by (auto simp: relM_def ctx_rel_def onHostOf_def onB_def onObjects_def m_defs split: prod.splits option.splits)

lemma ctxM_map: "(\<And>x. relM ctx_rel (onHostOf (f x))) \<Longrightarrow> relM ctx_rel (onHostOf (mapM f xs))"
proof (induction xs)
  case (Cons x xs)
  have "onHostOf (mapM f (x # xs)) = bindM (onHostOf (f x)) (\<lambda>y. bindM (onHostOf (mapM f xs)) (\<lambda>ys. retM (y # ys)))"
    by (auto simp: onHostOf_def m_defs fun_eq_iff split: prod.splits sum.splits)
  then show ?case by (rule ssubst) (intro ctxM_bind ctxM_simps Cons)
qed (auto simp: relM_def ctx_rel_def onHostOf_def m_defs)

lemma onHostOf_bind: "onHostOf (bindM m f) = bindM (onHostOf m) (\<lambda>x. onHostOf (f x))"
  and onHostOf_ret: "onHostOf (retM x) = retM x"
  by (auto simp: onHostOf_def m_defs fun_eq_iff split: prod.splits sum.splits)

lemma ctxM_init: "relM ctx_rel (maybe_init_instance_storage E)"
  unfolding maybe_init_instance_storage_def
  by (auto simp: onHostOf_bind onHostOf_ret split_beta simp del: getM_bind
      intro!: ctxM_bind ctxM_map split: option.split)

lemma ownM_context: "relM ctx_rel f \<Longrightarrow> ownM E g c (with_current_context_mut f)"
  for f :: "('x Context \<times> ('p, 'x, 'z) HostState, 'r) hm"
proof -
  assume f: "relM ctx_rel f"
  show ?thesis unfolding ownM_def
  proof (intro allI impI)
    fix h :: "('p, 'x, 'z) HostState" assume c: "current_id h = Some c"
    then have ne: "context_stack h \<noteq> []" by (auto simp: current_id_def)
    obtain r ctx h' where run: "f (last (context_stack h), h) = (r, (ctx, h'))"
      by (cases "f (last (context_stack h), h)") auto
    have rel: "ctx_rel (last (context_stack h), h) (ctx, h')" using f run unfolding relM_def by (metis snd_conv)
    have "map frame (context_stack h) = map frame (butlast (context_stack h)) @ [frame (last (context_stack h))]"
      using ne by (metis append_butlast_last_id list.simps(8,9) map_append)
    with rel ne run show "own_rel E g c h (snd (with_current_context_mut f h))"
      by (simp add: with_current_context_mut_def own_rel_def ctx_rel_def only_in_def)
  qed
qed

lemma ownM_instance:
  "ownM E g c (with_instance_storage E f)" "ownM E g c (with_mut_instance_storage E f')"
  unfolding with_instance_storage_def with_mut_instance_storage_def
  by (rule ownM_context; auto simp del: getM_bind intro!: ctxM_bind ctxM_init)+

lemma current_id_Inr:
  assumes "get_current_contract_id_internal h = (Inr i, h')" "current_id h = Some c"
  shows "i = c"
proof -
  have "clone_sized 32 c b = (Inr i, b') \<Longrightarrow> i = c" for b b'
    by (auto simp: clone_sized_def dest: metered_clone_id)
  then show ?thesis using assms
    by (auto simp: get_current_contract_id_internal_def get_current_contract_id_opt_internal_def
        with_current_frame_opt_def current_id_def onB_def m_simps split: if_splits option.splits)
qed

lemma ownM_current_id: "ownM E g c get_current_contract_id_opt_internal" "ownM E g c get_current_contract_id_internal"
proof -
  show 1: "ownM E g c get_current_contract_id_opt_internal"
    unfolding get_current_contract_id_opt_internal_def with_current_frame_opt_def
    by (auto simp del: getM_bind intro!: ownM_bind split: option.split)
  show "ownM E g c get_current_contract_id_internal"
    unfolding get_current_contract_id_internal_def by (rule ownM_bind [OF 1]) (auto split: option.split)
qed

lemma ownM_key:
  "ownM E g c (storage_key_from_scval E key d)" "ownM E g c (storage_key_from_val E k d)"
  "ownM E g c (contract_data_key_from_val E k d)"
proof -
  show 1: "ownM E g c (storage_key_from_scval E key d)" for key
    unfolding storage_key_from_scval_def storage_key_for_address_def
    by (intro ownM_bind ownM_current_id ownM_simps ownM_onB)
  show "ownM E g c (storage_key_from_val E k d)" "ownM E g c (contract_data_key_from_val E k d)"
    unfolding storage_key_from_val_def contract_data_key_from_val_def check_val_representable_scval_def
    by (intro ownM_bind 1 ownM_simps ownM_onB)+
qed

lemma key_is_own:
  assumes "current_id h = Some c"
  shows "storage_key_from_scval E key d h = (Inr k, h') \<Longrightarrow> k \<in> own_keys E c"
    "storage_key_from_val E v d h = (Inr k, h') \<Longrightarrow> k \<in> own_keys E c"
    "contract_data_key_from_val E v d h = (Inr k, h') \<Longrightarrow> k \<in> own_keys E c"
proof -
  have 1: "storage_key_from_scval E key d h = (Inr k, h') \<Longrightarrow> k \<in> own_keys E c" if "current_id h = Some c" for key h
    using that by (auto simp: storage_key_from_scval_def storage_key_for_address_def bindM_Inr retM_Inr own_keys_def
        dest!: current_id_Inr)
  have obj: "current_id h' = Some c" if "onObjects m h = (r, h')" for m :: "('c \<times> BudgetImpl, 'd) hm" and r h'
    using that assms by (auto simp: onObjects_def zoomM_def current_id_def split: prod.splits)
  show "storage_key_from_scval E key d h = (Inr k, h') \<Longrightarrow> k \<in> own_keys E c"
    "storage_key_from_val E v d h = (Inr k, h') \<Longrightarrow> k \<in> own_keys E c"
    "contract_data_key_from_val E v d h = (Inr k, h') \<Longrightarrow> k \<in> own_keys E c"
    using 1 assms by (auto simp: storage_key_from_val_def contract_data_key_from_val_def bindM_Inr
        check_val_representable_scval_def guardM_Inr dest!: obj)
qed

locale host_keys = storage_keys "key_cmp E" g for E :: "('p, 'x, 'z) host_env" and g :: "'p LedgerKey \<Rightarrow> 'o::linorder"
begin

lemma ownM_reads: "ownM E g c (onStore (storage_has (key_cmp E) k))" "ownM E g c (onStore (storage_get (key_cmp E) k))"
  "ownM E g c (onStore (get_with_live_until_ledger (key_cmp E) k))"
  by (intro ownM_onStore only_in_reads only_in_gets)+

lemma ownM_writes:
  assumes "k \<in> own_keys E c"
  shows "ownM E g c (onStore (storage_put (key_cmp E) k e l))" "ownM E g c (onStore (storage_del (key_cmp E) k))"
    "ownM E g c (onStore (extend_ttl (key_cmp E) li k t u))"
  by (intro ownM_onStore only_in_writes only_in_extend assms)+

lemma ownM_min_live: "ownM E g c (min_live_until d)"
  unfolding min_live_until_def get_min_live_until_ledger_def with_ledger_info_def
  by (auto simp del: getM_bind intro!: ownM_bind split: option.split ContractDataDurability.split)

lemma ownM_put_ledger: "ownM E g c (put_contract_data_into_ledger E k v t)"
  unfolding put_contract_data_into_ledger_def new_contract_data_def
  by (auto simp: split_beta simp del: getM_bind dest: key_is_own intro!: ownM_bind ownM_key ownM_reads ownM_writes ownM_min_live
      ownM_current_id split: EntryData.split)

lemma ownM_ops:
  "ownM E g c (put_contract_data E k v t)" "ownM E g c (has_contract_data E k t)"
  "ownM E g c (get_contract_data E k t)" "ownM E g c (del_contract_data E k t)"
  "ownM E g c (extend_contract_data_ttl E k t a b)"
  unfolding put_contract_data_def has_contract_data_def get_contract_data_def del_contract_data_def
    extend_contract_data_ttl_def
  by (auto simp del: getM_bind dest: key_is_own intro!: ownM_bind ownM_put_ledger ownM_instance ownM_key ownM_reads ownM_writes
      split: StorageType.split EntryData.split)

end

section \<open>Programs of storage functions\<close>

text \<open>A run of a contract as its storage functions see it; each call may depend on all the answers so far.\<close>

datatype data_op =
    DPut Val Val StorageType | DHas Val StorageType | DGet Val StorageType | DDel Val StorageType
  | DExtend Val StorageType u32 u32

datatype data_prog = DDone | DDo data_op "Error + Val \<Rightarrow> data_prog"

fun data_step :: "('p, 'x, 'z) host_env \<Rightarrow> data_op \<Rightarrow> ('p, 'x, 'z, Val) hostM" where
  "data_step E (DPut k v t) = put_contract_data E k v t"
| "data_step E (DHas k t) = has_contract_data E k t"
| "data_step E (DGet k t) = get_contract_data E k t"
| "data_step E (DDel k t) = del_contract_data E k t"
| "data_step E (DExtend k t a b) = extend_contract_data_ttl E k t a b"

primrec run_data ::
  "('p, 'x, 'z) host_env \<Rightarrow> data_prog \<Rightarrow> ('p, 'x, 'z) HostState \<Rightarrow> (Error + Val) list \<times> ('p, 'x, 'z) HostState" where
  "run_data E DDone h = ([], h)"
| "run_data E (DDo c cont) h = (case data_step E c h of (r, h1) \<Rightarrow>
     (case run_data E (cont r) h1 of (rs, h2) \<Rightarrow> (r # rs, h2)))"

lemma storage_has_alt: "storage_has kc k = bindM (try_get_full kc k) (\<lambda>v. retM (v \<noteq> None))"
  unfolding storage_has_def try_get_full_def
  by (auto simp: fun_eq_iff bindM_assoc okOrM_def bindM_def split: prod.splits sum.splits option.splits)

text \<open>Whenever the operation succeeds its answer is \<open>x\<close>: the value of an immutable host object.\<close>

definition always :: "('s, 'r) hm \<Rightarrow> 'r \<Rightarrow> bool" where
  "always m x \<longleftrightarrow> (\<forall>s y s'. m s = (Inr y, s') \<longrightarrow> y = x)"

lemma alwaysD: "always m x \<Longrightarrow> m s = (Inr y, s') \<Longrightarrow> y = x"
  unfolding always_def by blast

context host_keys
begin

lemma run_data_own:
  "run_data E p h = (rs, h') \<Longrightarrow> current_id h = Some c \<Longrightarrow> own_rel E g c h h' \<and> current_id h' = Some c"
proof (induction p arbitrary: h rs)
  case (DDo x cont)
  obtain r h1 where 1: "data_step E x h = (r, h1)" by (cases "data_step E x h")
  obtain rs1 h2 where 2: "run_data E (cont r) h1 = (rs1, h2)" by (cases "run_data E (cont r) h1")
  have "ownM E g c (data_step E x)" by (cases x) (simp_all add: ownM_ops)
  from ownM_run [OF this 1 DDo.prems(2)] have s1: "own_rel E g c h h1" "current_id h1 = Some c" by blast+
  have "h2 = h'" using DDo.prems(1) 1 2 by simp
  with DDo.IH [of "cont r" h1 rs1] 2 s1 show ?case by (blast intro: own_rel_trans)
qed simp

lemma has_value:
  assumes "store_wf g s" "mode s = Enforcing" "storage_has (key_cmp E) k (s, b) = (Inr p, (s', b'))"
  shows "s' = s \<and> map_of (smap s) k = Some v \<longrightarrow> p = (v \<noteq> None)" "s' = s" "map_of (smap s) k \<noteq> None"
proof -
  obtain w s1 b1 where t: "try_get_full (key_cmp E) k (s, b) = (Inr w, (s1, b1))" and p: "p = (w \<noteq> None)" "s' = s1"
    using assms(3) by (auto simp: storage_has_alt bindM_Inr retM_Inr)
  have "s1 = s" "map_of (smap s) k = Some w"
    using get_full_enforcing(1) [OF assms(1,2) t] get_full_enforcing(2) [OF assms(1,2) t refl] by simp_all
  then show "s' = s \<and> map_of (smap s) k = Some v \<longrightarrow> p = (v \<noteq> None)" "s' = s" "map_of (smap s) k \<noteq> None"
    using p by auto
qed

abbreviation nonce_key :: "ScAddress \<Rightarrow> int \<Rightarrow> 'p LedgerKey" where
  "nonce_key addr n \<equiv> KContractData (p_address E addr) (p_key E (KeyNonce n)) Temporary"

lemma consume_nonce_run:
  assumes "consume_nonce_at E conv a n l h = (Inr u, h')"
    and conv: "always (conv a) addr"
  obtains m b1 b2 b3 b4 s1 e where
    "storage_has (key_cmp E) (nonce_key addr n) (hstorage h, b1) = (Inr False, (s1, b2))"
    "storage_put (key_cmp E) (nonce_key addr n) e (Some (max l m)) (s1, b3) = (Inr (), (hstorage h', b4))"
proof -
  have c: "clone_sized sz x b = (Inr y, b') \<Longrightarrow> y = x" for sz and x y :: ScAddress and b b'
    by (auto simp: clone_sized_def dest: metered_clone_id)
  have li: "min_live_until d h1 = (r, h2) \<Longrightarrow> hstorage h2 = hstorage h1" for d r and h1 h2 :: "('p, 'x, 'z) HostState"
    unfolding min_live_until_def get_min_live_until_ledger_def with_ledger_info_def
    by (auto simp: bindM_def okOrM_def retM_def throwM_def getM_def
        split: option.splits ContractDataDurability.splits prod.splits sum.splits)
  show thesis
    using assms(1) unfolding consume_nonce_at_def storage_key_for_address_def
    by (auto simp: bindM_Inr retM_Inr onObjects_def onB_def onStore_def zoomM_Inr split: if_splits prod.splits
        dest!: alwaysD [OF conv] c li intro: that)
qed

lemma nonce_key_not_own: "inj (p_key E) \<Longrightarrow> nonce_key addr n \<notin> own_keys E c"
  by (auto simp: own_keys_def dest: injD)

lemma consumed_once:
  assumes inj: "inj (p_key E)" and conv: "always (conv a) addr"
    and s: "store_wf g (hstorage h)" "mode (hstorage h) = Enforcing"
    and first: "consume_nonce_at E conv a n l h = (Inr (), h1)"
    and prog: "run_data E p (h1\<lparr>context_stack := cs\<rparr>) = (rs, h2)" "current_id (h1\<lparr>context_stack := cs\<rparr>) = Some c"
    and second: "consume_nonce_at E conv a n l' h2 = (r, h3)"
  shows "\<exists>e. r = Inl e"
proof (rule ccontr)
  assume "\<not> (\<exists>e. r = Inl e)"
  then have second: "consume_nonce_at E conv a n l' h2 = (Inr (), h3)" using second by (cases r) auto
  obtain m b1 b2 b3 b4 s1 e where
    1: "storage_has (key_cmp E) (nonce_key addr n) (hstorage h, b1) = (Inr False, (s1, b2))"
      "storage_put (key_cmp E) (nonce_key addr n) e (Some (max l m)) (s1, b3) = (Inr (), (hstorage h1, b4))"
    by (rule consume_nonce_run [OF first conv])
  have s1: "s1 = hstorage h" by (rule has_value(2) [OF s 1(1)])
  note put = 1(2) [unfolded storage_put_def s1]
  have map1: "map_of (smap (hstorage h1)) (nonce_key addr n) = Some (Some (e, Some (max l m)))"
    using put_success(3) [OF s put] by simp
  have h1: "store_wf g (hstorage h1)" "mode (hstorage h1) = Enforcing"
    using put_enforcing [OF s put] s(2) by (simp_all add: isolated_def)
  have "own_rel E g c (h1\<lparr>context_stack := cs\<rparr>) h2" using run_data_own [OF prog] by simp
  then have h2: "store_wf g (hstorage h2)" "mode (hstorage h2) = Enforcing"
    "map_of (smap (hstorage h2)) (nonce_key addr n) = Some (Some (e, Some (max l m)))"
    using h1 map1 nonce_key_not_own [OF inj, of addr n c] by (simp_all add: own_rel_def only_in_def)
  obtain m' b1' b2' b3' b4' s2 e' where
    2: "storage_has (key_cmp E) (nonce_key addr n) (hstorage h2, b1') = (Inr False, (s2, b2'))"
    by (rule consume_nonce_run [OF second conv])
  from has_value(1) [OF h2(1,2) 2] has_value(2) [OF h2(1,2) 2] h2(3) show False by blast
qed

text \<open>With budget to spare, a nonce that is in the footprint and was never used is accepted.\<close>

lemma totalM_onB: "totalM m \<Longrightarrow> unlimited (hbudget h) \<Longrightarrow> \<exists>x b. onB m h = (Inr x, h\<lparr>hbudget := b\<rparr>) \<and> unlimited b"
  using totalM_D [of m "hbudget h"] by (auto simp: onB_def zoomM_def)

lemma totalM_sized: "totalM (clone_sized sz x)" "totalM (metered_new sz)"
  by (simp_all add: clone_sized_def metered_new_def total_metered_clone)

lemma fresh_nonce_accepted:
  assumes b: "unlimited (hbudget h)" and s: "store_wf g (hstorage h)" "mode (hstorage h) = Enforcing"
    and conv: "conv a = retM addr"
    and li: "hledger h = Some l" "unat (sequence_number l) + unat (min_temp_entry_ttl l) < 2 ^ 32"
    and fp: "map_of (footprint (hstorage h)) (nonce_key addr n) = Some ReadWrite"
    and fresh: "map_of (smap (hstorage h)) (nonce_key addr n) = Some None"
    and sm: "small (abs_store (hstorage h))"
  shows "\<exists>h1. consume_nonce_at E conv a n live h = (Inr (), h1)"
proof -
  let ?k = "nonce_key addr n" and ?s = "hstorage h"
  let ?e = "\<lparr>data_type = TContractData, data_content = ContractData \<lparr>cd_contract = addr,
      cd_key = KeyNonce n, cd_durability = Temporary, cd_val = ScVoid\<rparr>\<rparr> :: 'x EntryData LedgerEntry"
  obtain b1 where 1: "onB (clone_sized 33 addr) h = (Inr addr, h\<lparr>hbudget := b1\<rparr>)" "unlimited b1"
    using totalM_onB [OF totalM_sized(1) b, of 33 addr] by (auto simp: onB_def zoomM_def clone_sized_def
        dest: metered_clone_id split: prod.splits)
  obtain u2 b2 where 2: "onB (clone_sized 64 n) (h\<lparr>hbudget := b1\<rparr>) = (Inr u2, h\<lparr>hbudget := b2\<rparr>)" "unlimited b2"
    using totalM_onB [OF totalM_sized(1), of "h\<lparr>hbudget := b1\<rparr>" 64 n] 1(2) by auto
  obtain u3 b3 where 3: "onB (metered_new 120) (h\<lparr>hbudget := b2\<rparr>) = (Inr u3, h\<lparr>hbudget := b3\<rparr>)" "unlimited b3"
    using totalM_onB [OF totalM_sized(2), of "h\<lparr>hbudget := b2\<rparr>" 120] 2(2) by auto
  have "unat (saturating_sub (min_temp_entry_ttl l) 1) \<le> unat (min_temp_entry_ttl l)"
    by (simp add: unat_saturating_sub)
  then obtain m where m: "checked_add (sequence_number l) (saturating_sub (min_temp_entry_ttl l) 1) = Some m"
    using li(2) by (cases "checked_add (sequence_number l) (saturating_sub (min_temp_entry_ttl l) 1)")
      (auto simp: checked_add_None)
  have 4: "min_live_until Temporary (h\<lparr>hbudget := b3\<rparr>) = (Inr m, h\<lparr>hbudget := b3\<rparr>)"
    using li(1) m by (simp add: min_live_until_def get_min_live_until_ledger_def with_ledger_info_def
        okOrM_def retM_def bindM_def getM_def)
  have md: "mode ?s = mode_of None" using s(2) by (simp add: mode_of_def)
  have a: "abs_store ?s = (map_of (footprint ?s), map_of (smap ?s))" by (simp add: abs_store_def)
  have "bindM (a_get_full None ?k) (\<lambda>v. retM (v \<noteq> None)) (abs_store ?s) = (Inr False, abs_store ?s)"
    using fp fresh by (simp add: a a_get_full_def check_supported_ledger_key_type_def a_load_def
        a_access_def allowed_def m_defs)
  from refM_D [OF refM_has 3(2) s(1) md this sm] obtain s4 b4 where
    h5: "storage_has (key_cmp E) ?k (?s, b3) = (Inr False, (s4, b4))" "unlimited b4" by blast
  then have s4: "s4 = ?s" using has_value(2) [OF s] by blast
  obtain u6 b6 where 6: "onB (metered_new 256) (h\<lparr>hbudget := b4\<rparr>) = (Inr u6, h\<lparr>hbudget := b6\<rparr>)" "unlimited b6"
    using totalM_onB [OF totalM_sized(2), of "h\<lparr>hbudget := b4\<rparr>" 256] h5(2) by auto
  have put: "a_put None ?k (Some (?e, Some (max live m))) (abs_store ?s) =
      (Inr (), (map_of (footprint ?s), (map_of (smap ?s))(?k \<mapsto> Some (?e, Some (max live m)))))"
    using fp by (simp add: a a_put_def check_supported_ledger_key_type_def check_supported_ledger_entry_type_def
        a_access_def allowed_def m_defs)
  have sm2: "small (map_of (footprint ?s), (map_of (smap ?s))(?k \<mapsto> Some (?e, Some (max live m))))"
    using sm fresh by (auto simp: small_def a domI insert_absorb)
  from refM_D [OF refM_put 6(2) s(1) md put sm2] obtain s7 b7 where
    7: "put_opt (key_cmp E) ?k (Some (?e, Some (max live m))) (?s, b6) = (Inr (), (s7, b7))" by blast
  have "onStore (storage_has (key_cmp E) ?k) (h\<lparr>hbudget := b3\<rparr>) = (Inr False, h\<lparr>hbudget := b4\<rparr>)"
    using h5(1) s4 by (simp add: onStore_def zoomM_def)
  moreover have "onStore (storage_put (key_cmp E) ?k ?e (Some (max live m))) (h\<lparr>hbudget := b6\<rparr>) =
      (Inr (), h\<lparr>hstorage := s7, hbudget := b7\<rparr>)"
    using 7 by (simp add: onStore_def zoomM_def storage_put_def)
  moreover have "onObjects (conv a) h = (Inr addr, h)" by (simp add: conv onObjects_def zoomM_def retM_def)
  ultimately show ?thesis using 1(1) 2(1) 3(1) 4 6(1)
    by (simp add: consume_nonce_at_def storage_key_for_address_def bindM_def retM_def)
qed

end

section \<open>An instance\<close>

text \<open>Words as XDR values, no object table, copies charged by size.\<close>

fun plain_key :: "nat ScKey \<Rightarrow> int" where
  "plain_key KeyInstance = 0"
| "plain_key (KeyNonce n) = 3 * n + 1"
| "plain_key (KeyVal x) = 3 * int x + 2"

fun plain_address :: "ScAddress \<Rightarrow> int" where
  "plain_address (AccountAddr a) = 2 * uint a"
| "plain_address (ContractAddr a) = 2 * uint a + 1"

abbreviation plain_rank :: "int LedgerKey \<Rightarrow> nat \<times> (int \<times> int) \<times> nat" where
  "plain_rank \<equiv> key_rank fixed_compares xdr_durability"

definition plain_env :: "(int, nat, unit) host_env" where
  "plain_env = \<lparr>key_cmp = compare_ledger_key fixed_compares, p_account = uint, p_address = plain_address, p_key = plain_key,
     p_code = uint, clone_instance = clone_sized 64, clone_entry = clone_sized 256, clone_code = clone_sized 24,
     clone_account = clone_sized 216, scval_from_val = (\<lambda>v. onBudgetOf (clone_sized 64 (unat v))),
     val_from_scval = (\<lambda>x. onBudgetOf (clone_sized 8 (of_nat x))),
     scvalue_to_val = (\<lambda>x. onBudgetOf (clone_sized 8 (case x of ScOther n \<Rightarrow> of_nat n | _ \<Rightarrow> from_void))),
     can_represent_scval = (\<lambda>_. True), val_ctx = (\<lambda>_. fixed_ctx 8 (shallow_type 8))\<rparr>"

interpretation plain: host_keys plain_env plain_rank
  unfolding host_keys_def using fixed_keys.storage_keys_axioms by (simp add: plain_env_def)

definition plain_other_key :: "int LedgerKey" where
  "plain_other_key = KContractData (plain_address (ContractAddr 8)) (plain_key (KeyVal 5)) Persistent"

definition plain_other_entry :: "nat EntryData LedgerEntry" where
  "plain_other_entry = \<lparr>data_type = TContractData, data_content = ContractData \<lparr>cd_contract = ContractAddr 8,
     cd_key = KeyVal 5, cd_durability = Persistent, cd_val = ScOther 42\<rparr>\<rparr>"

definition plain_store :: "(int, nat EntryData) store" where
  "plain_store =
     (let own = KContractData (plain_address (ContractAddr 7)) (plain_key (KeyVal 5)) Persistent;
          nonce = KContractData (plain_address (AccountAddr 3)) (plain_key (KeyNonce 1)) Temporary
      in with_enforcing_footprint_and_map [(nonce, ReadWrite), (own, ReadWrite), (plain_other_key, ReadWrite)]
           [(nonce, None), (own, None), (plain_other_key, Some (plain_other_entry, Some 100))])"

definition plain_ledger :: LedgerInfo where
  "plain_ledger = \<lparr>protocol_version = 20, sequence_number = 10, timestamp = 0, base_reserve = 1,
     min_temp_entry_ttl = 16, min_persistent_entry_ttl = 4096, max_entry_ttl = 100000\<rparr>"

definition plain_host :: "(int, nat, unit) HostState" where
  "plain_host = \<lparr>context_stack = [\<lparr>frame = ContractVM 7 0 [] \<lparr>executable = Wasm 1, inst_storage = None\<rparr> [],
       ctx_storage = None\<rparr>],
     hstorage = plain_store, hbudget = unlimited_budget, hevents = [], hledger = Some plain_ledger, hrest = ()\<rparr>"

lemma plain_store_wf: "store_wf plain_rank plain_store" "mode plain_store = Enforcing"
  by (simp_all add: plain_store_def plain_other_key_def with_enforcing_footprint_and_map_def store_wf_def map_wf_def
      u32_MAX_def key_rank_def fixed_compares_def Let_def)

lemma plain_facts:
  "hstorage plain_host = plain_store" "hbudget plain_host = unlimited_budget" "hledger plain_host = Some plain_ledger"
  "map_of (footprint plain_store) (KContractData 6 4 Temporary) = Some ReadWrite"
  "map_of (smap plain_store) (KContractData 6 4 Temporary) = Some None"
  "map_of (smap plain_store) plain_other_key = Some (Some (plain_other_entry, Some 100))"
  "small (abs_store plain_store)" "current_id plain_host = Some 7"
  by (simp_all add: plain_host_def plain_store_def plain_other_key_def with_enforcing_footprint_and_map_def Let_def
      small_def abs_store_def u32_MAX_def current_id_def)

lemma plain_key_inj: "inj plain_key"
proof (rule injI)
  fix x y assume "plain_key x = plain_key y"
  then show "x = y" by (cases x; cases y; simp; presburger)
qed

section \<open>Isolation of contract data and replay protection\<close>

text \<open>
  C13: a contract's storage functions reach the contract's own data only. Whatever sequence of
  put, get, has, del and extend-lifetime calls contract \<open>c\<close> makes, each possibly depending on all
  earlier answers, whatever budget it has and wherever it fails: no other ledger key changes
  (another contract's data, any contract instance, any nonce, any account, trustline or code),
  and neither do the context frames and the events.
\<close>

theorem contract_data_isolation:
  assumes "storage_keys (key_cmp E) g" and "mode (hstorage h) = Enforcing" and "store_wf g (hstorage h)"
    and "current_id h = Some c" and "run_data E p h = (rs, h')" and "k \<notin> own_keys E c"
  shows "map_of (smap (hstorage h')) k = map_of (smap (hstorage h)) k \<and> hevents h' = hevents h \<and>
    map frame (context_stack h') = map frame (context_stack h)"
  using host_keys.run_data_own [OF host_keys.intro [OF assms(1)] assms(5,4)] assms(2,3,6)
  by (simp add: own_rel_def only_in_def)

theorem contract_data_isolation_witness:
  "\<exists>rs h'. run_data plain_env (DDo (DPut 5 9 PersistentStorage) (\<lambda>_. DDo (DDel 5 TemporaryStorage) (\<lambda>_. DDone)))
      plain_host = (rs, h') \<and>
    map_of (smap (hstorage h')) plain_other_key = Some (Some (plain_other_entry, Some 100))"
proof -
  let ?p = "DDo (DPut 5 9 PersistentStorage) (\<lambda>_. DDo (DDel 5 TemporaryStorage) (\<lambda>_. DDone))"
  obtain rs h' where run: "run_data plain_env ?p plain_host = (rs, h')" by (cases "run_data plain_env ?p plain_host")
  have k: "plain_other_key \<notin> own_keys plain_env 7"
    by (auto simp: own_keys_def plain_other_key_def plain_env_def)
  have "map_of (smap (hstorage h')) plain_other_key = map_of (smap (hstorage plain_host)) plain_other_key"
    using contract_data_isolation [OF plain.storage_keys_axioms _ _ _ run k] by (simp add: plain_facts plain_store_wf)
  then show ?thesis using run by (auto simp: plain_facts)
qed

text \<open>
  C14: replay protection. Consuming a nonce of an address succeeds at most once: after it has
  succeeded, and whatever the contract that runs next does with its own storage, consuming it
  again fails, for any expiration ledger and any budget. (Ledger keys of nonces and of contract
  values are distinct, and the address object denotes a fixed address.)
\<close>

theorem nonce_consumed_once:
  assumes "storage_keys (key_cmp E) g" and "inj (p_key E)" and "always (conv a) addr"
    and "store_wf g (hstorage h)" and "mode (hstorage h) = Enforcing"
    and "consume_nonce_at E conv a n l h = (Inr (), h1)"
    and "run_data E p (h1\<lparr>context_stack := cs\<rparr>) = (rs, h2)" and "current_id (h1\<lparr>context_stack := cs\<rparr>) = Some c"
    and "consume_nonce_at E conv a n l' h2 = (r, h3)"
  shows "\<exists>e. r = Inl e"
  by (rule host_keys.consumed_once [OF host_keys.intro [OF assms(1)] assms(2-9)])

theorem nonce_consumed_once_witness:
  "\<exists>h1. consume_nonce_at plain_env (\<lambda>a. retM (AccountAddr a)) 3 1 20 plain_host = (Inr (), h1) \<and>
     (\<exists>e. fst (consume_nonce_at plain_env (\<lambda>a. retM (AccountAddr a)) 3 1 30 h1) = Inl e)"
proof -
  let ?conv = "\<lambda>a. retM (AccountAddr a) :: (unit \<times> BudgetImpl, ScAddress) hm"
  have "\<exists>h1. consume_nonce_at plain_env ?conv 3 1 20 plain_host = (Inr (), h1)"
    by (rule plain.fresh_nonce_accepted [where addr = "AccountAddr 3" and l = plain_ledger])
      (simp_all add: plain_facts plain_store_wf, simp_all add: plain_ledger_def plain_env_def plain_facts)
  then obtain h1 where h1: "consume_nonce_at plain_env ?conv 3 1 20 plain_host = (Inr (), h1)" by blast
  obtain r h3 where h3: "consume_nonce_at plain_env ?conv 3 1 30 (h1\<lparr>context_stack := context_stack plain_host\<rparr>) = (r, h3)"
    by (cases "consume_nonce_at plain_env ?conv 3 1 30 (h1\<lparr>context_stack := context_stack plain_host\<rparr>)")
  have cs: "context_stack h1 = context_stack plain_host"
    using h1 unfolding consume_nonce_at_def storage_key_for_address_def min_live_until_def get_min_live_until_ledger_def
      with_ledger_info_def
    by (auto simp: bindM_Inr retM_Inr onObjects_def onB_def onStore_def zoomM_Inr getM_Inr okOrM_Inr
        split: if_splits prod.splits option.splits)
  have "\<exists>e. r = Inl e"
    by (rule nonce_consumed_once [OF plain.storage_keys_axioms _ _ _ _ h1 _ _ h3, where p = DDone and rs = "[]" and c = 7])
      (simp_all add: plain_env_def plain_key_inj always_def retM_def plain_facts plain_store_wf,
        simp add: plain_host_def current_id_def)
  moreover have "h1\<lparr>context_stack := context_stack plain_host\<rparr> = h1" using cs by (cases h1) simp
  ultimately show ?thesis using h1 h3 by auto
qed

end
