(* ===== verification/Account_Auth.thy ===== *)
theory Account_Auth
  imports Host_Data
begin

text \<open>
  Authentication of classic accounts (\<^verbatim>\<open>builtin_contracts/account_contract.rs\<close>,
  \<open>check_account_authentication\<close>; \<^verbatim>\<open>host/data_helper.rs\<close>, \<open>load_account\<close> and
  \<open>get_signer_weight_from_account\<close>).

  A signature value is a vector of public keys with signatures. What the object table and the
  crypto library supply is the record \<open>sig_env\<close>; its contract \<open>signatures\<close> says that decoding a
  vector element always gives the same key and signature, that comparing two keys answers their
  order, and that verification succeeds on valid signatures only. The theorem characterises the
  accepted signature vectors.
\<close>

section \<open>Errors of the built-in contracts (contract\_error.rs)\<close>

datatype ContractError =
  CE_InternalError | OperationNotSupportedError | AlreadyInitializedError | UnauthorizedError |
  AuthenticationError | AccountMissingError | AccountIsNotClassic | NegativeAmountError |
  AllowanceError | BalanceError | BalanceDeauthorizedError | OverflowError | TrustlineMissingError

fun contract_error_code :: "ContractError \<Rightarrow> u32" where
  "contract_error_code CE_InternalError = 1"
| "contract_error_code OperationNotSupportedError = 2"
| "contract_error_code AlreadyInitializedError = 3"
| "contract_error_code UnauthorizedError = 4"
| "contract_error_code AuthenticationError = 5"
| "contract_error_code AccountMissingError = 6"
| "contract_error_code AccountIsNotClassic = 7"
| "contract_error_code NegativeAmountError = 8"
| "contract_error_code AllowanceError = 9"
| "contract_error_code BalanceError = 10"
| "contract_error_code BalanceDeauthorizedError = 11"
| "contract_error_code OverflowError = 12"
| "contract_error_code TrustlineMissingError = 13"

definition contract_error :: "ContractError \<Rightarrow> Error" where
  "contract_error e = ContractErr (contract_error_code e)"

section \<open>Accounts\<close>

definition to_account_key :: "('p, 'x, 'z) host_env \<Rightarrow> u256 \<Rightarrow> ('p, 'x, 'z, 'p LedgerKey) hostM" where
  "to_account_key E acc = thenM (onB (metered_new 120)) (retM (KAccount (p_account E acc)))"

definition load_account :: "('p, 'x, 'z) host_env \<Rightarrow> u256 \<Rightarrow> ('p, 'x, 'z, AccountEntry) hostM" where
  "load_account E acc =
     bindM (to_account_key E acc) (\<lambda>key.
       bindM (onStore (storage_get (key_cmp E) key)) (\<lambda>entry. case data_content entry of
         AccountData ae \<Rightarrow> onB (clone_account E ae)
       | _ \<Rightarrow> throwM storage_internal))"

definition MasterWeight :: nat where "MasterWeight = 0"
definition MedThreshold :: nat where "MedThreshold = 2"

text \<open>The weight is clamped to 255, so its conversion to a byte cannot fail.\<close>

fun find_signer :: "u256 \<Rightarrow> (SignerKey \<times> u32) list \<Rightarrow> u8" where
  "find_signer target [] = 0"
| "find_signer target ((Ed25519 k, w) # ss) = (if target = k then ucast (min w 255) else find_signer target ss)"
| "find_signer target ((OtherSigner, w) # ss) = find_signer target ss"

definition get_signer_weight_from_account :: "u256 \<Rightarrow> AccountEntry \<Rightarrow> ('p, 'x, 'z, u8) hostM" where
  "get_signer_weight_from_account target account =
     bindM (onB (clone_sized 32 target)) (\<lambda>k.
       if account_id account = k then
         (if MasterWeight < length (thresholds account) then retM (thresholds account ! MasterWeight)
          else throwM (Err Value InternalError))
       else retM (find_signer target (signers account)))"

section \<open>Checking signatures\<close>

definition MAX_ACCOUNT_SIGNATURES :: u32 where "MAX_ACCOUNT_SIGNATURES = 20"

record ('z, 'el, 'sg, 'bo) sig_env =
  signatures_from_val :: "Val \<Rightarrow> ('z \<times> BudgetImpl, 'el list) hm"
  signature_get :: "'el \<Rightarrow> ('z \<times> BudgetImpl, u256 \<times> 'sg) hm"
  payload_object :: "u256 \<Rightarrow> ('z \<times> BudgetImpl, 'bo) hm"
  public_key_compare :: "u256 \<Rightarrow> u256 \<Rightarrow> ('z \<times> BudgetImpl, Ordering) hm"
  verify_sig_ed25519 :: "u256 \<Rightarrow> 'bo \<Rightarrow> 'sg \<Rightarrow> ('z \<times> BudgetImpl, unit) hm"

fun check_signatures ::
  "('z, 'el, 'sg, 'bo) sig_env \<Rightarrow> AccountEntry \<Rightarrow> 'bo \<Rightarrow> u256 option \<Rightarrow> u32 \<Rightarrow> 'el list \<Rightarrow> ('p, 'x, 'z, u32) hostM" where
  "check_signatures S account payload_obj prev_pk weight [] = retM weight"
| "check_signatures S account payload_obj prev_pk weight (v # vs) =
     bindM (onObjects (signature_get S v)) (\<lambda>(public_key, sig).
     thenM (case prev_pk of
         Some prev \<Rightarrow> bindM (onObjects (public_key_compare S prev public_key)) (\<lambda>ord.
           if ord \<noteq> Less then throwM (contract_error AuthenticationError) else retM ())
       | None \<Rightarrow> retM ())
     (thenM (onObjects (verify_sig_ed25519 S public_key payload_obj sig))
     (bindM (get_signer_weight_from_account public_key account) (\<lambda>signer_weight.
       if signer_weight = 0 then throwM (contract_error AuthenticationError)
       else check_signatures S account payload_obj (Some public_key)
         (saturating_add weight (ucast signer_weight)) vs))))"

definition check_account_authentication ::
  "('p, 'x, 'z) host_env \<Rightarrow> ('z, 'el, 'sg, 'bo) sig_env \<Rightarrow> u256 \<Rightarrow> u256 \<Rightarrow> Val \<Rightarrow> ('p, 'x, 'z, unit) hostM" where
  "check_account_authentication E S acc payload signature =
     bindM (onObjects (signatures_from_val S signature)) (\<lambda>signatures.
     if length signatures > unat MAX_ACCOUNT_SIGNATURES then throwM (contract_error AuthenticationError)
     else bindM (onObjects (payload_object S payload)) (\<lambda>payload_obj.
     bindM (load_account E acc) (\<lambda>account.
     bindM (check_signatures S account payload_obj None 0 signatures) (\<lambda>weight.
     if MedThreshold < length (thresholds account) then
       (if weight < ucast (thresholds account ! MedThreshold) then throwM (contract_error AuthenticationError)
        else retM ())
     else throwM (Err Auth InternalError)))))"

section \<open>Which signatures are accepted\<close>

definition signer_weight :: "AccountEntry \<Rightarrow> u256 \<Rightarrow> nat" where
  "signer_weight account k =
     (if account_id account = k then unat (thresholds account ! MasterWeight)
      else unat (find_signer k (signers account)))"

text \<open>
  Strictly increasing keys (so no key counts twice), each with a valid signature and a weight of
  its own in the account, together reaching the medium threshold.
\<close>

definition authentic ::
  "(u256 \<Rightarrow> 'sg \<Rightarrow> bool) \<Rightarrow> AccountEntry \<Rightarrow> (u256 \<times> 'sg) list \<Rightarrow> bool" where
  "authentic valid account sigs \<longleftrightarrow> length sigs \<le> 20 \<and> sorted_wrt (<) (map fst sigs) \<and>
     (\<forall>(k, sg)\<in>set sigs. valid k sg \<and> 0 < signer_weight account k) \<and>
     unat (thresholds account ! MedThreshold) \<le> (\<Sum>(k, _)\<leftarrow>sigs. signer_weight account k)"

lemma signer_weight_bound: "signer_weight account k \<le> 255"
  unfolding signer_weight_def using unsigned_less [of "thresholds account ! MasterWeight", where 'a = nat]
    unsigned_less [of "find_signer k (signers account)", where 'a = nat] by simp

lemma weight_Inr:
  assumes "get_signer_weight_from_account k account h = (Inr w, h')"
  shows "unat w = signer_weight account k" "hstorage h' = hstorage h"
proof -
  have c: "clone_sized 32 k b = (Inr y, b') \<Longrightarrow> y = k" for y b b'
    by (auto simp: clone_sized_def dest: metered_clone_id)
  show "unat w = signer_weight account k" "hstorage h' = hstorage h"
    using assms by (auto simp: get_signer_weight_from_account_def signer_weight_def onB_def m_simps
        split: if_splits dest!: c)
qed

lemma unat_ucast_u8: "unat (ucast (w :: u8) :: u32) = unat w"
proof -
  have "unat w < 2 ^ 8" using unsigned_less [of w, where 'a = nat] by simp
  then have "unat w < 2 ^ 32" by simp
  then show ?thesis by (simp add: unsigned_ucast_eq take_bit_nat_eq_self)
qed

locale signatures =
  fixes S :: "('z, 'el, 'sg, 'bo) sig_env" and elements :: "Val \<Rightarrow> 'el list"
    and decode :: "'el \<Rightarrow> u256 \<times> 'sg" and bytes :: "u256 \<Rightarrow> 'bo"
    and valid :: "u256 \<Rightarrow> 'bo \<Rightarrow> 'sg \<Rightarrow> bool"
  assumes vector: "always (signatures_from_val S sigs) (elements sigs)"
    and payload: "always (payload_object S pl) (bytes pl)"
    and get: "always (signature_get S v) (decode v)"
    and compare_keys: "always (public_key_compare S a b) (cmp_of a b)"
    and verify: "verify_sig_ed25519 S k p sg st = (Inr u, st') \<Longrightarrow> valid k p sg"
begin

lemma check_signatures_sound:
  "check_signatures S account po prev w vs h = (Inr w', h') \<Longrightarrow>
   sorted_wrt (<) ((case prev of Some p \<Rightarrow> [p] | None \<Rightarrow> []) @ map (fst \<circ> decode) vs) \<and>
   (\<forall>v\<in>set vs. valid (fst (decode v)) po (snd (decode v)) \<and> 0 < signer_weight account (fst (decode v))) \<and>
   unat w' = min (unat w + (\<Sum>v\<leftarrow>vs. signer_weight account (fst (decode v)))) (2 ^ 32 - 1)"
proof (induction vs arbitrary: prev w h)
  case Nil
  then show ?case using unsigned_less [of w, where 'a = nat] by (cases prev) (auto simp: m_simps)
next
  case (Cons v vs)
  let ?k = "fst (decode v)" and ?sg = "snd (decode v)"
  from Cons.prems obtain k sg h1 h2 h3 h4 sw where
    g: "onObjects (signature_get S v) h = (Inr (k, sg), h1)"
    and o': "(case prev of Some p \<Rightarrow> bindM (onObjects (public_key_compare S p k)) (\<lambda>ord.
           if ord \<noteq> Less then throwM (contract_error AuthenticationError) else retM ()) | None \<Rightarrow> retM ()) h1 = (Inr (), h2)"
    and v: "onObjects (verify_sig_ed25519 S k po sg) h2 = (Inr (), h3)"
    and w: "get_signer_weight_from_account k account h3 = (Inr sw, h4)" "sw \<noteq> 0"
    and r: "check_signatures S account po (Some k) (saturating_add w (ucast sw)) vs h4 = (Inr w', h')"
    by (auto simp: bindM_Inr split: if_splits)
  have "(k, sg) = decode v" using g alwaysD [OF get] by (auto simp: onObjects_def zoomM_Inr)
  then have ks: "k = ?k" "sg = ?sg" by (metis fst_conv, metis snd_conv)
  have "valid k po sg" using v verify by (auto simp: onObjects_def zoomM_Inr)
  moreover have sw: "unat sw = signer_weight account k" by (rule weight_Inr(1) [OF w(1)])
  moreover have "p < k" if "prev = Some p" for p
  proof -
    from that have prev: "prev = Some p" .
    obtain st st' where "public_key_compare S p k st = (Inr Less, st')"
      using o' prev by (auto simp: bindM_Inr onObjects_def zoomM_Inr split: if_splits)
    from alwaysD [OF compare_keys this] show ?thesis by (simp add: cmp_of_def split: if_splits)
  qed
  moreover note IH = Cons.IH [OF r]
  moreover have "0 < unat sw" using w(2) by (simp add: unat_gt_0)
  moreover have "unat (saturating_add w (ucast sw :: u32)) = min (unat w + unat sw) (2 ^ 32 - 1)"
    by (simp add: unat_saturating_add unat_ucast_u8)
  ultimately show ?case using ks by (cases prev) auto
qed

lemma authentication_sound:
  assumes keys: "storage_keys (key_cmp E) g" and s: "store_wf g (hstorage h)" "mode (hstorage h) = Enforcing"
    and cl: "\<And>ae. always (clone_account E ae) ae"
    and run: "check_account_authentication E S acc payload signature h = (Inr (), h')"
  shows "\<exists>le live ae. map_of (smap (hstorage h)) (KAccount (p_account E acc)) = Some (Some (le, live)) \<and>
    data_content le = AccountData ae \<and>
    authentic (\<lambda>k. valid k (bytes payload)) ae (map decode (elements signature))"
proof -
  from run obtain vs h1 po h2 ae h3 w where
    1: "onObjects (signatures_from_val S signature) h = (Inr vs, h1)" "length vs \<le> 20"
    "onObjects (payload_object S payload) h1 = (Inr po, h2)" "load_account E acc h2 = (Inr ae, h3)"
    "check_signatures S ae po None 0 vs h3 = (Inr w, h')" "\<not> w < ucast (thresholds ae ! MedThreshold)"
    unfolding check_account_authentication_def MAX_ACCOUNT_SIGNATURES_def
    by (auto simp: bindM_Inr retM_Inr split: if_splits)
  have vs: "vs = elements signature" and po: "po = bytes payload"
    using 1(1,3) alwaysD [OF vector] alwaysD [OF payload] by (auto simp: onObjects_def zoomM_Inr)
  have h2: "hstorage h2 = hstorage h" using 1(1,3) by (auto simp: onObjects_def zoomM_Inr)
  obtain le b b1 s1 where get: "storage_get (key_cmp E) (KAccount (p_account E acc)) (hstorage h, b) = (Inr le, (s1, b1))"
    and ae: "data_content le = AccountData ae"
  proof -
    obtain b le h4 where g: "onStore (storage_get (key_cmp E) (KAccount (p_account E acc))) (h2\<lparr>hbudget := b\<rparr>) = (Inr le, h4)"
      and c: "(case data_content le of AccountData ae \<Rightarrow> onB (clone_account E ae) | _ \<Rightarrow> throwM storage_internal) h4 = (Inr ae, h3)"
      using 1(4) by (auto simp: load_account_def to_account_key_def bindM_Inr retM_Inr onB_def zoomM_Inr)
    from c have "data_content le = AccountData ae"
      by (cases "data_content le") (auto simp: onB_def zoomM_Inr dest!: alwaysD [OF cl])
    with g h2 show thesis by (auto simp: onStore_def zoomM_Inr intro: that)
  qed
  from get obtain v s2 b2 where "try_get_full (key_cmp E) (KAccount (p_account E acc)) (hstorage h, b) = (Inr v, (s2, b2))"
    "map_option fst v = Some le"
    by (auto simp: storage_get_def try_get_def bindM_Inr okOrM_Inr retM_Inr eq_commute [of "Some le"])
  then obtain live where "map_of (smap (hstorage h)) (KAccount (p_account E acc)) = Some (Some (le, live))"
    using storage_keys.get_full_enforcing(2) [OF keys s] by (cases v) fastforce+
  moreover have "authentic (\<lambda>k. valid k po) ae (map decode vs)"
  proof -
    note C = check_signatures_sound [OF 1(5)]
    have "(\<Sum>v\<leftarrow>vs. signer_weight ae (fst (decode v))) \<le> length vs * 255"
      using sum_list_mono [of vs "\<lambda>v. signer_weight ae (fst (decode v))" "\<lambda>_. 255"]
      by (simp add: signer_weight_bound sum_list_triv)
    then have "unat w = (\<Sum>v\<leftarrow>vs. signer_weight ae (fst (decode v)))" using C 1(2) by simp
    moreover have "unat (thresholds ae ! MedThreshold) \<le> unat w"
      using 1(6) by (simp add: word_less_nat_alt unat_ucast_u8)
    ultimately show ?thesis using C 1(2)
      by (auto simp: authentic_def split_beta comp_def)
  qed
  ultimately show ?thesis using ae vs po by blast
qed

end

lemma onObjects_ret: "onObjects (retM x) h = (Inr x, h)" "P \<Longrightarrow> onObjects (guardM P e) h = (Inr (), h)"
  by (simp_all add: onObjects_def zoomM_def retM_def guardM_def)

lemma load_account_present:
  assumes keys: "storage_keys (key_cmp E) g" and s: "store_wf g (hstorage h)" "mode (hstorage h) = Enforcing"
    and b: "unlimited (hbudget h)" and cl: "totalM (clone_account E ae)" "always (clone_account E ae) ae"
    and fp: "map_of (footprint (hstorage h)) (KAccount (p_account E acc)) \<noteq> None"
    and m: "map_of (smap (hstorage h)) (KAccount (p_account E acc)) = Some (Some (le, live))"
    and ae: "data_content le = AccountData ae" and sm: "small (abs_store (hstorage h))"
  shows "\<exists>b'. load_account E acc h = (Inr ae, h\<lparr>hbudget := b'\<rparr>) \<and> unlimited b'"
proof -
  let ?k = "KAccount (p_account E acc) :: 'a LedgerKey" and ?s = "hstorage h"
  obtain b1 where 1: "onB (metered_new 120) h = (Inr (), h\<lparr>hbudget := b1\<rparr>)" "unlimited b1"
    using host_keys.totalM_onB [OF host_keys.intro [OF keys] host_keys.totalM_sized(2) [OF host_keys.intro [OF keys]] b] by auto
  have a: "abs_store ?s = (map_of (footprint ?s), map_of (smap ?s))" by (simp add: abs_store_def)
  have md: "mode ?s = mode_of None" using s(2) by (simp add: mode_of_def)
  have "a_get_full None ?k (abs_store ?s) = (Inr (Some (le, live)), abs_store ?s)"
    using fp m by (auto simp: a a_get_full_def check_supported_ledger_key_type_def a_load_def
        a_access_def allowed_def m_defs) (metis AccessType.exhaust)
  from refM_D [OF storage_keys.refM_get_full [OF keys] 1(2) s(1) md this sm] obtain s2 b2 where
    2: "try_get_full (key_cmp E) ?k (?s, b1) = (Inr (Some (le, live)), (s2, b2))" "unlimited b2" by blast
  have s2: "s2 = ?s" using storage_keys.get_full_enforcing(1) [OF keys s 2(1)] by simp
  obtain x b3 where 3: "clone_account E ae b2 = (Inr x, b3)" "unlimited b3" using totalM_D [OF cl(1) 2(2)] by blast
  then have "x = ae" using alwaysD [OF cl(2)] by blast
  with 1 2 3 s2 ae have "load_account E acc h = (Inr ae, h\<lparr>hbudget := b3\<rparr>)"
    by (simp add: load_account_def to_account_key_def storage_get_def try_get_def onB_def onStore_def zoomM_def
        bindM_def retM_def okOrM_def)
  with 3(2) show ?thesis by blast
qed

section \<open>An instance\<close>

text \<open>Signature vectors of at most one element, read off the word; a signature is the sum of key and payload.\<close>

definition plain_elements :: "Val \<Rightarrow> (u256 \<times> int) list" where
  "plain_elements v = (if v = 0 then [] else [(ucast v, 8)])"

definition plain_valid :: "u256 \<Rightarrow> u256 \<Rightarrow> int \<Rightarrow> bool" where
  "plain_valid k p sg \<longleftrightarrow> sg = uint k + uint p"

definition plain_sigs :: "(unit, u256 \<times> int, int, u256) sig_env" where
  "plain_sigs = \<lparr>signatures_from_val = (\<lambda>v. retM (plain_elements v)), signature_get = retM, payload_object = retM,
     public_key_compare = (\<lambda>a b. retM (cmp_of a b)),
     verify_sig_ed25519 = (\<lambda>k p sg. guardM (plain_valid k p sg) (Err Crypto InvalidInput))\<rparr>"

interpretation plain_sigs: signatures plain_sigs plain_elements "\<lambda>x. x" "\<lambda>x. x" plain_valid
  by unfold_locales (auto simp: plain_sigs_def always_def retM_Inr guardM_Inr)

definition plain_account :: "u8 \<Rightarrow> AccountEntry" where
  "plain_account medium = \<lparr>account_id = 3, acc_balance = 100, num_sub_entries = 0, acc_flags = 0,
     thresholds = [1, 0, medium, 0], signers = [], acc_ext = AccExtV0\<rparr>"

definition signing_host :: "u8 \<Rightarrow> (int, nat, unit) HostState" where
  "signing_host medium = plain_host\<lparr>hstorage := with_enforcing_footprint_and_map [(KAccount 3, ReadOnly)]
     [(KAccount 3, Some (\<lparr>data_type = TAccount, data_content = AccountData (plain_account medium)\<rparr>, None))]\<rparr>"

lemma signing_host_wf: "store_wf plain_rank (hstorage (signing_host m))" "mode (hstorage (signing_host m)) = Enforcing"
  by (simp_all add: signing_host_def with_enforcing_footprint_and_map_def store_wf_def map_wf_def u32_MAX_def
      key_rank_def fixed_compares_def)

lemma plain_clone_account: "totalM (clone_account plain_env ae)" "always (clone_account plain_env ae) ae"
  by (auto simp: plain_env_def always_def clone_sized_def total_metered_clone dest!: metered_clone_id)

lemma signing_host_load:
  "\<exists>b. load_account plain_env 3 (signing_host m) = (Inr (plain_account m), (signing_host m)\<lparr>hbudget := b\<rparr>) \<and> unlimited b"
  by (rule load_account_present [OF plain.storage_keys_axioms signing_host_wf _ plain_clone_account,
        where le = "\<lparr>data_type = TAccount, data_content = AccountData (plain_account m)\<rparr>" and live = None])
    (simp_all add: signing_host_def plain_facts, simp_all add: plain_env_def with_enforcing_footprint_and_map_def
      small_def abs_store_def u32_MAX_def)

section \<open>Authentication of classic accounts\<close>

text \<open>
  C15: soundness of account authentication. When the check accepts a signature value for an
  account, the account exists in the ledger, and the elements of the value are at most twenty
  signatures of pairwise distinct keys in increasing order, each valid for the payload and each of
  a key with non-zero weight in the account, whose weights add up to at least the account's medium
  threshold (no wrap-around of the sum, no key counted twice).
\<close>

theorem account_authentication_sound:
  assumes "signatures S elements decode bytes valid" and "storage_keys (key_cmp E) g"
    and "store_wf g (hstorage h)" and "mode (hstorage h) = Enforcing" and "\<And>ae. always (clone_account E ae) ae"
    and "check_account_authentication E S acc payload signature h = (Inr (), h')"
  shows "\<exists>le live ae. map_of (smap (hstorage h)) (KAccount (p_account E acc)) = Some (Some (le, live)) \<and>
    data_content le = AccountData ae \<and>
    authentic (\<lambda>k. valid k (bytes payload)) ae (map decode (elements signature))"
  by (rule signatures.authentication_sound [OF assms])

text \<open>
  C40: the check has no minimum number of signatures: an account whose medium threshold is 0 (the
  default of a new account) is authenticated by the empty vector, without any signature.
\<close>

theorem zero_threshold_needs_no_signature:
  assumes "onObjects (signatures_from_val S signature) h = (Inr [], h1)"
    and "onObjects (payload_object S payload) h1 = (Inr po, h2)" and "load_account E acc h2 = (Inr ae, h3)"
    and "length (thresholds ae) = 4" and "thresholds ae ! MedThreshold = 0"
  shows "check_account_authentication E S acc payload signature h = (Inr (), h3)"
  using assms by (simp add: check_account_authentication_def bindM_def retM_def MedThreshold_def)

theorem zero_threshold_needs_no_signature_witness:
  "\<exists>h'. check_account_authentication plain_env plain_sigs 3 5 0 (signing_host 0) = (Inr (), h')"
proof -
  obtain b where b: "load_account plain_env 3 (signing_host 0) = (Inr (plain_account 0), (signing_host 0)\<lparr>hbudget := b\<rparr>)"
    using signing_host_load by blast
  show ?thesis
    by (rule exI, rule zero_threshold_needs_no_signature [OF _ _ b, where po = 5 and h = "signing_host 0"])
      (simp_all add: plain_sigs_def plain_elements_def onObjects_ret plain_account_def MedThreshold_def)
qed

theorem account_authentication_sound_witness:
  "\<exists>h'. check_account_authentication plain_env plain_sigs 3 5 3 (signing_host 1) = (Inr (), h') \<and>
     authentic (\<lambda>k. plain_valid k 5) (plain_account 1) [(3, 8)]"
proof -
  obtain b where b: "load_account plain_env 3 (signing_host 1) = (Inr (plain_account 1), (signing_host 1)\<lparr>hbudget := b\<rparr>)"
    "unlimited b" using signing_host_load by blast
  obtain k b' where k: "clone_sized 32 (3 :: u256) b = (Inr k, b')"
    using totalM_D [OF _ b(2), of "clone_sized 32 (3 :: u256)"] by (auto simp: clone_sized_def total_metered_clone)
  then have "k = 3" by (auto simp: clone_sized_def dest: metered_clone_id)
  with k have w: "get_signer_weight_from_account 3 (plain_account 1) ((signing_host 1)\<lparr>hbudget := b\<rparr>) =
      (Inr 1, (signing_host 1)\<lparr>hbudget := b'\<rparr>)"
    by (simp add: get_signer_weight_from_account_def onB_def zoomM_def bindM_def retM_def plain_account_def MasterWeight_def)
  have c: "onObjects (signatures_from_val plain_sigs 3) h = (Inr [(3, 8)], h)"
    "onObjects (payload_object plain_sigs 5) h = (Inr 5, h)" "onObjects (signature_get plain_sigs (3, 8)) h = (Inr (3, 8), h)"
    "onObjects (verify_sig_ed25519 plain_sigs 3 5 8) h = (Inr (), h)" for h :: "(int, nat, unit) HostState"
    by (simp_all add: plain_sigs_def plain_elements_def onObjects_ret plain_valid_def)
  have chk: "check_signatures plain_sigs (plain_account 1) 5 None 0 [(3, 8)] ((signing_host 1)\<lparr>hbudget := b\<rparr>) =
      (Inr (saturating_add 0 1), (signing_host 1)\<lparr>hbudget := b'\<rparr>)"
    using w by (simp add: bindM_run c retM_def)
  have "\<exists>h'. check_account_authentication plain_env plain_sigs 3 5 3 (signing_host 1) = (Inr (), h')"
    unfolding check_account_authentication_def
    by (simp add: bindM_run c b(1) chk MAX_ACCOUNT_SIGNATURES_def del: check_signatures.simps)
      (simp add: plain_account_def MedThreshold_def saturating_add_def retM_def)
  then obtain h' where run: "check_account_authentication plain_env plain_sigs 3 5 3 (signing_host 1) = (Inr (), h')" by blast
  have "authentic (\<lambda>k. plain_valid k 5) (plain_account 1) [(3, 8)]"
    using account_authentication_sound [OF plain_sigs.signatures_axioms plain.storage_keys_axioms signing_host_wf
        plain_clone_account(2) run]
    by (auto simp: signing_host_def plain_env_def with_enforcing_footprint_and_map_def plain_elements_def)
  with run show ?thesis by blast
qed

end
