(* ===== verification/Asset_Types.thy ===== *)
theory Asset_Types
  imports Account_Auth
begin

text \<open>
  Data of the built-in asset contract (\<^verbatim>\<open>builtin_contracts/stellar_asset_contract\<close>: \<^verbatim>\<open>public_types.rs\<close>,
  \<^verbatim>\<open>storage_types.rs\<close>, \<^verbatim>\<open>metadata.rs\<close>).

  Addresses, strings and byte arrays are object handles, as in the code. Conversions between
  host values and these types, which go through the object table, are the record \<open>asset_env\<close>.
  Amounts are \<open>int\<close> within the range of an \<open>i128\<close>, balances of classic ledger entries within that of an
  \<open>i64\<close>.
\<close>

section \<open>Assets\<close>

datatype Asset = NativeAsset | CreditAlphanum4 "u8 list" u256 | CreditAlphanum12 "u8 list" u256

datatype AssetInfo = InfoNative | InfoAlphaNum4 Val Val | InfoAlphaNum12 Val Val

record BalanceValue =
  bv_amount :: int
  bv_authorized :: bool
  bv_clawback :: bool

record AllowanceValue =
  av_amount :: int
  av_live_until_ledger :: u32

datatype DataKey = AllowanceKey Val Val | BalanceKey Val

datatype InstanceDataKey = AdminKey | AssetInfoKey

record StellarAssetContractMetadata =
  md_decimal :: u32
  md_name :: Val
  md_symbol :: Val

section \<open>Constants\<close>

definition DAY_IN_LEDGERS :: u32 where "DAY_IN_LEDGERS = 17280"
definition INSTANCE_EXTEND_AMOUNT :: u32 where "INSTANCE_EXTEND_AMOUNT = 7 * DAY_IN_LEDGERS"
definition INSTANCE_TTL_THRESHOLD :: u32 where "INSTANCE_TTL_THRESHOLD = INSTANCE_EXTEND_AMOUNT - DAY_IN_LEDGERS"
definition BALANCE_EXTEND_AMOUNT :: u32 where "BALANCE_EXTEND_AMOUNT = 30 * DAY_IN_LEDGERS"
definition BALANCE_TTL_THRESHOLD :: u32 where "BALANCE_TTL_THRESHOLD = BALANCE_EXTEND_AMOUNT - DAY_IN_LEDGERS"
definition DECIMAL :: u32 where "DECIMAL = 7"

text \<open>Flags of accounts and trustlines, as XDR numbers them.\<close>

definition RequiredFlag :: u32 where "RequiredFlag = 1"
definition RevocableFlag :: u32 where "RevocableFlag = 2"
definition ClawbackEnabledFlag :: u32 where "ClawbackEnabledFlag = 8"
definition AuthorizedFlag :: u32 where "AuthorizedFlag = 1"
definition AuthorizedToMaintainLiabilitiesFlag :: u32 where "AuthorizedToMaintainLiabilitiesFlag = 2"
definition TrustlineClawbackEnabledFlag :: u32 where "TrustlineClawbackEnabledFlag = 4"

section \<open>Conversions\<close>

type_synonym ('z, 'r) objM = "('z \<times> BudgetImpl, 'r) hm"

record ('p, 'z) asset_env =
  p_trustline :: "u256 \<Rightarrow> Asset \<Rightarrow> 'p"
  clone_trustline :: "TrustLineEntry \<Rightarrow> TrustLineEntry metered"
  clone_asset :: "Asset \<Rightarrow> Asset metered"
  key_account_address :: "'p LedgerKey \<Rightarrow> ('z, Val) objM"
  data_key_val :: "DataKey \<Rightarrow> ('z, Val) objM"
  instance_key_val :: "InstanceDataKey \<Rightarrow> ('z, Val) objM"
  metadata_key_val :: "('z, Val) objM"
  balance_val :: "BalanceValue \<Rightarrow> ('z, Val) objM"
  val_balance :: "Val \<Rightarrow> ('z, BalanceValue) objM"
  allowance_val :: "AllowanceValue \<Rightarrow> ('z, Val) objM"
  val_allowance :: "Val \<Rightarrow> ('z, AllowanceValue) objM"
  asset_info_val :: "AssetInfo \<Rightarrow> ('z, Val) objM"
  val_asset_info :: "Val \<Rightarrow> ('z, AssetInfo) objM"
  metadata_val :: "StellarAssetContractMetadata \<Rightarrow> ('z, Val) objM"
  val_metadata :: "Val \<Rightarrow> ('z, StellarAssetContractMetadata) objM"
  i128_val :: "int \<Rightarrow> ('z, Val) objM"
  val_i128 :: "Val \<Rightarrow> ('z, int) objM"
  string_obj :: "u8 list \<Rightarrow> ('z, Val) objM"
  string_array :: "nat \<Rightarrow> Val \<Rightarrow> ('z, u8 list) objM"
  account_id_from_bytesobj :: "Val \<Rightarrow> ('z, u256) objM"
  bytes_of_u256 :: "u256 \<Rightarrow> ('z, Val) objM"
  strkey_of_bytes :: "Val \<Rightarrow> ('z, u8 list) objM"
  symbol_from_str :: "string \<Rightarrow> ('z, Val) objM"
  symbol_matches :: "string \<Rightarrow> Val \<Rightarrow> ('z, bool) objM"
  vec_from_slice :: "Val list \<Rightarrow> ('z, Val) objM"

end
