(* ===== verification/Auth_Tree.thy ===== *)
theory Auth_Tree
  imports Prelude "HOL-Library.Multiset"
begin

text \<open>
  Authorized invocation trees and the tracker that matches a running call stack against one of
  them (\<^verbatim>\<open>soroban-env-host/src/auth.rs\<close>: \<open>AuthorizedInvocation\<close>, \<open>MatchState\<close>,
  \<open>InvocationTracker\<close>).

  A tree node is a function its signer authorized, with the calls authorized below it and a flag
  that is set once the node has been used. Functions are of an opaque type \<open>'f\<close>; comparing two
  of them and charging the budget are operations of the host, with its own state \<open>'h\<close>, that may
  fail. A mutable reference into a tree is a path of child indices. Stacks grow at the end of
  the list, as Rust vectors do.

  The lemmas: matching uses up exactly one unused node that compares equal to the requested
  function, or changes nothing; a snapshot taken when a frame is entered and rolled back
  when it is left restores the tracker exactly, whatever was matched in between.
\<close>

named_theorems auth_defs \<open>record updates and frame operations of trackers\<close>

section \<open>Trees\<close>

datatype 'f AuthorizedInvocation =
  Invocation (inv_function: 'f) (inv_subs: "'f AuthorizedInvocation list") (inv_exhausted: bool)

datatype AuthorizedInvocationSnapshot =
  Snap (snap_exhausted: bool) (snap_subs: "AuthorizedInvocationSnapshot list")

datatype MatchState = Unmatched | RootMatch | SubMatch nat

definition is_matched :: "MatchState \<Rightarrow> bool" where
  "is_matched m \<longleftrightarrow> m \<noteq> Unmatched"

abbreviation auth_internal :: Error where "auth_internal \<equiv> Err Auth InternalError"

definition invocation_new :: "'f \<Rightarrow> 'f AuthorizedInvocation list \<Rightarrow> 'f AuthorizedInvocation" where
  "invocation_new f subs = Invocation f subs False"

definition invocation_new_recording :: "'f \<Rightarrow> 'f AuthorizedInvocation" where
  "invocation_new_recording f = Invocation f [] True"

text \<open>The path of \<open>last_authorized_invocation_mut\<close> below a node, over the rest of the match stack.\<close>

fun last_authorized_path :: "'f AuthorizedInvocation \<Rightarrow> MatchState list \<Rightarrow> Error + nat list" where
  "last_authorized_path t [] = Inr []"
| "last_authorized_path t (SubMatch i # ms) =
     (if i < length (inv_subs t) then
        case last_authorized_path (inv_subs t ! i) ms of Inl e \<Rightarrow> Inl e | Inr p \<Rightarrow> Inr (i # p)
      else Inl auth_internal)"
| "last_authorized_path t (RootMatch # ms) = Inl auth_internal"
| "last_authorized_path t (Unmatched # ms) = last_authorized_path t ms"

fun at_path :: "nat list \<Rightarrow> 'f AuthorizedInvocation \<Rightarrow> 'f AuthorizedInvocation" where
  "at_path [] t = t"
| "at_path (i # p) t = at_path p (inv_subs t ! i)"

fun upd_path ::
  "nat list \<Rightarrow> ('f AuthorizedInvocation \<Rightarrow> 'f AuthorizedInvocation) \<Rightarrow> 'f AuthorizedInvocation \<Rightarrow>
     'f AuthorizedInvocation" where
  "upd_path [] g t = g t"
| "upd_path (i # p) g (Invocation f subs x) = Invocation f (subs[i := upd_path p g (subs ! i)]) x"

fun collectM :: "('s, 'a) hm list \<Rightarrow> ('s, 'a list) hm" where
  "collectM [] = retM []"
| "collectM (m # ms) = bindM m (\<lambda>x. bindM (collectM ms) (\<lambda>xs. retM (x # xs)))"

text \<open>\<open>charge size n\<close> is \<open>charge_bulk_init_cpy\<close> of \<open>n\<close> elements of a declared size.\<close>

type_synonym 'h charge_init = "nat \<Rightarrow> nat \<Rightarrow> ('h, unit) hm"

fun invocation_snapshot ::
  "'h charge_init \<Rightarrow> 'f AuthorizedInvocation \<Rightarrow> ('h, AuthorizedInvocationSnapshot) hm" where
  "invocation_snapshot charge (Invocation f subs x) =
     thenM (charge 32 (length subs))
       (bindM (collectM (map (invocation_snapshot charge) subs)) (\<lambda>ss. retM (Snap x ss)))"

fun invocation_rollback ::
  "AuthorizedInvocationSnapshot \<Rightarrow> ('f AuthorizedInvocation, unit) hm" and
  rollback_subs :: "AuthorizedInvocationSnapshot list \<Rightarrow> ('f AuthorizedInvocation list, unit) hm" where
  "invocation_rollback (Snap x ss) (Invocation f subs y) =
     (if length subs \<noteq> length ss then (Inl auth_internal, Invocation f subs x)
      else case rollback_subs ss subs of (r, subs') \<Rightarrow> (r, Invocation f subs' x))"
| "rollback_subs [] ts = (Inr (), ts)"
| "rollback_subs (s # ss) [] = (Inr (), [])"
| "rollback_subs (s # ss) (t # ts) =
     (case invocation_rollback s t of
        (Inl e, t') \<Rightarrow> (Inl e, t' # ts)
      | (Inr _, t') \<Rightarrow> (case rollback_subs ss ts of (r, ts') \<Rightarrow> (r, t' # ts')))"

section \<open>Invocation trackers\<close>

record 'f InvocationTracker =
  root_authorized_invocation :: "'f AuthorizedInvocation"
  match_stack :: "MatchState list"
  root_exhausted_frame :: "nat option"
  is_fully_processed :: bool

definition tracker_new :: "'f AuthorizedInvocation \<Rightarrow> 'f InvocationTracker" where
  "tracker_new root = \<lparr>root_authorized_invocation = root, match_stack = [],
     root_exhausted_frame = None, is_fully_processed = False\<rparr>"

text \<open>\<open>usize\<close> subtraction wraps in a release build.\<close>

definition usize_pred :: "nat \<Rightarrow> nat" where
  "usize_pred n = (if n = 0 then 2 ^ 64 - 1 else n - 1)"

definition tracker_new_recording :: "'f \<Rightarrow> nat \<Rightarrow> 'f InvocationTracker" where
  "tracker_new_recording f current_stack_len =
     (let ms = replicate (current_stack_len - 1) Unmatched @ [RootMatch] in
      \<lparr>root_authorized_invocation = invocation_new_recording f, match_stack = ms,
       root_exhausted_frame = Some (usize_pred (length ms)), is_fully_processed = False\<rparr>)"

fun tracker_last_path :: "'f AuthorizedInvocation \<Rightarrow> MatchState list \<Rightarrow> Error + nat list option" where
  "tracker_last_path root [] = Inr None"
| "tracker_last_path root (RootMatch # ms) =
     (case last_authorized_path root ms of Inl e \<Rightarrow> Inl e | Inr p \<Rightarrow> Inr (Some p))"
| "tracker_last_path root (SubMatch i # ms) = Inl auth_internal"
| "tracker_last_path root (Unmatched # ms) = tracker_last_path root ms"

definition tracker_push_frame :: "'h charge_init \<Rightarrow> ('f InvocationTracker \<times> 'h, unit) hm" where
  "tracker_push_frame charge =
     thenM (zoomM snd (\<lambda>h (t, _). (t, h)) (charge 8 1))
       (modifyM (\<lambda>(t, h). (t\<lparr>match_stack := match_stack t @ [Unmatched]\<rparr>, h)))"

definition tracker_pop_frame :: "'f InvocationTracker \<Rightarrow> 'f InvocationTracker" where
  "tracker_pop_frame t =
     (let t = t\<lparr>match_stack := butlast (match_stack t)\<rparr> in
      case root_exhausted_frame t of
        Some n \<Rightarrow> if n \<ge> length (match_stack t) then t\<lparr>is_fully_processed := True\<rparr> else t
      | None \<Rightarrow> t)"

definition tracker_is_empty :: "'f InvocationTracker \<Rightarrow> bool" where
  "tracker_is_empty t \<longleftrightarrow> match_stack t = []"

definition tracker_is_active :: "'f InvocationTracker \<Rightarrow> bool" where
  "tracker_is_active t \<longleftrightarrow> inv_exhausted (root_authorized_invocation t) \<and> \<not> is_fully_processed t"

definition current_frame_is_already_matched :: "'f InvocationTracker \<Rightarrow> bool" where
  "current_frame_is_already_matched t \<longleftrightarrow> match_stack t \<noteq> [] \<and> is_matched (last (match_stack t))"

definition has_matched_invocations_in_stack :: "'f InvocationTracker \<Rightarrow> bool" where
  "has_matched_invocations_in_stack t \<longleftrightarrow> list_ex is_matched (match_stack t)"

type_synonym ('h, 'f) compare_fn = "'f \<Rightarrow> 'f \<Rightarrow> ('h, Ordering) hm"

fun find_unused_sub ::
  "('h, 'f) compare_fn \<Rightarrow> 'f \<Rightarrow> nat \<Rightarrow> 'f AuthorizedInvocation list \<Rightarrow> ('h, nat option) hm" where
  "find_unused_sub cmp function i [] = retM None"
| "find_unused_sub cmp function i (sub # subs) =
     (if inv_exhausted sub then find_unused_sub cmp function (i + 1) subs
      else bindM (cmp (inv_function sub) function) (\<lambda>ord.
        if ord = Equal then retM (Some i) else find_unused_sub cmp function (i + 1) subs))"

definition set_exhausted :: "'f AuthorizedInvocation \<Rightarrow> 'f AuthorizedInvocation" where
  "set_exhausted t = Invocation (inv_function t) (inv_subs t) True"

definition onHost :: "('h, 'a) hm \<Rightarrow> ('t \<times> 'h, 'a) hm" where
  "onHost m = zoomM snd (\<lambda>h (t, _). (t, h)) m"

definition onTracker :: "('t \<Rightarrow> 't) \<Rightarrow> ('t \<times> 'h, unit) hm" where
  "onTracker g = modifyM (\<lambda>(t, h). (g t, h))"

definition set_last_match :: "MatchState \<Rightarrow> ('f InvocationTracker \<times> 'h, unit) hm" where
  "set_last_match m =
     bindM (getM fst) (\<lambda>t.
       if match_stack t = [] then throwM auth_internal
       else onTracker (match_stack_update (\<lambda>ms. butlast ms @ [m])))"

definition maybe_extend_invocation_match ::
  "('h, 'f) compare_fn \<Rightarrow> 'f \<Rightarrow> bool \<Rightarrow> ('f InvocationTracker \<times> 'h, bool) hm" where
  "maybe_extend_invocation_match cmp function allow_matching_root =
     bindM (getM fst) (\<lambda>t.
       if current_frame_is_already_matched t then retM False
       else bindM (case tracker_last_path (root_authorized_invocation t) (match_stack t) of
           Inl e \<Rightarrow> throwM e
         | Inr (Some p) \<Rightarrow>
             bindM (onHost (find_unused_sub cmp function 0
                 (inv_subs (at_path p (root_authorized_invocation t))))) (\<lambda>r.
               case r of
                 Some i \<Rightarrow> thenM (onTracker (root_authorized_invocation_update
                     (upd_path (p @ [i]) set_exhausted))) (retM (SubMatch i))
               | None \<Rightarrow> retM Unmatched)
         | Inr None \<Rightarrow>
             if \<not> inv_exhausted (root_authorized_invocation t) \<and> allow_matching_root then
               bindM (onHost (cmp (inv_function (root_authorized_invocation t)) function)) (\<lambda>ord.
                 if ord = Equal then
                   thenM (onTracker (\<lambda>t. t\<lparr>root_authorized_invocation := set_exhausted (root_authorized_invocation t),
                       root_exhausted_frame := Some (usize_pred (length (match_stack t)))\<rparr>))
                     (retM RootMatch)
                 else retM Unmatched)
             else retM Unmatched)
         (\<lambda>new_match_state.
            if is_matched new_match_state then thenM (set_last_match new_match_state) (retM True)
            else retM False))"

definition tracker_record_invocation :: "'f \<Rightarrow> ('f InvocationTracker, unit) hm" where
  "tracker_record_invocation function =
     bindM (getM id) (\<lambda>t.
       if current_frame_is_already_matched t then throwM (Err Auth ExistingValue)
       else case tracker_last_path (root_authorized_invocation t) (match_stack t) of
           Inl e \<Rightarrow> throwM e
         | Inr (Some p) \<Rightarrow>
             modifyM (\<lambda>t. t\<lparr>
               root_authorized_invocation := upd_path p (\<lambda>n. Invocation (inv_function n)
                   (inv_subs n @ [invocation_new_recording function]) (inv_exhausted n))
                 (root_authorized_invocation t),
               match_stack := butlast (match_stack t) @
                 [SubMatch (length (inv_subs (at_path p (root_authorized_invocation t))))]\<rparr>)
         | Inr None \<Rightarrow> throwM auth_internal)"

definition tracker_snapshot ::
  "'h charge_init \<Rightarrow> 'f InvocationTracker \<Rightarrow> ('h, AuthorizedInvocationSnapshot) hm" where
  "tracker_snapshot charge t = invocation_snapshot charge (root_authorized_invocation t)"

definition tracker_rollback :: "AuthorizedInvocationSnapshot \<Rightarrow> ('f InvocationTracker, unit) hm" where
  "tracker_rollback s =
     thenM (zoomM root_authorized_invocation (\<lambda>r t. t\<lparr>root_authorized_invocation := r\<rparr>)
         (invocation_rollback s))
       (modifyM (\<lambda>t. if \<not> inv_exhausted (root_authorized_invocation t)
          then t\<lparr>root_exhausted_frame := None, is_fully_processed := False\<rparr> else t))"

section \<open>Snapshots and rollback\<close>

fun snap_of :: "'f AuthorizedInvocation \<Rightarrow> AuthorizedInvocationSnapshot" where
  "snap_of (Invocation f subs x) = Snap x (map snap_of subs)"

text \<open>What rollback cannot change: the functions and the shape of a tree.\<close>

fun skeleton :: "'f AuthorizedInvocation \<Rightarrow> 'f AuthorizedInvocation" where
  "skeleton (Invocation f subs x) = Invocation f (map skeleton subs) False"

lemma collectM_Inr:
  "collectM ms s = (Inr xs, s') \<Longrightarrow> (\<And>m x s s'. m \<in> set ms \<Longrightarrow> m s = (Inr x, s') \<Longrightarrow> P m x) \<Longrightarrow>
   list_all2 P ms xs"
  by (induction ms arbitrary: s xs) (auto simp: m_simps)

lemma invocation_snapshot_Inr:
  "invocation_snapshot charge t h = (Inr s, h') \<Longrightarrow> s = snap_of t"
proof (induction charge t arbitrary: h s h' rule: invocation_snapshot.induct)
  case (1 charge f subs x)
  then obtain ss h1 h2 where s: "s = Snap x ss"
    and ss: "collectM (map (invocation_snapshot charge) subs) h1 = (Inr ss, h2)"
    by (auto simp: m_simps)
  have "list_all2 (\<lambda>m s. \<forall>t\<in>set subs. m = invocation_snapshot charge t \<longrightarrow> s = snap_of t)
      (map (invocation_snapshot charge) subs) ss"
    using ss by (rule collectM_Inr) (use 1(1) in blast)
  then have "ss = map snap_of subs"
    by (auto simp: list_all2_conv_all_nth intro!: nth_equalityI)
  with s show ?case by simp
qed

lemma rollback_snap:
  fixes t t' :: "'f AuthorizedInvocation" and ts ts' :: "'f AuthorizedInvocation list"
  shows "skeleton t = skeleton t' \<Longrightarrow> invocation_rollback (snap_of t) t' = (Inr (), t)"
  "map skeleton ts = map skeleton ts' \<Longrightarrow> rollback_subs (map snap_of ts) ts' = (Inr (), ts)"
proof (induction "snap_of t" t' and "map snap_of ts" ts' arbitrary: t and ts
    rule: invocation_rollback_rollback_subs.induct)
  case (1 x ss f subs y)
  then obtain subs0 where t: "t = Invocation f subs0 x" and ss: "ss = map snap_of subs0"
    and sk: "map skeleton subs0 = map skeleton subs"
    by (cases t) auto
  have "length subs = length ss" using sk ss by (metis length_map)
  then show ?case using 1(1) ss sk t by (auto split: prod.splits)
next
  case (4 s ss t' ts')
  then obtain u us where u: "ts = u # us" "s = snap_of u" "ss = map snap_of us"
    "skeleton u = skeleton t'" "map skeleton us = map skeleton ts'"
    by (cases ts) auto
  have r: "invocation_rollback s t' = (Inr (), u)" using 4(1) u by simp
  have "rollback_subs ss ts' = (Inr (), us)" using 4(2) [OF r [symmetric] refl] u by simp
  with r u show ?case by simp
qed auto

lemma inv_exhausted_snap: "snap_exhausted (snap_of t) = inv_exhausted t"
  by (cases t) simp

section \<open>Unused nodes\<close>

fun unused :: "'f AuthorizedInvocation \<Rightarrow> 'f multiset" where
  "unused (Invocation f subs x) = (if x then {#} else {#f#}) + (\<Sum>s\<leftarrow>subs. unused s)"

lemma sum_list_upd_add:
  "i < length xs \<Longrightarrow> sum_list (xs[i := y]) + xs ! i = sum_list xs + (y :: 'a::comm_monoid_add)"
  by (induction xs arbitrary: i) (auto simp: nth_Cons' ac_simps split: nat.splits)

text \<open>\<open>valid_path p t\<close>: every index on the path exists.\<close>

fun valid_path :: "nat list \<Rightarrow> 'f AuthorizedInvocation \<Rightarrow> bool" where
  "valid_path [] t = True"
| "valid_path (i # p) t = (i < length (inv_subs t) \<and> valid_path p (inv_subs t ! i))"

lemma valid_path_append: "valid_path (p @ q) t \<longleftrightarrow> valid_path p t \<and> valid_path q (at_path p t)"
  by (induction p arbitrary: t) auto

lemma at_path_append: "at_path (p @ q) t = at_path q (at_path p t)"
  by (induction p arbitrary: t) auto

lemma last_authorized_path_valid: "last_authorized_path t ms = Inr p \<Longrightarrow> valid_path p t"
  by (induction t ms arbitrary: p rule: last_authorized_path.induct) (auto split: if_splits sum.splits)

lemma tracker_last_path_valid: "tracker_last_path t ms = Inr (Some p) \<Longrightarrow> valid_path p t"
  by (induction t ms rule: tracker_last_path.induct) (auto split: sum.splits dest: last_authorized_path_valid)

lemma skeleton_exhaust: "skeleton (set_exhausted t) = skeleton t"
  by (cases t) (simp add: set_exhausted_def)

lemma skeleton_upd_path:
  "valid_path p t \<Longrightarrow> skeleton (upd_path p set_exhausted t) = skeleton t"
proof (induction p arbitrary: t)
  case (Cons i p)
  then show ?case
    by (cases t) (auto simp: list_eq_iff_nth_eq nth_list_update)
qed (simp add: skeleton_exhaust)

lemma unused_exhaust:
  "\<not> inv_exhausted t \<Longrightarrow> add_mset (inv_function t) (unused (set_exhausted t)) = unused t"
  by (cases t) (simp add: set_exhausted_def)

lemma unused_upd_path:
  "valid_path p t \<Longrightarrow> \<not> inv_exhausted (at_path p t) \<Longrightarrow>
   add_mset (inv_function (at_path p t)) (unused (upd_path p set_exhausted t)) = unused t"
proof (induction p arbitrary: t)
  case (Cons i p)
  obtain f subs x where t: "t = Invocation f subs x" by (cases t)
  let ?s = "subs ! i"
  have i: "i < length subs" using Cons.prems t by simp
  have IH: "add_mset (inv_function (at_path p ?s)) (unused (upd_path p set_exhausted ?s)) = unused ?s"
    using Cons t by simp
  have "(\<Sum>s\<leftarrow>subs[i := upd_path p set_exhausted ?s]. unused s) + unused ?s
      = (\<Sum>s\<leftarrow>subs. unused s) + unused (upd_path p set_exhausted ?s)"
    using sum_list_upd_add [of i "map unused subs" "unused (upd_path p set_exhausted ?s)"] i
    by (simp add: map_update)
  then have "add_mset (inv_function (at_path p ?s)) (\<Sum>s\<leftarrow>subs[i := upd_path p set_exhausted ?s]. unused s)
      = (\<Sum>s\<leftarrow>subs. unused s)"
    unfolding IH [symmetric] by simp
  then show ?case using t i by simp
qed (simp add: unused_exhaust)

lemma inv_exhausted_upd_path:
  "inv_exhausted t \<Longrightarrow> inv_exhausted (upd_path p set_exhausted t)"
  by (cases p; cases t) (simp_all add: set_exhausted_def)

lemma find_unused_sub_Inr:
  "find_unused_sub cmp function i subs h = (Inr (Some j), h') \<Longrightarrow>
   \<exists>k h1 h2. j = i + k \<and> k < length subs \<and> \<not> inv_exhausted (subs ! k) \<and>
     cmp (inv_function (subs ! k)) function h1 = (Inr Equal, h2)"
proof (induction subs arbitrary: i h)
  case (Cons s subs)
  consider "j = i" "\<not> inv_exhausted s" "\<exists>h1 h2. cmp (inv_function s) function h1 = (Inr Equal, h2)"
    | h1 where "find_unused_sub cmp function (i + 1) subs h1 = (Inr (Some j), h')"
    using Cons.prems by (auto simp: m_simps split: if_splits)
  then show ?case
  proof cases
    case 2
    then obtain k h1 h2 where "j = i + 1 + k" "k < length subs" "\<not> inv_exhausted (subs ! k)"
      "cmp (inv_function (subs ! k)) function h1 = (Inr Equal, h2)"
      using Cons.IH by blast
    then show ?thesis by (intro exI [of _ "Suc k"]) auto
  qed (auto intro: exI [of _ 0])
qed (simp add: m_simps)

section \<open>Outcomes of a match\<close>

lemma onHost_run: "onHost m (t, h) = (case m h of (r, h') \<Rightarrow> (r, (t, h')))"
  by (simp add: onHost_def zoomM_def split: prod.splits)

lemma onTracker_run: "onTracker g (t, h) = (Inr (), (g t, h))"
  by (simp add: onTracker_def modifyM_def)

lemma set_last_match_run:
  "set_last_match m (t, h) = (if match_stack t = [] then (Inl auth_internal, (t, h))
     else (Inr (), (t\<lparr>match_stack := butlast (match_stack t) @ [m]\<rparr>, h)))"
  by (simp add: set_last_match_def onTracker_run m_defs)

lemmas run_simps = bindM_def getM_def retM_def throwM_def onHost_run onTracker_run set_last_match_run

lemma tracker_last_path_nonempty: "tracker_last_path t ms = Inr (Some p) \<Longrightarrow> ms \<noteq> []"
  by auto

lemma maybe_extend_cases:
  assumes run: "maybe_extend_invocation_match cmp function allow (t, h) = (r, (t', h'))"
  obtains (same) "t' = t" "r \<noteq> Inr True"
  | (sub) p i h1 h2 where "r = Inr True" "match_stack t \<noteq> []"
      "valid_path (p @ [i]) (root_authorized_invocation t)"
      "\<not> inv_exhausted (at_path (p @ [i]) (root_authorized_invocation t))"
      "tracker_last_path (root_authorized_invocation t) (match_stack t) = Inr (Some p)"
      "cmp (inv_function (at_path (p @ [i]) (root_authorized_invocation t))) function h1 = (Inr Equal, h2)"
      "t' = t\<lparr>root_authorized_invocation := upd_path (p @ [i]) set_exhausted (root_authorized_invocation t),
          match_stack := butlast (match_stack t) @ [SubMatch i]\<rparr>"
  | (root) h1 h2 where "r = Inr True" "match_stack t \<noteq> []" "allow"
      "\<not> inv_exhausted (root_authorized_invocation t)"
      "tracker_last_path (root_authorized_invocation t) (match_stack t) = Inr None"
      "cmp (inv_function (root_authorized_invocation t)) function h1 = (Inr Equal, h2)"
      "t' = t\<lparr>root_authorized_invocation := set_exhausted (root_authorized_invocation t),
          root_exhausted_frame := Some (length (match_stack t) - 1),
          match_stack := butlast (match_stack t) @ [RootMatch]\<rparr>"
  | (broken) "r = Inl auth_internal" "match_stack t = []"
      "\<not> inv_exhausted (root_authorized_invocation t)"
      "t' = t\<lparr>root_authorized_invocation := set_exhausted (root_authorized_invocation t),
          root_exhausted_frame := Some (2 ^ 64 - 1)\<rparr>"
proof -
  let ?root = "root_authorized_invocation t" and ?ms = "match_stack t"
  note def = maybe_extend_invocation_match_def
  show ?thesis
  proof (cases "current_frame_is_already_matched t")
    case True
    then show ?thesis using run by (intro same) (auto simp: def run_simps)
  next
    case False
    show ?thesis
    proof (cases "tracker_last_path ?root ?ms")
      case (Inl e)
      then show ?thesis using run False by (intro same) (auto simp: def run_simps)
    next
      case (Inr op)
      show ?thesis
      proof (cases op)
        case None
        show ?thesis
        proof (cases "\<not> inv_exhausted ?root \<and> allow")
          case True
          obtain r1 h1 where c: "cmp (inv_function ?root) function h = (r1, h1)"
            by (cases "cmp (inv_function ?root) function h")
          show ?thesis
          proof (cases "r1 = Inr Equal")
            case eq: True
            show ?thesis
            proof (cases "?ms = []")
              case True
              then show ?thesis
                using run False Inr None eq c \<open>\<not> inv_exhausted ?root \<and> allow\<close>
                by (intro broken) (simp_all add: def run_simps is_matched_def usize_pred_def)
            next
              case ms: False
              then show ?thesis
                using run False Inr None eq c \<open>\<not> inv_exhausted ?root \<and> allow\<close>
                by (intro root [of h h1]) (auto simp add: def run_simps is_matched_def usize_pred_def)
            qed
          next
            case ne: False
            then show ?thesis
              using run False Inr None c True
              by (intro same) (auto simp: def run_simps is_matched_def split: sum.splits if_splits)
          qed
        next
          case no: False
          then show ?thesis using run False Inr None
            by (intro same) (auto simp: def run_simps is_matched_def)
        qed
      next
        case (Some p)
        let ?subs = "inv_subs (at_path p ?root)"
        obtain r1 h1 where c: "find_unused_sub cmp function 0 ?subs h = (r1, h1)"
          by (cases "find_unused_sub cmp function 0 ?subs h")
        show ?thesis
        proof (cases "\<exists>i. r1 = Inr (Some i)")
          case True
          then obtain i where i: "r1 = Inr (Some i)" ..
          then obtain k h2 h3 where k: "i = 0 + k" "k < length ?subs" "\<not> inv_exhausted (?subs ! k)"
            "cmp (inv_function (?subs ! k)) function h2 = (Inr Equal, h3)"
            using c find_unused_sub_Inr by metis
          have v: "valid_path p ?root" using Inr Some tracker_last_path_valid by blast
          have ms: "?ms \<noteq> []" using Inr Some tracker_last_path_nonempty by blast
          have "r = Inr True" "t' = t\<lparr>root_authorized_invocation := upd_path (p @ [i]) set_exhausted ?root,
              match_stack := butlast ?ms @ [SubMatch i]\<rparr>"
            using run False Inr Some c i ms by (auto simp: def run_simps is_matched_def)
          then show ?thesis using sub [of p i h2 h3] v k ms Inr Some
            by (simp add: valid_path_append at_path_append)
        next
          case no: False
          then show ?thesis using run False Inr Some c
            by (intro same) (auto simp: def run_simps is_matched_def split: sum.splits option.splits)
        qed
      qed
    qed
  qed
qed

section \<open>Frames\<close>

text \<open>
  \<open>frame_rel t t'\<close>: what code running in one frame, and in the frames it enters and leaves, can do
  to a tracker: use up nodes and set the match state of its own frame.
\<close>

definition frame_rel :: "'f InvocationTracker \<Rightarrow> 'f InvocationTracker \<Rightarrow> bool" where
  "frame_rel t t' \<longleftrightarrow>
     skeleton (root_authorized_invocation t') = skeleton (root_authorized_invocation t) \<and>
     length (match_stack t') = length (match_stack t) \<and>
     butlast (match_stack t') = butlast (match_stack t) \<and>
     unused (root_authorized_invocation t') \<subseteq># unused (root_authorized_invocation t) \<and>
     (inv_exhausted (root_authorized_invocation t) \<longrightarrow>
        inv_exhausted (root_authorized_invocation t') \<and>
        root_exhausted_frame t' = root_exhausted_frame t \<and>
        is_fully_processed t' = is_fully_processed t)"

lemma frame_rel_refl [simp]: "frame_rel t t"
  by (simp add: frame_rel_def)

lemma frame_rel_trans: "frame_rel t u \<Longrightarrow> frame_rel u v \<Longrightarrow> frame_rel t v"
  unfolding frame_rel_def by (auto intro: subset_mset.order_trans)

text \<open>The invariant that ties the flags of a tracker to its root and its stack.\<close>

definition tracker_ok :: "'f InvocationTracker \<Rightarrow> bool" where
  "tracker_ok t \<longleftrightarrow>
     (inv_exhausted (root_authorized_invocation t) \<longleftrightarrow> root_exhausted_frame t \<noteq> None) \<and>
     (root_exhausted_frame t = None \<longrightarrow> \<not> is_fully_processed t) \<and>
     (\<forall>k. root_exhausted_frame t = Some k \<longrightarrow> k < length (match_stack t) \<or> is_fully_processed t)"

lemma tracker_new_ok: "tracker_ok (tracker_new (invocation_new f subs))"
  by (simp add: tracker_ok_def tracker_new_def invocation_new_def)

definition pushed :: "'f InvocationTracker \<Rightarrow> 'f InvocationTracker" where
  "pushed t = t\<lparr>match_stack := match_stack t @ [Unmatched]\<rparr>"

lemma tracker_push_run:
  "tracker_push_frame charge (t, h) = (case charge 8 1 h of
     (Inl e, h') \<Rightarrow> (Inl e, (t, h')) | (Inr _, h') \<Rightarrow> (Inr (), (pushed t, h')))"
  by (simp add: tracker_push_frame_def pushed_def m_defs split: prod.splits sum.splits)

lemma pushed_ok: "tracker_ok t \<Longrightarrow> tracker_ok (pushed t)"
  by (auto simp: tracker_ok_def pushed_def less_Suc_eq)

lemma pop_ok: "tracker_ok t \<Longrightarrow> tracker_ok (tracker_pop_frame t)"
  by (auto simp: tracker_ok_def tracker_pop_frame_def Let_def split: option.splits)

lemma unused_subs_upd:
  "valid_path p t \<Longrightarrow> \<not> inv_exhausted (at_path p t) \<Longrightarrow> unused (upd_path p set_exhausted t) \<subseteq># unused t"
  using mset_subset_eq_add_left [of "unused (upd_path p set_exhausted t)" "{#inv_function (at_path p t)#}"]
    unused_upd_path [of p t] by simp

lemma unused_set_exhausted: "unused (set_exhausted t) \<subseteq># unused t"
  by (cases t) (simp add: set_exhausted_def)

lemma inv_exhausted_set [simp]: "inv_exhausted (set_exhausted t)"
  by (simp add: set_exhausted_def)

lemma inv_exhausted_upd_nonroot:
  "inv_exhausted (upd_path (p @ [i]) set_exhausted t) = inv_exhausted t"
  by (cases p; cases t) simp_all

lemma maybe_extend_rel:
  assumes "maybe_extend_invocation_match cmp function allow (t, h) = (r, (t', h'))"
  shows "frame_rel t t'"
  using assms
proof (cases rule: maybe_extend_cases)
  case (sub p i h1 h2)
  then show ?thesis
    by (simp add: frame_rel_def skeleton_upd_path unused_subs_upd inv_exhausted_upd_nonroot
        length_append_singleton flip: length_greater_0_conv)
qed (simp_all add: frame_rel_def skeleton_exhaust unused_set_exhausted flip: length_greater_0_conv)

lemma maybe_extend_ok:
  assumes "maybe_extend_invocation_match cmp function allow (t, h) = (r, (t', h'))"
    and "r \<noteq> Inl auth_internal" "tracker_ok t"
  shows "tracker_ok t'"
  using assms(1)
  by (cases rule: maybe_extend_cases)
    (use assms(2,3) in \<open>auto simp: tracker_ok_def inv_exhausted_upd_nonroot length_greater_0_conv [symmetric]
      simp del: length_greater_0_conv\<close>)

text \<open>The host has compared the two and found them equal.\<close>

definition compares_equal :: "('x \<Rightarrow> 'x \<Rightarrow> ('h, Ordering) hm) \<Rightarrow> 'x \<Rightarrow> 'x \<Rightarrow> bool" where
  "compares_equal cmp a b \<longleftrightarrow> (\<exists>h h'. cmp a b h = (Inr Equal, h'))"

lemma compares_equalI: "cmp a b h = (Inr Equal, h') \<Longrightarrow> compares_equal cmp a b"
  unfolding compares_equal_def by blast

lemma maybe_extend_uses_one:
  assumes "maybe_extend_invocation_match cmp function allow (t, h) = (Inr True, (t', h'))"
  shows "\<exists>f. unused (root_authorized_invocation t) = add_mset f (unused (root_authorized_invocation t')) \<and>
    compares_equal cmp f function"
  using assms
proof (cases rule: maybe_extend_cases)
  case (sub p i h1 h2)
  then show ?thesis using unused_upd_path [of "p @ [i]" "root_authorized_invocation t"]
    by (intro exI [of _ "inv_function (at_path (p @ [i]) (root_authorized_invocation t))"])
      (simp add: compares_equalI)
next
  case (root h1 h2)
  then show ?thesis using unused_exhaust [of "root_authorized_invocation t"]
    by (intro exI [of _ "inv_function (root_authorized_invocation t)"]) (simp add: compares_equalI)
qed simp_all

lemma maybe_extend_False:
  "maybe_extend_invocation_match cmp function allow (t, h) = (Inr False, (t', h')) \<Longrightarrow> t' = t"
  by (erule maybe_extend_cases) simp_all

text \<open>Entering a frame, running in it and leaving it is a step of the frame below.\<close>

lemma pop_after_push:
  assumes "tracker_ok t" "frame_rel (pushed t) u"
  shows "frame_rel t (tracker_pop_frame u)" "match_stack (tracker_pop_frame u) = match_stack t"
  using assms
  by (auto simp: frame_rel_def pushed_def tracker_pop_frame_def tracker_ok_def Let_def split: option.splits)

lemma tracker_rollback_run:
  assumes "skeleton (root_authorized_invocation t) = skeleton (root_authorized_invocation u)"
  shows "tracker_rollback (snap_of (root_authorized_invocation t)) u =
    (Inr (), if inv_exhausted (root_authorized_invocation t)
       then u\<lparr>root_authorized_invocation := root_authorized_invocation t\<rparr>
       else u\<lparr>root_authorized_invocation := root_authorized_invocation t,
            root_exhausted_frame := None, is_fully_processed := False\<rparr>)"
  using rollback_snap(1) [OF assms] by (simp add: tracker_rollback_def m_defs)

text \<open>A snapshot taken on entry and rolled back on exit restores the tracker.\<close>

lemma rollback_restores:
  assumes "tracker_ok t" "frame_rel (pushed t) u"
  shows "\<exists>v. tracker_rollback (snap_of (root_authorized_invocation t)) u = (Inr (), v) \<and>
    tracker_pop_frame v = t"
proof -
  have "skeleton (root_authorized_invocation t) = skeleton (root_authorized_invocation u)"
    using assms(2) by (simp add: frame_rel_def pushed_def)
  note run = tracker_rollback_run [OF this]
  show ?thesis
    unfolding run using assms
    by (auto simp: frame_rel_def pushed_def tracker_pop_frame_def tracker_ok_def Let_def
        split: option.splits intro!: InvocationTracker.equality)
qed

end
