(* ===== verification/Auth_Manager.thy ===== *)
theory Auth_Manager
  imports Auth_Tree Ledger_Key
begin

text \<open>
  The authorization manager (\<^verbatim>\<open>soroban-env-host/src/auth.rs\<close>): account trackers, invoker
  contract trackers, the authorization call stack, the enforcing and the recording mode, snapshots
  and rollback.

  An operation works on the pair of the manager and the rest of the host (type \<open>'h\<close>). What the
  manager calls on the host is the record \<open>auth_host\<close>: comparisons, budget charges, conversions
  of XDR values into host values, the ledger parameters, consuming a nonce, and \<open>check_auth\<close>,
  which verifies an account's signature and may run contract code that calls the manager again.
  A tracker whose \<open>RefCell\<close> is mutably borrowed while that code runs is the cell \<open>Borrowed\<close>;
  re-entrant operations skip it, as the source does.
\<close>

section \<open>Data\<close>

record ('a, 'v) ContractFunction =
  cf_address :: 'a
  cf_name :: 'v
  cf_args :: "'v list"

datatype ('a, 'v, 'c) AuthorizedFunction =
  ContractFn "('a, 'v) ContractFunction" | CreateContractHostFn 'c

datatype ('a, 'v, 'c) AuthStackFrame = FrameContract 'a 'v | FrameCreateContract 'c

type_synonym ('a, 'v, 'c) auth_tree = "('a, 'v, 'c) AuthorizedFunction AuthorizedInvocation"
type_synonym ('a, 'v, 'c) auth_tracker = "('a, 'v, 'c) AuthorizedFunction InvocationTracker"

record ('a, 'v, 'c) AccountAuthorizationTracker =
  acc_address :: 'a
  acc_tracker :: "('a, 'v, 'c) auth_tracker"
  acc_signature :: 'v
  is_transaction_source_account :: bool
  verified :: bool
  acc_nonce :: "(int \<times> u32) option"

record ('a, 'v, 'c) InvokerContractAuthorizationTracker =
  inv_contract_address :: 'a
  inv_tracker :: "('a, 'v, 'c) auth_tracker"

datatype 'x cell = Free 'x | Borrowed

datatype AuthorizationMode =
    AuthEnforcing
  | AuthRecording (tracker_by_address_handle: "u32 \<rightharpoonup> nat") (disable_non_root_auth: bool)

record ('a, 'v, 'c) AuthorizationManager =
  auth_mode :: AuthorizationMode
  account_trackers :: "('a, 'v, 'c) AccountAuthorizationTracker cell list"
  invoker_contract_trackers :: "('a, 'v, 'c) InvokerContractAuthorizationTracker list"
  call_stack :: "('a, 'v, 'c) AuthStackFrame list"

datatype ('a, 'v, 'c) AccountTrackersSnapshot =
    SnapEnforcing "(AuthorizedInvocationSnapshot \<times> bool) option list"
  | SnapRecording "('a, 'v, 'c) AccountAuthorizationTracker cell list"

record ('a, 'v, 'c) AuthorizationManagerSnapshot =
  account_trackers_snapshot :: "('a, 'v, 'c) AccountTrackersSnapshot"
  invoker_contract_tracker_root_snapshots :: "AuthorizedInvocationSnapshot list"
  handles_snapshot :: "(u32 \<rightharpoonup> nat) option"

text \<open>Contract ids are 256-bit hashes.\<close>

record ('h, 'a, 'v, 'c) auth_host =
  cmp_address :: "'a \<Rightarrow> 'a \<Rightarrow> ('h, Ordering) hm"
  cmp_symbol :: "'v \<Rightarrow> 'v \<Rightarrow> ('h, Ordering) hm"
  cmp_args :: "'v list \<Rightarrow> 'v list \<Rightarrow> ('h, Ordering) hm"
  cmp_create :: "'c \<Rightarrow> 'c \<Rightarrow> ('h, Ordering) hm"
  init_cpy :: "'h charge_init"
  clone_symbol :: "'v \<Rightarrow> ('h, 'v) hm"
  clone_create :: "'c \<Rightarrow> ('h, 'c) hm"
  address_handle :: "'a \<Rightarrow> u32"
  contract_address_object :: "u256 \<Rightarrow> ('h, 'a) hm"
  source_account_address :: "('h, 'a option) hm"
  address_from_xdr :: "'a \<Rightarrow> ('h, 'a) hm"
  val_from_xdr :: "'v \<Rightarrow> ('h, 'v) hm"
  function_from_xdr :: "('a, 'v, 'c) AuthorizedFunction \<Rightarrow> ('h, ('a, 'v, 'c) AuthorizedFunction) hm"
  ledger_of :: "'h \<Rightarrow> LedgerInfo option"
  nonce_prng :: "('h, int) hm"
  consume_nonce :: "'a \<Rightarrow> int \<Rightarrow> u32 \<Rightarrow> ('h, unit) hm"
  check_auth :: "'a \<Rightarrow> (int \<times> u32) option \<Rightarrow> 'v \<Rightarrow> ('a, 'v, 'c) auth_tree \<Rightarrow>
     (('a, 'v, 'c) AuthorizationManager \<times> 'h, unit) hm"

section \<open>Comparison of functions\<close>

definition compare_contract_function ::
  "('h, 'a, 'v, 'c) auth_host \<Rightarrow> ('a, 'v) ContractFunction \<Rightarrow> ('a, 'v) ContractFunction \<Rightarrow>
     ('h, Ordering) hm" where
  "compare_contract_function H a b =
     bindM (cmp_address H (cf_address a) (cf_address b)) (\<lambda>ord.
       if ord \<noteq> Equal then retM ord
       else bindM (cmp_symbol H (cf_name a) (cf_name b)) (\<lambda>ord.
         if ord \<noteq> Equal then retM ord else cmp_args H (cf_args a) (cf_args b)))"

fun compare_authorized_function ::
  "('h, 'a, 'v, 'c) auth_host \<Rightarrow> ('h, ('a, 'v, 'c) AuthorizedFunction) compare_fn" where
  "compare_authorized_function H (ContractFn f1) (ContractFn f2) = compare_contract_function H f1 f2"
| "compare_authorized_function H (CreateContractHostFn c1) (CreateContractHostFn c2) =
     cmp_create H c1 c2"
| "compare_authorized_function H (ContractFn _) (CreateContractHostFn _) = retM Less"
| "compare_authorized_function H (CreateContractHostFn _) (ContractFn _) = retM Greater"

fun to_authorized_function ::
  "('h, 'a, 'v, 'c) auth_host \<Rightarrow> ('a, 'v, 'c) AuthStackFrame \<Rightarrow> 'v list \<Rightarrow>
     ('h, ('a, 'v, 'c) AuthorizedFunction) hm" where
  "to_authorized_function H (FrameContract address name) args =
     bindM (clone_symbol H name) (\<lambda>name.
       retM (ContractFn \<lparr>cf_address = address, cf_name = name, cf_args = args\<rparr>))"
| "to_authorized_function H (FrameCreateContract c) args =
     bindM (clone_create H c) (\<lambda>c. retM (CreateContractHostFn c))"

section \<open>Trackers\<close>

fun invocation_from_xdr ::
  "('h, 'a, 'v, 'c) auth_host \<Rightarrow> ('a, 'v, 'c) auth_tree \<Rightarrow> ('h, ('a, 'v, 'c) auth_tree) hm" where
  "invocation_from_xdr H (Invocation f subs x) =
     thenM (init_cpy H 136 (length subs))
       (bindM (collectM (map (invocation_from_xdr H) subs)) (\<lambda>subs.
         bindM (function_from_xdr H f) (\<lambda>f. retM (invocation_new f subs))))"

datatype ('a, 'v) SorobanCredentials = SourceAccount | AddressCreds 'a int u32 'v

definition from_authorization_entry ::
  "('h, 'a, 'v, 'c) auth_host \<Rightarrow> ('a, 'v) SorobanCredentials \<Rightarrow> ('a, 'v, 'c) auth_tree \<Rightarrow> 'v \<Rightarrow>
     ('h, ('a, 'v, 'c) AccountAuthorizationTracker) hm" where
  "from_authorization_entry H credentials root void =
     bindM (case credentials of
         SourceAccount \<Rightarrow>
           bindM (source_account_address H) (\<lambda>sa.
             bindM (okOrM sa auth_internal) (\<lambda>a. retM (a, None, void, True)))
       | AddressCreds a n l sig \<Rightarrow>
           bindM (address_from_xdr H a) (\<lambda>a.
             bindM (val_from_xdr H sig) (\<lambda>sig. retM (a, Some (n, l), sig, False))))
       (\<lambda>(address, nonce, sig, src).
          bindM (invocation_from_xdr H root) (\<lambda>root.
            retM \<lparr>acc_address = address, acc_tracker = tracker_new root, acc_signature = sig,
                  is_transaction_source_account = src, verified = False, acc_nonce = nonce\<rparr>))"

fun is_recoverable :: "Error \<Rightarrow> bool" where
  "is_recoverable (ContractErr _) = True"
| "is_recoverable (Err ty code) =
     (if code = InternalError then False
      else if code = ExceededLimit \<and> (ty = Storage \<or> ty = Budget) then False else True)"

definition authenticate ::
  "('h, 'a, 'v, 'c) auth_host \<Rightarrow> ('a, 'v, 'c) AccountAuthorizationTracker \<Rightarrow>
     (('a, 'v, 'c) AuthorizationManager \<times> 'h, unit) hm" where
  "authenticate H t =
     (if is_transaction_source_account t then retM ()
      else check_auth H (acc_address t) (acc_nonce t) (acc_signature t)
        (root_authorized_invocation (acc_tracker t)))"

definition verify_and_consume_nonce ::
  "('h, 'a, 'v, 'c) auth_host \<Rightarrow> ('a, 'v, 'c) AccountAuthorizationTracker \<Rightarrow> ('h, unit) hm" where
  "verify_and_consume_nonce H t =
     (if is_transaction_source_account t then retM ()
      else case acc_nonce t of
          Some (nonce, live_until_ledger) \<Rightarrow>
            bindM (getM (ledger_of H)) (\<lambda>li.
              bindM (with_ledger_info li (\<lambda>l. retM (sequence_number l))) (\<lambda>ledger_seq.
                if ledger_seq > live_until_ledger then throwM (Err Auth InvalidInput)
                else bindM (max_live_until_ledger li) (\<lambda>max_live.
                  if live_until_ledger > max_live then throwM (Err Auth InvalidInput)
                  else consume_nonce H (acc_address t) nonce live_until_ledger)))
        | None \<Rightarrow> throwM auth_internal)"

definition mapErrM :: "(Error \<Rightarrow> Error) \<Rightarrow> ('s, 'x) hm \<Rightarrow> ('s, 'x) hm" where
  "mapErrM g m = (\<lambda>s. case m s of (Inl e, s') \<Rightarrow> (Inl (g e), s') | (Inr x, s') \<Rightarrow> (Inr x, s'))"

definition account_maybe_authorize_invocation ::
  "('h, 'a, 'v, 'c) auth_host \<Rightarrow> ('a, 'v, 'c) AuthorizedFunction \<Rightarrow> bool \<Rightarrow>
     (('a, 'v, 'c) AccountAuthorizationTracker \<times> ('a, 'v, 'c) AuthorizationManager \<times> 'h, bool) hm" where
  "account_maybe_authorize_invocation H function allow_matching_root =
     bindM (zoomM (\<lambda>(t, a, h). (acc_tracker t, h)) (\<lambda>(tr, h') (t, a, h). (t\<lparr>acc_tracker := tr\<rparr>, a, h'))
         (maybe_extend_invocation_match (compare_authorized_function H) function allow_matching_root))
       (\<lambda>b. if \<not> b then retM False
         else bindM (getM fst) (\<lambda>t.
           if verified t then retM True
           else thenM (onHost (mapErrM (\<lambda>e. if is_recoverable e then Err Auth InvalidAction else e)
               (authenticate H t)))
             (thenM (onHost (onHost (verify_and_consume_nonce H t)))
               (thenM (onTracker (verified_update (\<lambda>_. True))) (retM True)))))"

definition invoker_maybe_authorize_invocation ::
  "('h, 'a, 'v, 'c) auth_host \<Rightarrow> ('a, 'v, 'c) AuthorizedFunction \<Rightarrow>
     (('a, 'v, 'c) InvokerContractAuthorizationTracker \<times> 'h, bool) hm" where
  "invoker_maybe_authorize_invocation H function =
     zoomM (\<lambda>(t, h). (inv_tracker t, h)) (\<lambda>(tr, h') (t, h). (t\<lparr>inv_tracker := tr\<rparr>, h'))
       (maybe_extend_invocation_match (compare_authorized_function H) function True)"

section \<open>The manager\<close>

type_synonym ('h, 'a, 'v, 'c, 'x) authM = "(('a, 'v, 'c) AuthorizationManager \<times> 'h, 'x) hm"

definition new_enforcing ::
  "('h, 'a, 'v, 'c) auth_host \<Rightarrow> 'v \<Rightarrow> (('a, 'v) SorobanCredentials \<times> ('a, 'v, 'c) auth_tree) list \<Rightarrow>
     ('h, ('a, 'v, 'c) AuthorizationManager) hm" where
  "new_enforcing H void auth_entries =
     thenM (init_cpy H 232 (length auth_entries))
       (bindM (collectM (map (\<lambda>(c, r). from_authorization_entry H c r void) auth_entries)) (\<lambda>trackers.
         retM \<lparr>auth_mode = AuthEnforcing, account_trackers = map Free trackers,
               invoker_contract_trackers = [], call_stack = []\<rparr>))"

definition new_enforcing_without_authorizations :: "('a, 'v, 'c) AuthorizationManager" where
  "new_enforcing_without_authorizations =
     \<lparr>auth_mode = AuthEnforcing, account_trackers = [], invoker_contract_trackers = [], call_stack = []\<rparr>"

definition new_recording :: "bool \<Rightarrow> ('a, 'v, 'c) AuthorizationManager" where
  "new_recording disable =
     \<lparr>auth_mode = AuthRecording Map.empty disable, account_trackers = [],
      invoker_contract_trackers = [], call_stack = []\<rparr>"

definition borrow_mut ::
  "nat \<Rightarrow> (('a, 'v, 'c) AccountAuthorizationTracker \<times> ('a, 'v, 'c) AuthorizationManager \<times> 'h, 'x) hm \<Rightarrow>
     ('a, 'v, 'c) AccountAuthorizationTracker \<Rightarrow> ('h, 'a, 'v, 'c, 'x) authM" where
  "borrow_mut i m t = (\<lambda>(am, h).
     case m (t, am\<lparr>account_trackers := (account_trackers am)[i := Borrowed]\<rparr>, h) of
       (r, t', am', h') \<Rightarrow> (r, am'\<lparr>account_trackers := (account_trackers am')[i := Free t']\<rparr>, h'))"

fun has_active_tracker ::
  "('h, 'a, 'v, 'c) auth_host \<Rightarrow> 'a \<Rightarrow> ('a, 'v, 'c) AccountAuthorizationTracker cell list \<Rightarrow>
     ('h, bool) hm" where
  "has_active_tracker H address [] = retM False"
| "has_active_tracker H address (Borrowed # ts) = has_active_tracker H address ts"
| "has_active_tracker H address (Free t # ts) =
     bindM (cmp_address H (acc_address t) address) (\<lambda>ord.
       if ord = Equal \<and> tracker_is_active (acc_tracker t) \<and>
          \<not> current_frame_is_already_matched (acc_tracker t)
       then retM True else has_active_tracker H address ts)"

fun enforce_loop ::
  "('h, 'a, 'v, 'c) auth_host \<Rightarrow> 'a \<Rightarrow> ('a, 'v, 'c) AuthorizedFunction \<Rightarrow> bool \<Rightarrow> nat list \<Rightarrow>
     ('h, 'a, 'v, 'c, unit) authM" where
  "enforce_loop H address function allow [] = throwM (Err Auth InvalidAction)"
| "enforce_loop H address function allow (i # is) =
     bindM (getM (\<lambda>st. account_trackers (fst st) ! i)) (\<lambda>c. case c of
         Borrowed \<Rightarrow> enforce_loop H address function allow is
       | Free t \<Rightarrow> bindM (onHost (cmp_address H (acc_address t) address)) (\<lambda>ord.
           if ord \<noteq> Equal then enforce_loop H address function allow is
           else bindM (borrow_mut i (account_maybe_authorize_invocation H function allow) t) (\<lambda>b.
             if b then retM () else enforce_loop H address function allow is)))"

definition require_auth_enforcing ::
  "('h, 'a, 'v, 'c) auth_host \<Rightarrow> 'a \<Rightarrow> ('a, 'v, 'c) AuthorizedFunction \<Rightarrow>
     ('h, 'a, 'v, 'c, unit) authM" where
  "require_auth_enforcing H address function =
     bindM (getM (\<lambda>st. account_trackers (fst st))) (\<lambda>ts.
       bindM (onHost (has_active_tracker H address ts)) (\<lambda>active.
         enforce_loop H address function (\<not> active) [0..<length ts]))"

text \<open>Recording mode: trackers are created and extended to cover what is asked for.\<close>

definition account_new_recording ::
  "('h, 'a, 'v, 'c) auth_host \<Rightarrow> 'v \<Rightarrow> 'a \<Rightarrow> ('a, 'v, 'c) AuthorizedFunction \<Rightarrow> nat \<Rightarrow>
     ('h, ('a, 'v, 'c) AccountAuthorizationTracker) hm" where
  "account_new_recording H void address function current_stack_len =
     (if current_stack_len = 0 then throwM auth_internal
      else bindM (bindM (source_account_address H) (\<lambda>sa. case sa of
            Some source_acc \<Rightarrow> bindM (cmp_address H source_acc address) (\<lambda>ord. retM (ord = Equal))
          | None \<Rightarrow> retM False)) (\<lambda>src.
        bindM (if \<not> src then bindM (nonce_prng H) (\<lambda>n.
              thenM (consume_nonce H address n 0) (retM (Some (n, 0))))
            else retM None) (\<lambda>nonce.
          retM \<lparr>acc_address = address, acc_tracker = tracker_new_recording function current_stack_len,
                acc_signature = void, is_transaction_source_account = src, verified = True,
                acc_nonce = nonce\<rparr>)))"

definition account_record_invocation ::
  "nat \<Rightarrow> ('a, 'v, 'c) AccountAuthorizationTracker \<Rightarrow> ('a, 'v, 'c) AuthorizedFunction \<Rightarrow>
     ('h, 'a, 'v, 'c, unit) authM" where
  "account_record_invocation i t function = (\<lambda>(am, h).
     case tracker_record_invocation function (acc_tracker t) of
       (r, tr) \<Rightarrow> (r, am\<lparr>account_trackers := (account_trackers am)[i := Free (t\<lparr>acc_tracker := tr\<rparr>)]\<rparr>, h))"

fun record_loop ::
  "('h, 'a, 'v, 'c) auth_host \<Rightarrow> 'a \<Rightarrow> ('a, 'v, 'c) AuthorizedFunction \<Rightarrow> nat list \<Rightarrow>
     ('h, 'a, 'v, 'c, bool) authM" where
  "record_loop H address function [] = retM False"
| "record_loop H address function (i # is) =
     bindM (getM (\<lambda>st. account_trackers (fst st) ! i)) (\<lambda>c. case c of
         Borrowed \<Rightarrow> throwM auth_internal
       | Free t \<Rightarrow> bindM (onHost (cmp_address H (acc_address t) address)) (\<lambda>ord.
           if ord \<noteq> Equal then record_loop H address function is
           else if has_matched_invocations_in_stack (acc_tracker t) \<and>
               \<not> current_frame_is_already_matched (acc_tracker t)
             then thenM (account_record_invocation i t function) (retM True)
             else record_loop H address function is))"

definition set_handles :: "(u32 \<rightharpoonup> nat) \<Rightarrow> ('h, 'a, 'v, 'c, unit) authM" where
  "set_handles m = onTracker (\<lambda>am. am\<lparr>auth_mode := (case auth_mode am of
     AuthRecording _ d \<Rightarrow> AuthRecording m d | AuthEnforcing \<Rightarrow> AuthEnforcing)\<rparr>)"

definition require_auth_recording ::
  "('h, 'a, 'v, 'c) auth_host \<Rightarrow> 'v \<Rightarrow> 'a \<Rightarrow> ('a, 'v, 'c) AuthorizedFunction \<Rightarrow>
     (u32 \<rightharpoonup> nat) \<Rightarrow> bool \<Rightarrow> ('h, 'a, 'v, 'c, unit) authM" where
  "require_auth_recording H void address function handles disable =
     (let handle = address_handle H address in
      bindM (case handles handle of
          Some tracker_id \<Rightarrow>
            bindM (getM (\<lambda>st. account_trackers (fst st))) (\<lambda>ts.
              if tracker_id \<ge> length ts then throwM auth_internal
              else case ts ! tracker_id of
                  Borrowed \<Rightarrow> throwM auth_internal
                | Free t \<Rightarrow>
                    if \<not> has_matched_invocations_in_stack (acc_tracker t)
                    then thenM (set_handles (handles(handle := None))) (retM False)
                    else thenM (account_record_invocation tracker_id t function) (retM True))
        | None \<Rightarrow> retM False) (\<lambda>done1.
        if done1 then retM ()
        else bindM (bindM (getM (\<lambda>st. account_trackers (fst st))) (\<lambda>ts.
            record_loop H address function [0..<length ts])) (\<lambda>done2.
          if done2 then retM ()
          else bindM (getM (\<lambda>st. length (call_stack (fst st)))) (\<lambda>depth.
            if disable \<and> depth \<noteq> 1 then throwM (Err Auth InvalidAction)
            else bindM (onHost (account_new_recording H void address function depth)) (\<lambda>t.
              thenM (onTracker (\<lambda>am. am\<lparr>account_trackers := account_trackers am @ [Free t]\<rparr>))
                (bindM (getM fst) (\<lambda>am.
                  case auth_mode am of
                    AuthRecording m _ \<Rightarrow> set_handles (m(handle \<mapsto> length (account_trackers am) - 1))
                  | AuthEnforcing \<Rightarrow> retM ())))))))"

text \<open>Contracts authorize their own sub-calls: the direct invoker, or an entry it supplied.\<close>

fun invoker_loop ::
  "('h, 'a, 'v, 'c) auth_host \<Rightarrow> 'a \<Rightarrow> ('a, 'v, 'c) AuthorizedFunction \<Rightarrow>
     ('a, 'v, 'c) InvokerContractAuthorizationTracker list \<Rightarrow> 'h \<Rightarrow>
     (Error + bool) \<times> ('a, 'v, 'c) InvokerContractAuthorizationTracker list \<times> 'h" where
  "invoker_loop H address function [] h = (Inr False, [], h)"
| "invoker_loop H address function (t # ts) h =
     (case cmp_address H (inv_contract_address t) address h of
        (Inl e, h) \<Rightarrow> (Inl e, t # ts, h)
      | (Inr ord, h) \<Rightarrow>
          (case (if ord = Equal then invoker_maybe_authorize_invocation H function (t, h)
                 else (Inr False, (t, h))) of
             (Inl e, (t, h)) \<Rightarrow> (Inl e, t # ts, h)
           | (Inr True, (t, h)) \<Rightarrow> (Inr True, t # ts, h)
           | (Inr False, (t, h)) \<Rightarrow>
               (case invoker_loop H address function ts h of (r, ts, h) \<Rightarrow> (r, t # ts, h))))"

definition maybe_check_invoker_contract_auth ::
  "('h, 'a, 'v, 'c) auth_host \<Rightarrow> 'a \<Rightarrow> ('a, 'v, 'c) AuthorizedFunction \<Rightarrow>
     ('h, 'a, 'v, 'c, bool) authM" where
  "maybe_check_invoker_contract_auth H address function =
     bindM (getM (\<lambda>st. call_stack (fst st))) (\<lambda>cs.
       if length cs < 2 then retM False
       else bindM (case cs ! (length cs - 2) of
           FrameContract invoker _ \<Rightarrow>
             bindM (onHost (cmp_address H invoker address)) (\<lambda>ord. retM (ord = Equal))
         | FrameCreateContract _ \<Rightarrow> retM False) (\<lambda>direct.
         if direct then retM True
         else (\<lambda>(am, h). case invoker_loop H address function (invoker_contract_trackers am) h of
           (r, ts, h') \<Rightarrow> (r, am\<lparr>invoker_contract_trackers := ts\<rparr>, h'))))"

definition require_auth_internal ::
  "('h, 'a, 'v, 'c) auth_host \<Rightarrow> 'v \<Rightarrow> 'a \<Rightarrow> ('a, 'v, 'c) AuthorizedFunction \<Rightarrow>
     ('h, 'a, 'v, 'c, unit) authM" where
  "require_auth_internal H void address function =
     bindM (maybe_check_invoker_contract_auth H address function) (\<lambda>b.
       if b then retM ()
       else bindM (getM (\<lambda>st. auth_mode (fst st))) (\<lambda>md. case md of
           AuthEnforcing \<Rightarrow> require_auth_enforcing H address function
         | AuthRecording handles disable \<Rightarrow>
             require_auth_recording H void address function handles disable))"

definition require_auth ::
  "('h, 'a, 'v, 'c) auth_host \<Rightarrow> 'v \<Rightarrow> 'a \<Rightarrow> 'v list \<Rightarrow> ('h, 'a, 'v, 'c, unit) authM" where
  "require_auth H void address args =
     bindM (getM (\<lambda>st. call_stack (fst st))) (\<lambda>cs.
       if cs = [] then throwM auth_internal
       else bindM (onHost (to_authorized_function H (last cs) args)) (\<lambda>function.
         require_auth_internal H void address function))"

text \<open>
  \<open>add_invoker_contract_auth_with_curr_contract_as_invoker\<close>; reading an entry of the host vector
  (\<open>invoker_contract_auth_to_authorized_invocation\<close>) is the argument \<open>read_entry\<close>.
\<close>

fun add_invoker_entries ::
  "('e \<Rightarrow> ('h, 'a \<times> ('a, 'v, 'c) auth_tree) hm) \<Rightarrow> 'e list \<Rightarrow> ('h, 'a, 'v, 'c, unit) authM" where
  "add_invoker_entries read_entry [] = retM ()"
| "add_invoker_entries read_entry (e # es) =
     bindM (onHost (read_entry e)) (\<lambda>(address, root).
       thenM (onTracker (\<lambda>am. am\<lparr>invoker_contract_trackers := invoker_contract_trackers am @
           [\<lparr>inv_contract_address = address, inv_tracker = tracker_new root\<rparr>]\<rparr>))
         (add_invoker_entries read_entry es))"

definition add_invoker_contract_auth ::
  "('h, 'a, 'v, 'c) auth_host \<Rightarrow> ('e \<Rightarrow> ('h, 'a \<times> ('a, 'v, 'c) auth_tree) hm) \<Rightarrow> 'e list \<Rightarrow>
     ('h, 'a, 'v, 'c, unit) authM" where
  "add_invoker_contract_auth H read_entry entries =
     thenM (onHost (init_cpy H 8 (length entries))) (add_invoker_entries read_entry entries)"

section \<open>Snapshots and frames of the manager\<close>

fun snapshot_cell ::
  "('h, 'a, 'v, 'c) auth_host \<Rightarrow> ('a, 'v, 'c) AccountAuthorizationTracker cell \<Rightarrow>
     ('h, (AuthorizedInvocationSnapshot \<times> bool) option) hm" where
  "snapshot_cell H Borrowed = retM None"
| "snapshot_cell H (Free t) =
     bindM (tracker_snapshot (init_cpy H) (acc_tracker t)) (\<lambda>s. retM (Some (s, verified t)))"

definition manager_snapshot ::
  "('h, 'a, 'v, 'c) auth_host \<Rightarrow> ('h, 'a, 'v, 'c, ('a, 'v, 'c) AuthorizationManagerSnapshot) authM" where
  "manager_snapshot H =
     bindM (getM fst) (\<lambda>am.
       bindM (case auth_mode am of
           AuthEnforcing \<Rightarrow>
             thenM (onHost (init_cpy H 48 (length (account_trackers am))))
               (bindM (onHost (collectM (map (snapshot_cell H) (account_trackers am))))
                 (\<lambda>s. retM (SnapEnforcing s)))
         | AuthRecording _ _ \<Rightarrow> retM (SnapRecording (account_trackers am))) (\<lambda>acc.
         thenM (onHost (init_cpy H 32 (length (invoker_contract_trackers am))))
           (bindM (onHost (collectM (map (\<lambda>t. tracker_snapshot (init_cpy H) (inv_tracker t))
               (invoker_contract_trackers am)))) (\<lambda>inv.
             retM \<lparr>account_trackers_snapshot = acc, invoker_contract_tracker_root_snapshots = inv,
                   handles_snapshot = (case auth_mode am of
                     AuthEnforcing \<Rightarrow> None | AuthRecording m _ \<Rightarrow> Some m)\<rparr>))))"

fun rollback_cells ::
  "(AuthorizedInvocationSnapshot \<times> bool) option list \<Rightarrow>
     (('a, 'v, 'c) AccountAuthorizationTracker cell list, unit) hm" where
  "rollback_cells (None # ss) (c # cs) = (case rollback_cells ss cs of (r, cs) \<Rightarrow> (r, c # cs))"
| "rollback_cells (Some _ # ss) (Borrowed # cs) = (Inl auth_internal, Borrowed # cs)"
| "rollback_cells (Some (s, v) # ss) (Free t # cs) =
     (case tracker_rollback s (acc_tracker t) of
        (Inl e, tr) \<Rightarrow> (Inl e, Free (t\<lparr>acc_tracker := tr\<rparr>) # cs)
      | (Inr _, tr) \<Rightarrow>
          (case rollback_cells ss cs of (r, cs) \<Rightarrow> (r, Free (t\<lparr>acc_tracker := tr, verified := v\<rparr>) # cs)))"
| "rollback_cells ss cs = (Inr (), cs)"

fun rollback_invokers ::
  "AuthorizedInvocationSnapshot list \<Rightarrow>
     (('a, 'v, 'c) InvokerContractAuthorizationTracker list, unit) hm" where
  "rollback_invokers (s # ss) (t # ts) =
     (case tracker_rollback s (inv_tracker t) of
        (Inl e, tr) \<Rightarrow> (Inl e, t\<lparr>inv_tracker := tr\<rparr> # ts)
      | (Inr _, tr) \<Rightarrow> (case rollback_invokers ss ts of (r, ts) \<Rightarrow> (r, t\<lparr>inv_tracker := tr\<rparr> # ts)))"
| "rollback_invokers ss ts = (Inr (), ts)"

definition manager_rollback ::
  "('a, 'v, 'c) AuthorizationManagerSnapshot \<Rightarrow> (('a, 'v, 'c) AuthorizationManager, unit) hm" where
  "manager_rollback sn =
     thenM (case account_trackers_snapshot sn of
         SnapEnforcing ss \<Rightarrow>
           bindM (getM account_trackers) (\<lambda>ts.
             if length ts \<noteq> length ss then throwM auth_internal
             else zoomM account_trackers (\<lambda>ts am. am\<lparr>account_trackers := ts\<rparr>) (rollback_cells ss))
       | SnapRecording s \<Rightarrow> modifyM (\<lambda>am. am\<lparr>account_trackers := s\<rparr>))
     (bindM (getM invoker_contract_trackers) (\<lambda>ts.
        if length ts \<noteq> length (invoker_contract_tracker_root_snapshots sn) then throwM auth_internal
        else thenM (zoomM invoker_contract_trackers (\<lambda>ts am. am\<lparr>invoker_contract_trackers := ts\<rparr>)
            (rollback_invokers (invoker_contract_tracker_root_snapshots sn)))
          (case handles_snapshot sn of
             Some m \<Rightarrow> modifyM (\<lambda>am. am\<lparr>auth_mode := (case auth_mode am of
               AuthEnforcing \<Rightarrow> AuthEnforcing | AuthRecording _ d \<Rightarrow> AuthRecording m d)\<rparr>)
           | None \<Rightarrow> retM ())))"

fun push_cells ::
  "'h charge_init \<Rightarrow> ('a, 'v, 'c) AccountAuthorizationTracker cell list \<Rightarrow> 'h \<Rightarrow>
     (Error + unit) \<times> ('a, 'v, 'c) AccountAuthorizationTracker cell list \<times> 'h" where
  "push_cells chg [] h = (Inr (), [], h)"
| "push_cells chg (Borrowed # cs) h =
     (case push_cells chg cs h of (r, cs, h) \<Rightarrow> (r, Borrowed # cs, h))"
| "push_cells chg (Free t # cs) h =
     (case tracker_push_frame chg (acc_tracker t, h) of
        (Inl e, (tr, h)) \<Rightarrow> (Inl e, Free (t\<lparr>acc_tracker := tr\<rparr>) # cs, h)
      | (Inr _, (tr, h)) \<Rightarrow>
          (case push_cells chg cs h of (r, cs, h) \<Rightarrow> (r, Free (t\<lparr>acc_tracker := tr\<rparr>) # cs, h)))"

fun push_invokers ::
  "'h charge_init \<Rightarrow> ('a, 'v, 'c) InvokerContractAuthorizationTracker list \<Rightarrow> 'h \<Rightarrow>
     (Error + unit) \<times> ('a, 'v, 'c) InvokerContractAuthorizationTracker list \<times> 'h" where
  "push_invokers chg [] h = (Inr (), [], h)"
| "push_invokers chg (t # ts) h =
     (case tracker_push_frame chg (inv_tracker t, h) of
        (Inl e, (tr, h)) \<Rightarrow> (Inl e, t\<lparr>inv_tracker := tr\<rparr> # ts, h)
      | (Inr _, (tr, h)) \<Rightarrow>
          (case push_invokers chg ts h of (r, ts, h) \<Rightarrow> (r, t\<lparr>inv_tracker := tr\<rparr> # ts, h)))"

definition push_tracker_frame :: "('h, 'a, 'v, 'c) auth_host \<Rightarrow> ('h, 'a, 'v, 'c, unit) authM" where
  "push_tracker_frame H =
     thenM (\<lambda>(am, h). case push_cells (init_cpy H) (account_trackers am) h of
         (r, cs, h) \<Rightarrow> (r, am\<lparr>account_trackers := cs\<rparr>, h))
       (\<lambda>(am, h). case push_invokers (init_cpy H) (invoker_contract_trackers am) h of
         (r, ts, h) \<Rightarrow> (r, am\<lparr>invoker_contract_trackers := ts\<rparr>, h))"

definition push_call_stack ::
  "('a, 'v, 'c) AuthStackFrame \<Rightarrow> ('h, 'a, 'v, 'c, unit) authM" where
  "push_call_stack f = onTracker (\<lambda>am. am\<lparr>call_stack := call_stack am @ [f]\<rparr>)"

definition push_create_contract_host_fn_frame ::
  "('h, 'a, 'v, 'c) auth_host \<Rightarrow> 'c \<Rightarrow> ('h, 'a, 'v, 'c, unit) authM" where
  "push_create_contract_host_fn_frame H args =
     thenM (onHost (init_cpy H 98 1))
       (thenM (push_call_stack (FrameCreateContract args)) (push_tracker_frame H))"

text \<open>The frame is \<open>None\<close> for a host function, else the contract's id and the function's name.\<close>

definition push_frame ::
  "('h, 'a, 'v, 'c) auth_host \<Rightarrow> (u256 \<times> 'v) option \<Rightarrow>
     ('h, 'a, 'v, 'c, ('a, 'v, 'c) AuthorizationManagerSnapshot) authM" where
  "push_frame H frame =
     (case frame of
        None \<Rightarrow> manager_snapshot H
      | Some (contract_id, function_name) \<Rightarrow>
          bindM (onHost (contract_address_object H contract_id)) (\<lambda>contract_address.
            thenM (onHost (init_cpy H 16 1))
              (thenM (push_call_stack (FrameContract contract_address function_name))
                (thenM (push_tracker_frame H) (manager_snapshot H)))))"

fun pop_cell ::
  "('a, 'v, 'c) AccountAuthorizationTracker cell \<Rightarrow> ('a, 'v, 'c) AccountAuthorizationTracker cell" where
  "pop_cell Borrowed = Borrowed"
| "pop_cell (Free t) = Free (t\<lparr>acc_tracker := tracker_pop_frame (acc_tracker t)\<rparr>)"

definition is_out_of_scope :: "('a, 'v, 'c) InvokerContractAuthorizationTracker \<Rightarrow> bool" where
  "is_out_of_scope t = tracker_is_empty (inv_tracker t)"

definition drop_out_of_scope ::
  "('a, 'v, 'c) InvokerContractAuthorizationTracker list \<Rightarrow>
     ('a, 'v, 'c) InvokerContractAuthorizationTracker list" where
  "drop_out_of_scope ts = rev (dropWhile is_out_of_scope (rev ts))"

definition pop_frame ::
  "('a, 'v, 'c) AuthorizationManagerSnapshot option \<Rightarrow> (('a, 'v, 'c) AuthorizationManager, unit) hm" where
  "pop_frame sn =
     thenM (case sn of Some sn \<Rightarrow> manager_rollback sn | None \<Rightarrow> retM ())
       (modifyM (\<lambda>am.
          if call_stack am = [] then am
          else am\<lparr>call_stack := butlast (call_stack am),
                  account_trackers := map pop_cell (account_trackers am),
                  invoker_contract_trackers := drop_out_of_scope
                    (map (\<lambda>t. t\<lparr>inv_tracker := tracker_pop_frame (inv_tracker t)\<rparr>)
                      (invoker_contract_trackers am))\<rparr>))"

end
