(* ===== verification/Auth_Frames.thy ===== *)
theory Auth_Frames
  imports Auth_Manager
begin

text \<open>
  What the authorization manager guarantees (\<^verbatim>\<open>soroban-env-host/src/auth.rs\<close>).

  \<open>manager_rel am am'\<close> is what the code of one frame may do to the manager: use authorizations up,
  add entries for its own next sub-call, and nothing else. \<open>respects_frames m\<close> says that \<open>m\<close>
  stays within that relation and keeps the invariant \<open>manager_ok\<close>, whether it succeeds or fails
  with a recoverable error; after an unrecoverable error the whole transaction fails and nothing
  is promised. The locale \<open>auth_callbacks\<close> is the contract of the host's side of authentication,
  which may run contract code: it respects frames. Under it \<open>require_auth\<close> respects frames too,
  and when it succeeds in enforcing mode the address either is the direct invoker or one unused
  authorization has been used up for it.

  Entering a frame and leaving it respects the caller's frame; leaving it with a rollback restores
  the manager exactly, unless entries are pending, in which case the rollback fails with an
  internal error.
\<close>

section \<open>What a frame may do to the manager\<close>

definition acc_rel ::
  "('a, 'v, 'c) AccountAuthorizationTracker \<Rightarrow> ('a, 'v, 'c) AccountAuthorizationTracker \<Rightarrow> bool" where
  "acc_rel t t' \<longleftrightarrow> acc_address t' = acc_address t \<and> acc_signature t' = acc_signature t \<and>
     is_transaction_source_account t' = is_transaction_source_account t \<and> acc_nonce t' = acc_nonce t \<and>
     frame_rel (acc_tracker t) (acc_tracker t')"

fun cell_rel ::
  "('a, 'v, 'c) AccountAuthorizationTracker cell \<Rightarrow> ('a, 'v, 'c) AccountAuthorizationTracker cell \<Rightarrow> bool" where
  "cell_rel Borrowed Borrowed = True"
| "cell_rel (Free t) (Free t') = acc_rel t t'"
| "cell_rel _ _ = False"

definition inv_rel ::
  "('a, 'v, 'c) InvokerContractAuthorizationTracker \<Rightarrow> ('a, 'v, 'c) InvokerContractAuthorizationTracker \<Rightarrow> bool" where
  "inv_rel t t' \<longleftrightarrow> inv_contract_address t' = inv_contract_address t \<and> frame_rel (inv_tracker t) (inv_tracker t')"

definition in_scope ::
  "('a, 'v, 'c) InvokerContractAuthorizationTracker list \<Rightarrow>
     ('a, 'v, 'c) InvokerContractAuthorizationTracker list" where
  "in_scope = filter (\<lambda>t. \<not> is_out_of_scope t)"

text \<open>
  Entries a contract supplied for its next sub-call are out of scope (their match stack is
  empty) until that call is entered: nothing is promised about them, except that they are the
  newest ones.
\<close>

definition scoped :: "('a, 'v, 'c) InvokerContractAuthorizationTracker list \<Rightarrow> bool" where
  "scoped ts \<longleftrightarrow> ts = in_scope ts @ filter is_out_of_scope ts"

definition manager_rel ::
  "('a, 'v, 'c) AuthorizationManager \<Rightarrow> ('a, 'v, 'c) AuthorizationManager \<Rightarrow> bool" where
  "manager_rel am am' \<longleftrightarrow> auth_mode am' = auth_mode am \<and> call_stack am' = call_stack am \<and>
     list_all2 cell_rel (account_trackers am) (account_trackers am') \<and>
     list_all2 inv_rel (in_scope (invoker_contract_trackers am)) (in_scope (invoker_contract_trackers am')) \<and>
     (scoped (invoker_contract_trackers am) \<longrightarrow> scoped (invoker_contract_trackers am'))"

lemma acc_rel_refl [simp]: "acc_rel t t"
  by (simp add: acc_rel_def)

lemma acc_rel_trans: "acc_rel t u \<Longrightarrow> acc_rel u v \<Longrightarrow> acc_rel t v"
  by (auto simp: acc_rel_def intro: frame_rel_trans)

lemma cell_rel_refl [simp]: "cell_rel c c"
  by (cases c) simp_all

lemma cell_rel_trans: "cell_rel c d \<Longrightarrow> cell_rel d e \<Longrightarrow> cell_rel c e"
  by (cases c; cases d; cases e) (auto intro: acc_rel_trans)

lemma inv_rel_refl [simp]: "inv_rel t t"
  by (simp add: inv_rel_def)

lemma inv_rel_trans: "inv_rel t u \<Longrightarrow> inv_rel u v \<Longrightarrow> inv_rel t v"
  by (auto simp: inv_rel_def intro: frame_rel_trans)

lemma manager_rel_refl [simp]: "manager_rel am am"
  by (simp add: manager_rel_def list_all2_refl)

lemma cells_trans: "list_all2 cell_rel xs ys \<Longrightarrow> list_all2 cell_rel ys zs \<Longrightarrow> list_all2 cell_rel xs zs"
  by (rule list_all2_trans [of cell_rel cell_rel cell_rel, OF cell_rel_trans])

lemma invs_trans: "list_all2 inv_rel xs ys \<Longrightarrow> list_all2 inv_rel ys zs \<Longrightarrow> list_all2 inv_rel xs zs"
  by (rule list_all2_trans [of inv_rel inv_rel inv_rel, OF inv_rel_trans])

lemma manager_rel_trans: "manager_rel a b \<Longrightarrow> manager_rel b c \<Longrightarrow> manager_rel a c"
  unfolding manager_rel_def by (auto intro: cells_trans invs_trans)

lemma inv_rel_scope: "inv_rel t t' \<Longrightarrow> is_out_of_scope t' = is_out_of_scope t"
  by (auto simp: inv_rel_def frame_rel_def is_out_of_scope_def tracker_is_empty_def)

lemma in_scope_rel: "list_all2 inv_rel ts ts' \<Longrightarrow> list_all2 inv_rel (in_scope ts) (in_scope ts')"
  by (induction rule: list_all2_induct) (simp_all add: in_scope_def inv_rel_scope)

lemma scoped_iff: "scoped ts \<longleftrightarrow> (\<exists>A B. ts = A @ B \<and> (\<forall>t\<in>set A. \<not> is_out_of_scope t) \<and> (\<forall>t\<in>set B. is_out_of_scope t))"
proof
  assume "scoped ts"
  note split = this [unfolded scoped_def in_scope_def]
  show "\<exists>A B. ts = A @ B \<and> (\<forall>t\<in>set A. \<not> is_out_of_scope t) \<and> (\<forall>t\<in>set B. is_out_of_scope t)"
    by (rule exI, rule exI, rule conjI, rule split) simp
next
  assume "\<exists>A B. ts = A @ B \<and> (\<forall>t\<in>set A. \<not> is_out_of_scope t) \<and> (\<forall>t\<in>set B. is_out_of_scope t)"
  then show "scoped ts" unfolding scoped_def in_scope_def
    by (auto simp: filter_id_conv filter_empty_conv)
qed

lemma scoped_rel:
  assumes "list_all2 inv_rel ts ts'" "scoped ts"
  shows "scoped ts'"
proof -
  obtain A B where ab: "ts = A @ B" "\<forall>t\<in>set A. \<not> is_out_of_scope t" "\<forall>t\<in>set B. is_out_of_scope t"
    using assms(2) scoped_iff by blast
  obtain A' B' where "ts' = A' @ B'" "list_all2 inv_rel A A'" "list_all2 inv_rel B B'"
    using assms(1) ab(1) by (auto simp: list_all2_append1)
  moreover have "\<forall>t\<in>set A'. \<not> is_out_of_scope t" "\<forall>t\<in>set B'. is_out_of_scope t"
    using calculation ab inv_rel_scope by (metis in_set_conv_nth list_all2_conv_all_nth)+
  ultimately show ?thesis using scoped_iff by blast
qed

lemma drop_scoped:
  assumes "scoped ts" shows "drop_out_of_scope ts = in_scope ts"
proof -
  obtain A B where ab: "ts = A @ B" "\<forall>t\<in>set A. \<not> is_out_of_scope t" "\<forall>t\<in>set B. is_out_of_scope t"
    using assms scoped_iff by blast
  have "dropWhile is_out_of_scope (rev A) = rev A" using ab(2) by (cases "rev A") auto
  moreover have "dropWhile is_out_of_scope (rev B @ rev A) = dropWhile is_out_of_scope (rev A)"
    using ab(3) by (intro dropWhile_append2) simp
  ultimately show ?thesis using ab
    by (simp add: drop_out_of_scope_def in_scope_def filter_id_conv filter_empty_conv)
qed

text \<open>The authorizations that are still unused, by address.\<close>

fun cell_unused ::
  "('a, 'v, 'c) AccountAuthorizationTracker cell \<Rightarrow> ('a \<times> ('a, 'v, 'c) AuthorizedFunction) multiset" where
  "cell_unused Borrowed = {#}"
| "cell_unused (Free t) =
     image_mset (Pair (acc_address t)) (unused (root_authorized_invocation (acc_tracker t)))"

definition inv_unused ::
  "('a, 'v, 'c) InvokerContractAuthorizationTracker \<Rightarrow> ('a \<times> ('a, 'v, 'c) AuthorizedFunction) multiset" where
  "inv_unused t = image_mset (Pair (inv_contract_address t))
     (unused (root_authorized_invocation (inv_tracker t)))"

definition manager_unused ::
  "('a, 'v, 'c) AuthorizationManager \<Rightarrow> ('a \<times> ('a, 'v, 'c) AuthorizedFunction) multiset" where
  "manager_unused am = (\<Sum>c\<leftarrow>account_trackers am. cell_unused c) +
     (\<Sum>t\<leftarrow>in_scope (invoker_contract_trackers am). inv_unused t)"

lemma cell_rel_unused: "cell_rel c c' \<Longrightarrow> cell_unused c' \<subseteq># cell_unused c"
  by (cases c; cases c') (auto simp: acc_rel_def frame_rel_def intro: image_mset_subseteq_mono)

lemma inv_rel_unused: "inv_rel t t' \<Longrightarrow> inv_unused t' \<subseteq># inv_unused t"
  by (auto simp: inv_rel_def inv_unused_def frame_rel_def intro: image_mset_subseteq_mono)

lemma sum_list_subset:
  "list_all2 R xs ys \<Longrightarrow> (\<And>x y. R x y \<Longrightarrow> g y \<subseteq># g x) \<Longrightarrow> (\<Sum>y\<leftarrow>ys. g y) \<subseteq># (\<Sum>x\<leftarrow>xs. g x)"
  by (induction rule: list_all2_induct) (auto intro: subset_mset.add_mono)

lemma manager_rel_unused: "manager_rel am am' \<Longrightarrow> manager_unused am' \<subseteq># manager_unused am"
  unfolding manager_rel_def manager_unused_def
  by (intro subset_mset.add_mono) (auto intro: sum_list_subset cell_rel_unused inv_rel_unused)

text \<open>The invariant of the manager.\<close>

fun cell_ok :: "('a, 'v, 'c) AccountAuthorizationTracker cell \<Rightarrow> bool" where
  "cell_ok Borrowed = True"
| "cell_ok (Free t) = tracker_ok (acc_tracker t)"

definition manager_ok :: "('a, 'v, 'c) AuthorizationManager \<Rightarrow> bool" where
  "manager_ok am \<longleftrightarrow> (\<forall>c\<in>set (account_trackers am). cell_ok c) \<and>
     (\<forall>t\<in>set (invoker_contract_trackers am). tracker_ok (inv_tracker t)) \<and>
     scoped (invoker_contract_trackers am)"

section \<open>Matching in the manager\<close>

text \<open>One authorization that compares equal to what was asked for has been used up.\<close>

definition consumed ::
  "('h, 'a, 'v, 'c) auth_host \<Rightarrow> 'a \<Rightarrow> ('a, 'v, 'c) AuthorizedFunction \<Rightarrow>
     ('a, 'v, 'c) AuthorizationManager \<Rightarrow> ('a, 'v, 'c) AuthorizationManager \<Rightarrow> bool" where
  "consumed H address function am am' \<longleftrightarrow>
     (\<exists>a f. add_mset (a, f) (manager_unused am') \<subseteq># manager_unused am \<and>
        compares_equal (cmp_address H) a address \<and>
        compares_equal (compare_authorized_function H) f function)"

definition inv_consumed ::
  "('h, 'a, 'v, 'c) auth_host \<Rightarrow> 'a \<Rightarrow> ('a, 'v, 'c) AuthorizedFunction \<Rightarrow>
     ('a, 'v, 'c) InvokerContractAuthorizationTracker list \<Rightarrow>
     ('a, 'v, 'c) InvokerContractAuthorizationTracker list \<Rightarrow> bool" where
  "inv_consumed H address function ts ts' \<longleftrightarrow>
     (\<exists>a f. (\<Sum>t\<leftarrow>in_scope ts. inv_unused t) = add_mset (a, f) (\<Sum>t\<leftarrow>in_scope ts'. inv_unused t) \<and>
        compares_equal (cmp_address H) a address \<and>
        compares_equal (compare_authorized_function H) f function)"

text \<open>The address is the contract that directly invoked the current one.\<close>

definition is_direct_invoker ::
  "('h, 'a, 'v, 'c) auth_host \<Rightarrow> ('a, 'v, 'c) AuthorizationManager \<Rightarrow> 'a \<Rightarrow> bool" where
  "is_direct_invoker H am address \<longleftrightarrow> (\<exists>invoker name. 2 \<le> length (call_stack am) \<and>
     call_stack am ! (length (call_stack am) - 2) = FrameContract invoker name \<and>
     compares_equal (cmp_address H) invoker address)"

text \<open>A result after which the transaction may go on: success, or an error a caller can catch.\<close>

definition settled :: "Error + 'x \<Rightarrow> bool" where
  "settled r = (case r of Inl e \<Rightarrow> is_recoverable e | Inr _ \<Rightarrow> True)"

lemma settled_simps [simp]: "settled (Inr x)" "settled (Inl e) = is_recoverable e"
  by (simp_all add: settled_def)

lemma settled_not_internal: "settled r \<Longrightarrow> r \<noteq> Inl auth_internal"
  by auto

definition respects_frames :: "('h, 'a, 'v, 'c, 'x) authM \<Rightarrow> bool" where
  "respects_frames m \<longleftrightarrow> (\<forall>am h r am' h'. m (am, h) = (r, (am', h')) \<longrightarrow> auth_mode am = AuthEnforcing \<longrightarrow>
     manager_ok am \<longrightarrow> settled r \<longrightarrow> manager_rel am am' \<and> manager_ok am')"

lemma respects_D:
  "respects_frames m \<Longrightarrow> m (am, h) = (r, (am', h')) \<Longrightarrow> auth_mode am = AuthEnforcing \<Longrightarrow> manager_ok am \<Longrightarrow>
   settled r \<Longrightarrow> manager_rel am am' \<and> manager_ok am'"
  unfolding respects_frames_def by blast

lemma respectsI:
  "(\<And>am h r am' h'. m (am, h) = (r, (am', h')) \<Longrightarrow> auth_mode am = AuthEnforcing \<Longrightarrow> manager_ok am \<Longrightarrow>
     settled r \<Longrightarrow> manager_rel am am' \<and> manager_ok am') \<Longrightarrow> respects_frames m"
  unfolding respects_frames_def by blast

lemma manager_rel_mode: "manager_rel am am' \<Longrightarrow> auth_mode am' = auth_mode am"
  by (simp add: manager_rel_def)

lemma respects_simps [intro!, simp]:
  "respects_frames (retM x)" "respects_frames (throwM e)" "respects_frames (getM g)"
  "respects_frames (onHost hm)"
  by (auto simp: respects_frames_def m_defs onHost_def split: prod.splits)

lemma respects_bind [intro]:
  assumes "respects_frames m" "\<And>x. respects_frames (f x)"
  shows "respects_frames (bindM m f)"
proof (rule respectsI)
  fix am h r am' h'
  assume run: "bindM m f (am, h) = (r, (am', h'))" and pre: "auth_mode am = AuthEnforcing" "manager_ok am" "settled r"
  obtain r1 am1 h1 where m: "m (am, h) = (r1, (am1, h1))" by (cases "m (am, h)") auto
  show "manager_rel am am' \<and> manager_ok am'"
  proof (cases r1)
    case (Inl e)
    with run m have "(r, am') = (Inl e, am1)" by (simp add: bindM_def)
    then show ?thesis using respects_D [OF assms(1) m pre(1,2)] pre(3) Inl by simp
  next
    case (Inr x)
    have 1: "manager_rel am am1 \<and> manager_ok am1" using respects_D [OF assms(1) m pre(1,2)] Inr by simp
    have f: "f x (am1, h1) = (r, (am', h'))" using run m Inr by (simp add: bindM_def)
    have "auth_mode am1 = AuthEnforcing" using 1 pre(1) manager_rel_mode by metis
    with 1 show ?thesis using respects_D [OF assms(2) f] pre(3) manager_rel_trans by blast
  qed
qed

text \<open>
  The contract of the host's side of authentication, which may run the \<open>__check_auth\<close> function of
  a contract.
\<close>

locale auth_callbacks =
  fixes H :: "('h, 'a, 'v, 'c) auth_host"
  assumes check_auth_respects: "respects_frames (check_auth H a n sig root)"
begin

lemma authenticate_respects: "respects_frames (authenticate H t)"
  by (auto simp: authenticate_def check_auth_respects split: option.split)

lemma mapErr_respects:
  assumes "respects_frames m" "\<And>e. is_recoverable (g e) \<Longrightarrow> is_recoverable e"
  shows "respects_frames (mapErrM g m)"
proof (rule respectsI)
  fix am h r am' h'
  assume run: "mapErrM g m (am, h) = (r, (am', h'))" and pre: "auth_mode am = AuthEnforcing" "manager_ok am" "settled r"
  obtain r1 where m: "m (am, h) = (r1, (am', h'))" "settled r1"
    using run pre(3) assms(2) by (auto simp: mapErrM_def split: prod.splits sum.splits)
  show "manager_rel am am' \<and> manager_ok am'" by (rule respects_D [OF assms(1) m(1) pre(1,2) m(2)])
qed

lemma checked_authenticate_respects:
  "respects_frames (mapErrM (\<lambda>e. if is_recoverable e then Err Auth InvalidAction else e) (authenticate H t))"
  by (rule mapErr_respects [OF authenticate_respects]) (simp split: if_splits)

lemma account_authorize_cases:
  assumes run: "account_maybe_authorize_invocation H function allow (t, am, h) = (r, (t', am', h'))"
    and enf: "auth_mode am = AuthEnforcing" and ok: "manager_ok am" "tracker_ok (acc_tracker t)" and st: "settled r"
  shows "acc_rel t t' \<and> tracker_ok (acc_tracker t') \<and> manager_rel am am' \<and> manager_ok am' \<and>
    (r = Inr False \<longrightarrow> t' = t \<and> am' = am) \<and>
    (r = Inr True \<longrightarrow> (\<exists>f. unused (root_authorized_invocation (acc_tracker t)) =
       add_mset f (unused (root_authorized_invocation (acc_tracker t'))) \<and>
       compares_equal (compare_authorized_function H) f function))"
proof -
  obtain r1 tr h1 where ext: "maybe_extend_invocation_match (compare_authorized_function H) function allow
      (acc_tracker t, h) = (r1, (tr, h1))"
    by (cases "maybe_extend_invocation_match (compare_authorized_function H) function allow
      (acc_tracker t, h)") auto
  note rel = maybe_extend_rel [OF ext]
  let ?t = "t\<lparr>acc_tracker := tr\<rparr>"
  have z: "zoomM (\<lambda>(t, a, h). (acc_tracker t, h)) (\<lambda>(tr, h') (t, a, h). (t\<lparr>acc_tracker := tr\<rparr>, a, h'))
      (maybe_extend_invocation_match (compare_authorized_function H) function allow) (t, am, h) =
      (r1, (?t, am, h1))"
    by (simp add: zoomM_def ext)
  have start: "account_maybe_authorize_invocation H function allow (t, am, h) =
      (case r1 of Inl e \<Rightarrow> (Inl e, (?t, am, h1)) | Inr b \<Rightarrow>
        (if \<not> b then retM False
         else bindM (getM fst) (\<lambda>t. if verified t then retM True
           else thenM (onHost (mapErrM (\<lambda>e. if is_recoverable e then Err Auth InvalidAction else e)
               (authenticate H t)))
             (thenM (onHost (onHost (verify_and_consume_nonce H t)))
               (thenM (onTracker (verified_update (\<lambda>_. True))) (retM True))))) (?t, am, h1))"
    unfolding account_maybe_authorize_invocation_def
    by (rule bindM_case) (rule z)
  have "r1 \<noteq> Inl auth_internal" using run start st by (cases r1) auto
  then have tok: "tracker_ok tr" by (rule maybe_extend_ok [OF ext _ ok(2)])
  have acc: "acc_rel t ?t" using rel by (simp add: acc_rel_def)
  show ?thesis
  proof (cases r1)
    case (Inl e)
    then show ?thesis using run start acc ok tok by auto
  next
    case (Inr b)
    show ?thesis
    proof (cases b)
      case False
      then have "tr = acc_tracker t" using maybe_extend_False [of _ _ _ "acc_tracker t"] ext Inr by simp
      then show ?thesis using run start Inr False ok by (auto simp: retM_def)
    next
      case True
      then have "maybe_extend_invocation_match (compare_authorized_function H) function allow
          (acc_tracker t, h) = (Inr True, (tr, h1))" using ext Inr by simp
      note uses = maybe_extend_uses_one [OF this]
      show ?thesis
      proof (cases "verified t")
        case v: True
        then show ?thesis using run start Inr True acc uses tok ok by (auto simp: retM_def getM_def bindM_def)
      next
        case nv: False
        let ?A = "mapErrM (\<lambda>e. if is_recoverable e then Err Auth InvalidAction else e) (authenticate H ?t)"
        obtain r2 am2 h2 where a: "?A (am, h1) = (r2, (am2, h2))" by (cases "?A (am, h1)") auto
        obtain r3 h3 where c: "verify_and_consume_nonce H ?t h2 = (r3, h3)"
          by (cases "verify_and_consume_nonce H ?t h2")
        have "settled r2" using run start Inr True nv a st
          by (cases r2) (auto simp: bindM_def getM_def onHost_run)
        then have m: "manager_rel am am2 \<and> manager_ok am2"
          using respects_D [OF checked_authenticate_respects a enf ok(1)] by simp
        show ?thesis using run start Inr True nv acc m a c uses tok
          by (auto simp: bindM_def getM_def retM_def onHost_run onTracker_run acc_rel_def split: sum.splits)
      qed
    qed
  qed
qed

lemma cells_upd:
  "list_all2 cell_rel cs ds \<Longrightarrow> cell_rel c d \<Longrightarrow> list_all2 cell_rel (cs[i := c]) (ds[i := d])"
  by (rule list_all2_update_cong)

lemma borrow_respects:
  assumes run: "borrow_mut i (account_maybe_authorize_invocation H function allow) t (am, h) = (r, (am', h'))"
    and c: "i < length (account_trackers am)" "account_trackers am ! i = Free t"
    and enf: "auth_mode am = AuthEnforcing" and ok: "manager_ok am" and st: "settled r"
  shows "manager_rel am am' \<and> manager_ok am' \<and> (r = Inr False \<longrightarrow> am' = am) \<and>
    (r = Inr True \<longrightarrow> (\<exists>f. add_mset (acc_address t, f) (manager_unused am') \<subseteq># manager_unused am \<and>
       compares_equal (compare_authorized_function H) f function))"
proof -
  let ?cs = "account_trackers am"
  let ?am = "am\<lparr>account_trackers := ?cs[i := Borrowed]\<rparr>"
  obtain t' am1 where m: "account_maybe_authorize_invocation H function allow (t, ?am, h) = (r, (t', am1, h'))"
    and am': "am' = am1\<lparr>account_trackers := (account_trackers am1)[i := Free t']\<rparr>"
    using run by (auto simp: borrow_mut_def split: prod.splits)
  have okb: "manager_ok ?am" "tracker_ok (acc_tracker t)" "auth_mode ?am = AuthEnforcing"
    using ok c enf by (auto simp: manager_ok_def dest: set_update_subset_insert [THEN subsetD])
      (metis cell_ok.simps(2) nth_mem)
  note A = account_authorize_cases [OF m okb(3,1,2) st]
  have cs1: "list_all2 cell_rel (?cs[i := Borrowed]) (account_trackers am1)"
    using A by (simp add: manager_rel_def)
  have "list_all2 cell_rel ?cs ((account_trackers am1)[i := Free t'])"
    using cells_upd [OF cs1, of "Free t" "Free t'" i] A list_update_id [of ?cs i] c by simp
  then have rel: "manager_rel am am'"
    using A unfolding am' by (simp add: manager_rel_def)
  have used: "add_mset (acc_address t, f) (manager_unused am') \<subseteq># manager_unused am"
    if f: "unused (root_authorized_invocation (acc_tracker t)) =
       add_mset f (unused (root_authorized_invocation (acc_tracker t')))" for f
  proof -
    have i1: "i < length (account_trackers am1)" using cs1 c by (simp add: list_all2_lengthD [symmetric])
    have b1: "cell_unused (account_trackers am1 ! i) = {#}"
      using list_all2_nthD [OF cs1, of i] c by (cases "account_trackers am1 ! i") auto
    have "(\<Sum>c\<leftarrow>(account_trackers am1)[i := Free t']. cell_unused c) =
        (\<Sum>c\<leftarrow>account_trackers am1. cell_unused c) + cell_unused (Free t')"
      using sum_list_upd_add [of i "map cell_unused (account_trackers am1)" "cell_unused (Free t')"] i1 b1
      by (simp add: map_update)
    moreover have "(\<Sum>c\<leftarrow>?cs. cell_unused c) = (\<Sum>c\<leftarrow>?cs[i := Borrowed]. cell_unused c) + cell_unused (Free t)"
      using sum_list_upd_add [of i "map cell_unused ?cs" "{#}"] c by (simp add: map_update)
    moreover have "cell_unused (Free t) = add_mset (acc_address t, f) (cell_unused (Free t'))"
      using f A by (simp add: acc_rel_def)
    moreover have "manager_unused am1 \<subseteq># manager_unused ?am" using A by (auto intro: manager_rel_unused)
    ultimately show ?thesis unfolding am' manager_unused_def
      by (simp add: subset_mset.add_right_mono add.commute add.left_commute)
  qed
  have "r = Inr False \<longrightarrow> am' = am"
    using A c unfolding am' by (auto simp: list_update_same_conv)
  moreover have "manager_ok am'"
    using A unfolding am' by (auto simp: manager_ok_def dest: set_update_subset_insert [THEN subsetD])
  ultimately show ?thesis using rel used A by blast
qed

lemma enforce_loop_cases:
  "enforce_loop H address function allow js (am, h) = (r, (am', h')) \<Longrightarrow>
   \<forall>i\<in>set js. i < length (account_trackers am) \<Longrightarrow> auth_mode am = AuthEnforcing \<Longrightarrow> manager_ok am \<Longrightarrow> settled r \<Longrightarrow>
   manager_rel am am' \<and> manager_ok am' \<and> (r = Inr () \<longrightarrow> consumed H address function am am')"
proof (induction js arbitrary: am h)
  case Nil
  then show ?case by (auto simp: throwM_def)
next
  case (Cons i js)
  have i: "i < length (account_trackers am)" using Cons.prems by simp
  show ?case
  proof (cases "account_trackers am ! i")
    case Borrowed
    then show ?thesis using Cons.prems Cons.IH [of am h] by simp
  next
    case (Free t)
    obtain r1 h1 where c: "cmp_address H (acc_address t) address h = (r1, h1)"
      by (cases "cmp_address H (acc_address t) address h")
    have step: "enforce_loop H address function allow (i # js) (am, h) =
      (case r1 of Inl e \<Rightarrow> (Inl e, (am, h1)) | Inr ord \<Rightarrow>
        (if ord \<noteq> Equal then enforce_loop H address function allow js
         else bindM (borrow_mut i (account_maybe_authorize_invocation H function allow) t)
           (\<lambda>b. if b then retM () else enforce_loop H address function allow js)) (am, h1))"
      by (simp add: Free) (rule bindM_case, simp add: onHost_run c)
    show ?thesis
    proof (cases "r1 = Inr Equal")
      case False
      then show ?thesis using Cons.prems Cons.IH step by (auto split: sum.splits)
    next
      case True
      obtain r2 am2 h2 where b: "borrow_mut i (account_maybe_authorize_invocation H function allow) t
          (am, h1) = (r2, (am2, h2))"
        by (cases "borrow_mut i (account_maybe_authorize_invocation H function allow) t (am, h1)") auto
      have run: "(case r2 of Inl e \<Rightarrow> (Inl e, (am2, h2)) | Inr b \<Rightarrow>
          (if b then retM () else enforce_loop H address function allow js) (am2, h2)) = (r, (am', h'))"
        using Cons.prems(1) unfolding step True sum.case
        by (simp only: not_True_eq_False if_False simp_thms bindM_case
            [of "borrow_mut i (account_maybe_authorize_invocation H function allow) t" "(am, h1)" r2 "(am2, h2)", OF b])
      have "settled r2" using run Cons.prems(5) by (cases r2) auto
      note B = borrow_respects [OF b i Free Cons.prems(3,4) this]
      show ?thesis
      proof (cases r2)
        case (Inr bb)
        then show ?thesis using run B Cons.IH [of am2 h2] Cons.prems(2-5) c True
          by (cases bb) (auto simp: retM_def consumed_def dest: compares_equalI)
      qed (use run B in auto)
    qed
  qed
qed

lemma require_auth_enforcing_cases:
  assumes "require_auth_enforcing H address function (am, h) = (r, (am', h'))"
    and "auth_mode am = AuthEnforcing" "manager_ok am" "settled r"
  shows "manager_rel am am' \<and> manager_ok am' \<and> (r = Inr () \<longrightarrow> consumed H address function am am')"
proof -
  obtain r1 h1 where c: "has_active_tracker H address (account_trackers am) h = (r1, h1)"
    by (cases "has_active_tracker H address (account_trackers am) h")
  let ?m = "onHost (has_active_tracker H address (account_trackers am))"
  have "?m (am, h) = (r1, (am, h1))"
    by (simp add: onHost_run c)
  note run = assms(1) [unfolded require_auth_enforcing_def getM_bind fst_conv,
      unfolded bindM_case [of "?m" "(am, h)" r1 "(am, h1)", OF this]]
  show ?thesis
  proof (cases r1)
    case (Inr active)
    then show ?thesis using enforce_loop_cases [of address "function" "\<not> active"] run assms(2-4) by auto
  qed (use run assms in auto)
qed

text \<open>Trackers out of scope never match: their stack is empty.\<close>

lemma invoker_authorize_cases:
  assumes run: "invoker_maybe_authorize_invocation H function (t, h) = (r, (t', h'))"
  shows "inv_rel t t' \<and> (settled r \<longrightarrow> tracker_ok (inv_tracker t) \<longrightarrow> tracker_ok (inv_tracker t')) \<and>
    (r = Inr False \<longrightarrow> t' = t) \<and> (r = Inr True \<longrightarrow> \<not> is_out_of_scope t \<and>
    (\<exists>f. inv_unused t = add_mset (inv_contract_address t, f) (inv_unused t') \<and>
       compares_equal (compare_authorized_function H) f function))"
proof -
  obtain tr where ext: "maybe_extend_invocation_match (compare_authorized_function H) function True
      (inv_tracker t, h) = (r, (tr, h'))" and t': "t' = t\<lparr>inv_tracker := tr\<rparr>"
    using run by (auto simp: invoker_maybe_authorize_invocation_def zoomM_def split: prod.splits)
  have "r = Inr True \<longrightarrow> match_stack (inv_tracker t) \<noteq> []"
    using ext by (auto elim: maybe_extend_cases)
  moreover have "r = Inr False \<longrightarrow> t' = t"
  proof
    assume "r = Inr False"
    then have "tr = inv_tracker t" using ext by (simp add: maybe_extend_False)
    then show "t' = t" by (simp add: t')
  qed
  moreover have "r = Inr True \<longrightarrow> (\<exists>f. inv_unused t = add_mset (inv_contract_address t, f) (inv_unused t') \<and>
      compares_equal (compare_authorized_function H) f function)"
    using ext maybe_extend_uses_one [of _ _ _ "inv_tracker t" h tr h'] unfolding t' inv_unused_def by fastforce
  ultimately show ?thesis
    using maybe_extend_rel [OF ext] maybe_extend_ok [OF ext] settled_not_internal [of r] unfolding t'
    by (auto simp: inv_rel_def is_out_of_scope_def tracker_is_empty_def)
qed

lemma inv_consumed_Cons: "inv_consumed H address function ts ts' \<Longrightarrow> inv_consumed H address function (t # ts) (t # ts')"
  unfolding inv_consumed_def by (fastforce simp: in_scope_def)

lemma inv_consumed_head:
  assumes "inv_rel t t'" "\<not> is_out_of_scope t"
    and "inv_unused t = add_mset (inv_contract_address t, f) (inv_unused t')"
    and "compares_equal (cmp_address H) (inv_contract_address t) address"
    and "compares_equal (compare_authorized_function H) f function"
  shows "inv_consumed H address function (t # ts) (t' # ts)"
  using assms inv_rel_scope [OF assms(1)] unfolding inv_consumed_def by (auto simp: in_scope_def)

lemma invoker_loop_cases:
  "invoker_loop H address function ts h = (r, (ts', h')) \<Longrightarrow>
   list_all2 inv_rel ts ts' \<and>
   (settled r \<longrightarrow> (\<forall>t\<in>set ts. tracker_ok (inv_tracker t)) \<longrightarrow> (\<forall>t\<in>set ts'. tracker_ok (inv_tracker t))) \<and>
   (r = Inr False \<longrightarrow> ts' = ts) \<and>
   (r = Inr True \<longrightarrow> inv_consumed H address function ts ts')"
proof (induction ts arbitrary: h r ts' h')
  case (Cons t ts)
  obtain r1 h1 where c: "cmp_address H (inv_contract_address t) address h = (r1, h1)"
    by (cases "cmp_address H (inv_contract_address t) address h")
  obtain r3 ts3 h3 where l: "invoker_loop H address function ts h1 = (r3, (ts3, h3))"
    by (cases "invoker_loop H address function ts h1") auto
  show ?case
  proof (cases "r1 = Inr Equal")
    case False
    then show ?thesis using Cons.prems Cons.IH [OF l] c l
      by (auto simp: list_all2_refl inv_consumed_Cons split: sum.splits)
  next
    case True
    obtain r2 t2 h2 where a: "invoker_maybe_authorize_invocation H function (t, h1) = (r2, (t2, h2))"
      by (cases "invoker_maybe_authorize_invocation H function (t, h1)") auto
    note A = invoker_authorize_cases [OF a]
    obtain r4 ts4 h4 where l4: "invoker_loop H address function ts h2 = (r4, (ts4, h4))"
      by (cases "invoker_loop H address function ts h2") auto
    have eq: "compares_equal (cmp_address H) (inv_contract_address t) address"
      using c True by (blast intro: compares_equalI)
    consider (err) e where "r2 = Inl e" | (yes) "r2 = Inr True" | (no) "r2 = Inr False"
      by (cases r2) auto
    then show ?thesis
    proof cases
      case err
      then show ?thesis using Cons.prems c a True A by (auto simp: list_all2_refl)
    next
      case yes
      then show ?thesis using Cons.prems c a True A eq
        by (auto simp: list_all2_refl intro: inv_consumed_head)
    next
      case no
      then show ?thesis using Cons.prems c a True A l4 Cons.IH [OF l4] by (auto simp: inv_consumed_Cons)
    qed
  qed
qed simp

lemma check_invoker_cases:
  assumes run: "maybe_check_invoker_contract_auth H address function (am, h) = (r, (am', h'))"
  shows "manager_rel am am' \<and> (settled r \<longrightarrow> manager_ok am \<longrightarrow> manager_ok am') \<and>
    (r = Inr False \<longrightarrow> am' = am) \<and> (r = Inr True \<longrightarrow> is_direct_invoker H am address \<or> consumed H address function am am')"
proof (cases "length (call_stack am) < 2")
  case True
  then show ?thesis using run by (auto simp: maybe_check_invoker_contract_auth_def retM_def)
next
  case False
  let ?d = "(case call_stack am ! (length (call_stack am) - 2) of
      FrameContract invoker _ \<Rightarrow> bindM (onHost (cmp_address H invoker address)) (\<lambda>ord. retM (ord = Equal))
    | FrameCreateContract _ \<Rightarrow> retM False)"
  obtain r1 am1 h1 where d: "?d (am, h) = (r1, (am1, h1))" by (cases "?d (am, h)") auto
  have d1: "am1 = am" "r1 = Inr True \<Longrightarrow> is_direct_invoker H am address"
    using d False unfolding is_direct_invoker_def
    by (auto simp: retM_def bindM_def onHost_run split: AuthStackFrame.splits sum.splits prod.splits
        dest: compares_equalI)
  obtain r2 ts h2 where l: "invoker_loop H address function (invoker_contract_trackers am) h1 = (r2, (ts, h2))"
    by (cases "invoker_loop H address function (invoker_contract_trackers am) h1") auto
  note L = invoker_loop_cases [OF l]
  have "manager_rel am (am\<lparr>invoker_contract_trackers := ts\<rparr>)"
    using L by (auto simp: manager_rel_def list_all2_refl intro: in_scope_rel scoped_rel)
  moreover have "settled r2 \<Longrightarrow> manager_ok am \<Longrightarrow> manager_ok (am\<lparr>invoker_contract_trackers := ts\<rparr>)"
    using L by (auto simp: manager_ok_def intro: scoped_rel)
  moreover have "r2 = Inr True \<Longrightarrow> consumed H address function am (am\<lparr>invoker_contract_trackers := ts\<rparr>)"
    using L by (auto simp: consumed_def inv_consumed_def manager_unused_def)
  moreover have "maybe_check_invoker_contract_auth H address function (am, h) =
      (case r1 of Inl e \<Rightarrow> (Inl e, (am, h1)) | Inr True \<Rightarrow> (Inr True, (am, h1))
       | Inr False \<Rightarrow> (r2, (am\<lparr>invoker_contract_trackers := ts\<rparr>, h2)))"
    unfolding maybe_check_invoker_contract_auth_def getM_bind
    using False by (simp add: bindM_case [of "?d" "(am, h)" r1 "(am1, h1)", OF d] d1 l retM_def
        split: sum.split bool.split)
  ultimately show ?thesis using run d1 L by (auto split: sum.splits bool.splits)
qed

lemma require_auth_cases:
  assumes run: "require_auth H void address args (am, h) = (r, (am', h'))"
    and enf: "auth_mode am = AuthEnforcing" and ok: "manager_ok am" and st: "settled r"
  shows "manager_rel am am' \<and> manager_ok am' \<and> (r = Inr () \<longrightarrow> call_stack am \<noteq> [] \<and> (\<exists>function h1 h2.
      to_authorized_function H (last (call_stack am)) args h1 = (Inr function, h2) \<and>
      (is_direct_invoker H am address \<or> consumed H address function am am')))"
proof (cases "call_stack am = []")
  case True
  then show ?thesis using run st by (auto simp: require_auth_def throwM_def)
next
  case False
  obtain r1 h1 where f: "to_authorized_function H (last (call_stack am)) args h = (r1, h1)"
    by (cases "to_authorized_function H (last (call_stack am)) args h")
  show ?thesis
  proof (cases r1)
    case (Inl e)
    then show ?thesis using run False f ok by (auto simp: require_auth_def bindM_def onHost_run getM_def)
  next
    case (Inr fn)
    have run1: "require_auth_internal H void address fn (am, h1) = (r, (am', h'))"
      using run False f Inr by (simp add: require_auth_def bindM_def onHost_run getM_def)
    obtain r2 am2 h2 where c: "maybe_check_invoker_contract_auth H address fn (am, h1) = (r2, (am2, h2))"
      by (cases "maybe_check_invoker_contract_auth H address fn (am, h1)") auto
    note C = check_invoker_cases [OF c]
    consider (err) e where "r2 = Inl e" | (yes) "r2 = Inr True" | (no) "r2 = Inr False"
      by (cases r2) auto
    then show ?thesis
    proof cases
      case err
      then show ?thesis using run1 c C ok st by (auto simp: require_auth_internal_def bindM_def)
    next
      case yes
      then show ?thesis using run1 c C False f Inr ok
        by (auto simp: require_auth_internal_def bindM_def retM_def)
    next
      case no
      then have "require_auth_enforcing H address fn (am, h2) = (r, (am', h'))"
        using run1 c C enf by (simp add: require_auth_internal_def bindM_def getM_def)
      from require_auth_enforcing_cases [OF this enf ok st] show ?thesis using False f Inr by blast
    qed
  qed
qed

lemma require_auth_respects: "respects_frames (require_auth H void address args)"
  by (rule respectsI) (use require_auth_cases in blast)

end

section \<open>Frames of the manager\<close>

text \<open>The manager right after a frame has been entered, and its snapshot.\<close>

fun pushed_cell ::
  "('a, 'v, 'c) AccountAuthorizationTracker cell \<Rightarrow> ('a, 'v, 'c) AccountAuthorizationTracker cell" where
  "pushed_cell Borrowed = Borrowed"
| "pushed_cell (Free t) = Free (t\<lparr>acc_tracker := pushed (acc_tracker t)\<rparr>)"

definition pushed_inv ::
  "('a, 'v, 'c) InvokerContractAuthorizationTracker \<Rightarrow> ('a, 'v, 'c) InvokerContractAuthorizationTracker" where
  "pushed_inv t = t\<lparr>inv_tracker := pushed (inv_tracker t)\<rparr>"

definition popped_inv ::
  "('a, 'v, 'c) InvokerContractAuthorizationTracker \<Rightarrow> ('a, 'v, 'c) InvokerContractAuthorizationTracker" where
  "popped_inv t = t\<lparr>inv_tracker := tracker_pop_frame (inv_tracker t)\<rparr>"

definition entered ::
  "('a, 'v, 'c) AuthStackFrame \<Rightarrow> ('a, 'v, 'c) AuthorizationManager \<Rightarrow> ('a, 'v, 'c) AuthorizationManager" where
  "entered f am = am\<lparr>call_stack := call_stack am @ [f],
     account_trackers := map pushed_cell (account_trackers am),
     invoker_contract_trackers := map pushed_inv (invoker_contract_trackers am)\<rparr>"

fun snap_cell ::
  "('a, 'v, 'c) AccountAuthorizationTracker cell \<Rightarrow> (AuthorizedInvocationSnapshot \<times> bool) option" where
  "snap_cell Borrowed = None"
| "snap_cell (Free t) = Some (snap_of (root_authorized_invocation (acc_tracker t)), verified t)"

definition snap_inv :: "('a, 'v, 'c) InvokerContractAuthorizationTracker \<Rightarrow> AuthorizedInvocationSnapshot" where
  "snap_inv t = snap_of (root_authorized_invocation (inv_tracker t))"

definition snap_manager ::
  "('a, 'v, 'c) AuthorizationManager \<Rightarrow> ('a, 'v, 'c) AuthorizationManagerSnapshot" where
  "snap_manager am = \<lparr>account_trackers_snapshot = SnapEnforcing (map snap_cell (account_trackers am)),
     invoker_contract_tracker_root_snapshots = map snap_inv (invoker_contract_trackers am),
     handles_snapshot = None\<rparr>"

lemma collectM_map:
  assumes "collectM (map g xs) s = (Inr ys, s')" "\<And>x s y s'. x \<in> set xs \<Longrightarrow> g x s = (Inr y, s') \<Longrightarrow> y = k x"
  shows "ys = map k xs"
  using assms by (induction xs arbitrary: s ys) (auto simp: m_simps)

lemma snapshot_cell_Inr: "snapshot_cell H c h = (Inr s, h') \<Longrightarrow> s = snap_cell c"
  by (cases c) (auto simp: m_simps tracker_snapshot_def dest: invocation_snapshot_Inr)

lemma onHost_Inr: "onHost m (t, h) = (Inr x, (t', h')) \<longleftrightarrow> t' = t \<and> m h = (Inr x, h')"
  by (auto simp: onHost_run split: prod.splits)

lemma manager_snapshot_Inr:
  assumes "auth_mode am = AuthEnforcing" "manager_snapshot H (am, h) = (Inr sn, (am', h'))"
  shows "am' = am \<and> sn = snap_manager am"
  using assms unfolding manager_snapshot_def snap_manager_def
  by (auto simp: m_simps onHost_Inr tracker_snapshot_def snap_inv_def
      dest!: collectM_map [where k = snap_cell] collectM_map [where k = snap_inv]
      dest: snapshot_cell_Inr invocation_snapshot_Inr)

lemma push_cells_Inr: "push_cells chg cs h = (Inr (), (cs', h')) \<Longrightarrow> cs' = map pushed_cell cs"
proof (induction cs arbitrary: h cs')
  case (Cons c cs)
  obtain r1 h1 where c: "chg 8 1 h = (r1, h1)" by (cases "chg 8 1 h")
  obtain r2 cs2 h2 where n: "push_cells chg cs h = (r2, (cs2, h2))" by (cases "push_cells chg cs h") auto
  obtain r3 cs3 h3 where m: "push_cells chg cs h1 = (r3, (cs3, h3))" by (cases "push_cells chg cs h1") auto
  show ?case
    using Cons.prems Cons.IH [of h cs2] Cons.IH [of h1 cs3] c n m
    by (cases c; cases r1) (simp_all add: tracker_push_run)
qed simp

lemma push_invokers_Inr: "push_invokers chg ts h = (Inr (), (ts', h')) \<Longrightarrow> ts' = map pushed_inv ts"
proof (induction ts arbitrary: h ts')
  case (Cons t ts)
  obtain r1 h1 where c: "chg 8 1 h = (r1, h1)" by (cases "chg 8 1 h")
  obtain r3 ts3 h3 where m: "push_invokers chg ts h1 = (r3, (ts3, h3))" by (cases "push_invokers chg ts h1") auto
  show ?case
    using Cons.prems Cons.IH [of h1 ts3] c m
    by (cases r1) (simp_all add: tracker_push_run pushed_inv_def)
qed simp

lemma push_frame_Inr:
  assumes enf: "auth_mode am = AuthEnforcing"
    and run: "push_frame H (Some (contract_id, name)) (am, h) = (Inr sn, (am', h'))"
  shows "\<exists>address. am' = entered (FrameContract address name) am \<and> sn = snap_manager am'"
proof -
  obtain address h1 h2 am1 h3 where
    p: "push_tracker_frame H (am\<lparr>call_stack := call_stack am @ [FrameContract address name]\<rparr>, h2) = (Inr (), (am1, h3))"
    and s: "manager_snapshot H (am1, h3) = (Inr sn, (am', h'))"
    using run by (auto simp: push_frame_def m_simps onHost_Inr push_call_stack_def onTracker_run bindM_def
        split: prod.splits sum.splits)
  have am1: "am1 = entered (FrameContract address name) am"
    using p unfolding push_tracker_frame_def bindM_Inr entered_def
    by (auto split: prod.splits dest!: push_cells_Inr push_invokers_Inr)
  then have "auth_mode am1 = AuthEnforcing" using enf by (simp add: entered_def)
  then have "am' = am1 \<and> sn = snap_manager am1" using s by (rule manager_snapshot_Inr)
  with am1 show ?thesis by blast
qed

lemma acc_pop:
  assumes "tracker_ok (acc_tracker t)" "acc_rel (t\<lparr>acc_tracker := pushed (acc_tracker t)\<rparr>) u"
  shows "acc_rel t (u\<lparr>acc_tracker := tracker_pop_frame (acc_tracker u)\<rparr>)"
  using assms pop_after_push(1) by (auto simp: acc_rel_def)

lemma cell_pop: "cell_ok c \<Longrightarrow> cell_rel (pushed_cell c) d \<Longrightarrow> cell_rel c (pop_cell d)"
  by (cases c; cases d) (auto intro: acc_pop)

lemma inv_pop: "tracker_ok (inv_tracker t) \<Longrightarrow> inv_rel (pushed_inv t) u \<Longrightarrow> inv_rel t (popped_inv u)"
  using pop_after_push(1) by (auto simp: inv_rel_def pushed_inv_def popped_inv_def)

lemma all2_map_pop:
  assumes "list_all2 R (map f xs) ys" "\<And>x y. x \<in> set xs \<Longrightarrow> R (f x) y \<Longrightarrow> S x (g y)"
  shows "list_all2 S xs (map g ys)"
  using assms by (auto simp: list_all2_conv_all_nth)

lemma pushed_in_scope: "in_scope (map pushed_inv ts) = map pushed_inv ts"
  by (simp add: in_scope_def filter_id_conv pushed_inv_def is_out_of_scope_def tracker_is_empty_def pushed_def)

text \<open>What the caller's frame sees of the invoker entries after the call.\<close>

lemma invokers_after_pop:
  assumes ok: "\<forall>t\<in>set ts. tracker_ok (inv_tracker t)" "scoped ts"
    and rel: "list_all2 inv_rel (map pushed_inv ts) (in_scope us)" "scoped us"
  shows "list_all2 inv_rel (in_scope ts) (drop_out_of_scope (map popped_inv us))"
    and "\<forall>u\<in>set (drop_out_of_scope (map popped_inv us)). \<not> is_out_of_scope u"
proof -
  obtain A B where us: "us = A @ B" "\<forall>t\<in>set A. \<not> is_out_of_scope t" "\<forall>t\<in>set B. is_out_of_scope t"
    using rel(2) scoped_iff by blast
  have "in_scope us = A" using us by (simp add: in_scope_def filter_id_conv filter_empty_conv)
  with rel(1) have A: "list_all2 inv_rel ts (map popped_inv A)"
    by (intro all2_map_pop [where R = inv_rel and f = pushed_inv]) (use ok in \<open>auto intro: inv_pop\<close>)
  have B: "\<forall>u\<in>set (map popped_inv B). is_out_of_scope u"
    using us(3) by (auto simp: popped_inv_def is_out_of_scope_def tracker_is_empty_def tracker_pop_frame_def
        Let_def split: option.splits)
  obtain C D where cd: "map popped_inv A = C @ D" "\<forall>t\<in>set C. \<not> is_out_of_scope t" "\<forall>t\<in>set D. is_out_of_scope t"
    using scoped_rel [OF A ok(2)] scoped_iff by blast
  have m: "map popped_inv us = C @ (D @ map popped_inv B)" by (simp add: us(1) cd(1))
  have sc: "scoped (map popped_inv us)"
    unfolding m scoped_iff using cd(2,3) B
    by (intro exI [of _ C] exI [of _ "D @ map popped_inv B"]) auto
  have "in_scope (map popped_inv us) = in_scope (map popped_inv A)"
    unfolding m cd(1) using B cd(2,3) by (simp add: in_scope_def filter_empty_conv)
  then show "list_all2 inv_rel (in_scope ts) (drop_out_of_scope (map popped_inv us))"
    using in_scope_rel [OF A] drop_scoped [OF sc] by simp
  show "\<forall>u\<in>set (drop_out_of_scope (map popped_inv us)). \<not> is_out_of_scope u"
    using drop_scoped [OF sc] by (simp add: in_scope_def)
qed

lemma scoped_all_in: "\<forall>u\<in>set ts. \<not> is_out_of_scope u \<Longrightarrow> scoped ts \<and> in_scope ts = ts"
  by (auto simp: scoped_def in_scope_def filter_id_conv filter_empty_conv)

text \<open>A call that succeeds is, for the frame that made it, one more step.\<close>

lemma pop_frame_respects:
  assumes ok: "manager_ok am" and rel: "manager_rel (entered f am) am2"
  shows "\<exists>am3. pop_frame None am2 = (Inr (), am3) \<and> manager_rel am am3 \<and> scoped (invoker_contract_trackers am3)"
proof -
  have cs: "call_stack am2 = call_stack am @ [f]" using rel by (simp add: manager_rel_def entered_def)
  let ?am3 = "am2\<lparr>call_stack := butlast (call_stack am2), account_trackers := map pop_cell (account_trackers am2),
      invoker_contract_trackers := drop_out_of_scope (map popped_inv (invoker_contract_trackers am2))\<rparr>"
  have run: "pop_frame None am2 = (Inr (), ?am3)"
    using cs by (simp add: pop_frame_def modifyM_def popped_inv_def [abs_def])
  have inv: "list_all2 inv_rel (map pushed_inv (invoker_contract_trackers am)) (in_scope (invoker_contract_trackers am2))"
      "scoped (invoker_contract_trackers am2)"
    using rel scoped_all_in [of "map pushed_inv (invoker_contract_trackers am)"]
    by (auto simp: manager_rel_def entered_def pushed_in_scope pushed_inv_def is_out_of_scope_def
        tracker_is_empty_def pushed_def)
  note I = invokers_after_pop [OF _ _ inv]
  have cells: "list_all2 cell_rel (account_trackers am) (map pop_cell (account_trackers am2))"
    by (rule all2_map_pop [where f = pushed_cell and R = cell_rel])
      (use rel ok in \<open>auto simp: manager_rel_def entered_def manager_ok_def intro: cell_pop\<close>)
  have "manager_rel am ?am3"
    using rel ok cells I scoped_all_in [OF I(2)] cs by (simp add: manager_rel_def entered_def manager_ok_def)
  moreover have "scoped (invoker_contract_trackers ?am3)"
    using ok scoped_all_in [OF I(2)] by (simp add: manager_ok_def)
  ultimately show ?thesis using run by blast
qed

lemma pop_frame_ok:
  assumes "\<forall>c\<in>set (account_trackers am2). cell_ok c" "\<forall>t\<in>set (invoker_contract_trackers am2). tracker_ok (inv_tracker t)"
    and "pop_frame None am2 = (r, am3)" "scoped (invoker_contract_trackers am3)"
  shows "manager_ok am3"
proof -
  have c: "cell_ok c \<Longrightarrow> cell_ok (pop_cell c)" for c :: "('a, 'b, 'c) AccountAuthorizationTracker cell"
    by (cases c) (simp_all add: pop_ok)
  have d: "set (drop_out_of_scope ts) \<subseteq> set ts" for ts :: "('a, 'b, 'c) InvokerContractAuthorizationTracker list"
    by (auto simp: drop_out_of_scope_def dest: set_dropWhileD)
  show ?thesis
    using assms c d by (fastforce simp: pop_frame_def modifyM_def manager_ok_def intro: pop_ok split: if_splits)
qed

section \<open>Rolling a frame back\<close>

lemma snap_pushed [simp]: "snap_cell (pushed_cell c) = snap_cell c" "snap_inv (pushed_inv t) = snap_inv t"
  by (cases c) (simp_all add: snap_inv_def pushed_inv_def pushed_def)

lemma rollback_cells_restores:
  "\<forall>c\<in>set cs. cell_ok c \<Longrightarrow> list_all2 cell_rel (map pushed_cell cs) ds \<Longrightarrow>
   \<exists>es. rollback_cells (map snap_cell cs) ds = (Inr (), es) \<and> map pop_cell es = cs"
proof (induction cs arbitrary: ds)
  case (Cons c cs)
  obtain d ds' where ds: "ds = d # ds'" and d: "cell_rel (pushed_cell c) d"
    and rest: "list_all2 cell_rel (map pushed_cell cs) ds'"
    using Cons.prems by (auto simp: list_all2_Cons1)
  obtain es where es: "rollback_cells (map snap_cell cs) ds' = (Inr (), es)" "map pop_cell es = cs"
    using Cons.IH [OF _ rest] Cons.prems(1) by (meson list.set_intros(2))
  show ?case
  proof (cases c)
    case Borrowed
    with d have "d = Borrowed" by (cases d) simp_all
    with Borrowed ds es show ?thesis by (intro exI [of _ "Borrowed # es"]) simp
  next
    case (Free t)
    with d obtain u where u: "d = Free u" "acc_rel (t\<lparr>acc_tracker := pushed (acc_tracker t)\<rparr>) u"
      by (cases d) simp_all
    have "tracker_ok (acc_tracker t)" "frame_rel (pushed (acc_tracker t)) (acc_tracker u)"
      using Cons.prems(1) Free u by (simp_all add: acc_rel_def)
    from rollback_restores [OF this] obtain v where
      v: "tracker_rollback (snap_of (root_authorized_invocation (acc_tracker t))) (acc_tracker u) = (Inr (), v)"
        "tracker_pop_frame v = acc_tracker t" by blast
    have "u\<lparr>verified := verified t, acc_tracker := acc_tracker t\<rparr> = t"
      using u(2) by (cases t; cases u) (simp add: acc_rel_def)
    then have "pop_cell (Free (u\<lparr>acc_tracker := v, verified := verified t\<rparr>)) = c"
      using v(2) Free by simp
    with v(1) es ds u(1) Free show ?thesis
      by (intro exI [of _ "Free (u\<lparr>acc_tracker := v, verified := verified t\<rparr>) # es"]) simp
  qed
qed simp

lemma rollback_invokers_restores:
  "\<forall>t\<in>set ts. tracker_ok (inv_tracker t) \<Longrightarrow> list_all2 inv_rel (map pushed_inv ts) us \<Longrightarrow>
   \<exists>vs. rollback_invokers (map snap_inv ts) us = (Inr (), vs) \<and> map popped_inv vs = ts"
proof (induction ts arbitrary: us)
  case (Cons t ts)
  obtain u us' where us: "us = u # us'" and u: "inv_rel (pushed_inv t) u"
    and rest: "list_all2 inv_rel (map pushed_inv ts) us'"
    using Cons.prems by (auto simp: list_all2_Cons1)
  obtain vs where vs: "rollback_invokers (map snap_inv ts) us' = (Inr (), vs)" "map popped_inv vs = ts"
    using Cons.IH [OF _ rest] Cons.prems(1) by (meson list.set_intros(2))
  have "tracker_ok (inv_tracker t)" "frame_rel (pushed (inv_tracker t)) (inv_tracker u)"
    using Cons.prems(1) u by (simp_all add: inv_rel_def pushed_inv_def)
  from rollback_restores [OF this] obtain v where
    v: "tracker_rollback (snap_of (root_authorized_invocation (inv_tracker t))) (inv_tracker u) = (Inr (), v)"
      "tracker_pop_frame v = inv_tracker t" by blast
  have "t = u\<lparr>inv_tracker := inv_tracker t\<rparr>"
    using u by (cases t; cases u) (simp add: inv_rel_def pushed_inv_def)
  then have "popped_inv (u\<lparr>inv_tracker := v\<rparr>) = t"
    using v(2) by (simp add: popped_inv_def)
  with v(1) vs us show ?case
    by (intro exI [of _ "u\<lparr>inv_tracker := v\<rparr> # vs"]) (simp add: snap_inv_def [of t])
qed simp

text \<open>Entries supplied for a sub-call that has not been entered yet.\<close>

definition pending :: "('a, 'v, 'c) AuthorizationManager \<Rightarrow> bool" where
  "pending am \<longleftrightarrow> (\<exists>t\<in>set (invoker_contract_trackers am). is_out_of_scope t)"

lemma pop_frame_rollback:
  assumes ok: "manager_ok am" and rel: "manager_rel (entered f am) am2"
  shows "\<not> pending am2 \<Longrightarrow> pop_frame (Some (snap_manager (entered f am))) am2 =
      (Inr (), am\<lparr>invoker_contract_trackers := in_scope (invoker_contract_trackers am)\<rparr>)"
    and "pending am2 \<Longrightarrow> fst (pop_frame (Some (snap_manager (entered f am))) am2) = Inl auth_internal"
proof -
  let ?ts = "invoker_contract_trackers am" and ?us = "invoker_contract_trackers am2"
  let ?ss = "map snap_cell (account_trackers am)" and ?is = "map snap_inv ?ts"
  have sn: "snap_manager (entered f am) = \<lparr>account_trackers_snapshot = SnapEnforcing ?ss,
      invoker_contract_tracker_root_snapshots = ?is, handles_snapshot = None\<rparr>"
    by (simp add: snap_manager_def entered_def comp_def)
  have cs: "list_all2 cell_rel (map pushed_cell (account_trackers am)) (account_trackers am2)"
    and us: "list_all2 inv_rel (map pushed_inv ?ts) (in_scope ?us)"
    and misc: "call_stack am2 = call_stack am @ [f]" "auth_mode am2 = auth_mode am"
    using rel by (simp_all add: manager_rel_def entered_def pushed_in_scope)
  obtain es where es: "rollback_cells ?ss (account_trackers am2) = (Inr (), es)" "map pop_cell es = account_trackers am"
    using rollback_cells_restores [OF _ cs] ok by (auto simp: manager_ok_def)
  have len: "length (account_trackers am2) = length ?ss" using list_all2_lengthD [OF cs] by simp
  have run: "pop_frame (Some (snap_manager (entered f am))) am2 =
      (if length ?us \<noteq> length ?ts then (Inl auth_internal, am2\<lparr>account_trackers := es\<rparr>)
       else case rollback_invokers ?is ?us of
         (Inl e, vs) \<Rightarrow> (Inl e, am2\<lparr>account_trackers := es, invoker_contract_trackers := vs\<rparr>)
       | (Inr _, vs) \<Rightarrow> (Inr (), am2\<lparr>call_stack := call_stack am, account_trackers := map pop_cell es,
           invoker_contract_trackers := drop_out_of_scope (map popped_inv vs)\<rparr>))"
    using len misc es
    by (simp add: pop_frame_def manager_rollback_def sn m_defs popped_inv_def [abs_def] split: prod.splits sum.splits)
      auto
  {
    assume "\<not> pending am2"
    then have in_us: "in_scope ?us = ?us" by (auto simp: pending_def in_scope_def filter_id_conv)
    obtain vs where vs: "rollback_invokers ?is ?us = (Inr (), vs)" "map popped_inv vs = ?ts"
      using rollback_invokers_restores [of ?ts ?us] us in_us ok by (auto simp: manager_ok_def)
    have "drop_out_of_scope ?ts = in_scope ?ts" using ok by (simp add: manager_ok_def drop_scoped)
    then show "pop_frame (Some (snap_manager (entered f am))) am2 =
        (Inr (), am\<lparr>invoker_contract_trackers := in_scope ?ts\<rparr>)"
      using list_all2_lengthD [OF us] in_us vs es(2) misc unfolding run
      by (cases am; cases am2) simp
  }
  {
    assume "pending am2"
    then have "length (in_scope ?us) < length ?us"
      unfolding in_scope_def pending_def by (auto intro: length_filter_less)
    then show "fst (pop_frame (Some (snap_manager (entered f am))) am2) = Inl auth_internal"
      using list_all2_lengthD [OF us] unfolding run by simp
  }
qed

section \<open>A contract's entries for its next call\<close>

lemma add_entries_Inr:
  "add_invoker_entries read_entry es (am, h) = (Inr (), (am', h')) \<Longrightarrow>
   \<exists>new. am' = am\<lparr>invoker_contract_trackers := invoker_contract_trackers am @ new\<rparr> \<and> length new = length es \<and>
     (\<forall>t\<in>set new. is_out_of_scope t)"
proof (induction es arbitrary: am h)
  case (Cons e es)
  obtain a root h1 where
    r: "add_invoker_entries read_entry es (am\<lparr>invoker_contract_trackers := invoker_contract_trackers am @
        [\<lparr>inv_contract_address = a, inv_tracker = tracker_new root\<rparr>]\<rparr>, h1) = (Inr (), (am', h'))"
    using Cons.prems by (auto simp: bindM_Inr onHost_Inr onTracker_run)
  from Cons.IH [OF r] obtain new where
    n: "am' = am\<lparr>invoker_contract_trackers := invoker_contract_trackers am @
        [\<lparr>inv_contract_address = a, inv_tracker = tracker_new root\<rparr>] @ new\<rparr>"
      "length new = length es" "\<forall>t\<in>set new. is_out_of_scope t" by auto
  then show ?case
    by (intro exI [of _ "\<lparr>inv_contract_address = a, inv_tracker = tracker_new root\<rparr> # new"])
      (simp add: is_out_of_scope_def tracker_is_empty_def tracker_new_def)
qed (simp add: retM_def)

lemma manager_rel_new_entries:
  assumes "\<forall>t\<in>set new. is_out_of_scope t"
  shows "manager_rel am (am\<lparr>invoker_contract_trackers := invoker_contract_trackers am @ new\<rparr>)"
proof -
  let ?ts = "invoker_contract_trackers am"
  have "in_scope (?ts @ new) = in_scope ?ts" using assms by (simp add: in_scope_def filter_empty_conv)
  moreover have "scoped (?ts @ new)" if "scoped ?ts"
  proof -
    obtain A B where "?ts = A @ B" "\<forall>t\<in>set A. \<not> is_out_of_scope t" "\<forall>t\<in>set B. is_out_of_scope t"
      using \<open>scoped ?ts\<close> scoped_iff by blast
    with assms show ?thesis unfolding scoped_iff by (intro exI [of _ A] exI [of _ "B @ new"]) auto
  qed
  ultimately show ?thesis by (simp add: manager_rel_def list_all2_refl)
qed

lemma entered_ok: "manager_ok am \<Longrightarrow> manager_ok (entered f am)"
proof -
  have c: "cell_ok c \<Longrightarrow> cell_ok (pushed_cell c)" for c :: "('a, 'b, 'c) AccountAuthorizationTracker cell"
    by (cases c) (simp_all add: pushed_ok)
  have "scoped (map pushed_inv ts)" for ts :: "('a, 'b, 'c) InvokerContractAuthorizationTracker list"
    using scoped_all_in [of "map pushed_inv ts"]
    by (auto simp: pushed_inv_def is_out_of_scope_def tracker_is_empty_def pushed_def)
  then show "manager_ok am \<Longrightarrow> manager_ok (entered f am)"
    using c by (auto simp: manager_ok_def entered_def pushed_inv_def pushed_ok)
qed

section \<open>An instance\<close>

text \<open>Numbers as addresses and values; the host state is the list of used nonces, an account signs with its own number.\<close>

definition simple_ledger :: LedgerInfo where
  "simple_ledger = \<lparr>protocol_version = 20, sequence_number = 10, timestamp = 0, base_reserve = 1,
     min_temp_entry_ttl = 16, min_persistent_entry_ttl = 4096, max_entry_ttl = 100000\<rparr>"

definition simple_auth :: "(int list, nat, nat, nat) auth_host" where
  "simple_auth = \<lparr>cmp_address = (\<lambda>a b. retM (cmp_of a b)), cmp_symbol = (\<lambda>a b. retM (cmp_of a b)),
     cmp_args = (\<lambda>a b. retM (if a = b then Equal else Less)), cmp_create = (\<lambda>a b. retM (cmp_of a b)),
     init_cpy = (\<lambda>_ _. retM ()), clone_symbol = retM, clone_create = retM, address_handle = of_nat,
     contract_address_object = (\<lambda>i. retM (unat i)), source_account_address = retM None,
     address_from_xdr = retM, val_from_xdr = retM, function_from_xdr = retM,
     ledger_of = (\<lambda>_. Some simple_ledger), nonce_prng = retM 0,
     consume_nonce = (\<lambda>a n l ns. if n \<in> set ns then (Inl (Err Auth ExistingValue), ns) else (Inr (), n # ns)),
     check_auth = (\<lambda>a n sig root. guardM (sig = a) (ContractErr 1))\<rparr>"

interpretation simple: auth_callbacks simple_auth
  by unfold_locales (auto simp: simple_auth_def guardM_def)

definition simple_function :: "(nat, nat, nat) AuthorizedFunction" where
  "simple_function = ContractFn \<lparr>cf_address = 9, cf_name = 1, cf_args = [2]\<rparr>"

definition simple_manager :: "(nat, nat, nat) AuthorizationManager" where
  "simple_manager = \<lparr>auth_mode = AuthEnforcing, account_trackers =
      [Free \<lparr>acc_address = 5, acc_tracker = tracker_new (invocation_new simple_function []),
        acc_signature = 5, is_transaction_source_account = False, verified = False, acc_nonce = Some (3, 20)\<rparr>],
     invoker_contract_trackers = [], call_stack = []\<rparr>"

lemma simple_manager_ok: "manager_ok simple_manager" "auth_mode simple_manager = AuthEnforcing"
  by (simp_all add: manager_ok_def simple_manager_def scoped_def in_scope_def tracker_new_ok)

lemma simple_push:
  "push_frame simple_auth (Some (9, 1)) (simple_manager, ns) =
     (Inr (snap_manager (entered (FrameContract 9 1) simple_manager)), (entered (FrameContract 9 1) simple_manager, ns))"
  by (simp add: push_frame_def push_tracker_frame_def manager_snapshot_def simple_auth_def simple_manager_def entered_def
      snap_manager_def tracker_new_def invocation_new_def tracker_push_run pushed_def push_call_stack_def onTracker_run
      onHost_run bindM_def retM_def getM_def tracker_snapshot_def)

lemma simple_require:
  "require_auth simple_auth 0 5 [2] (entered (FrameContract 9 1) simple_manager, []) =
     (Inr (), ((entered (FrameContract 9 1) simple_manager)\<lparr>account_trackers :=
        [Free \<lparr>acc_address = 5, acc_tracker = \<lparr>root_authorized_invocation = Invocation simple_function [] True,
            match_stack = [RootMatch], root_exhausted_frame = Some 0, is_fully_processed = False\<rparr>,
          acc_signature = 5, is_transaction_source_account = False, verified = True, acc_nonce = Some (3, 20)\<rparr>]\<rparr>, [3]))"
  by (simp add: require_auth_def require_auth_internal_def maybe_check_invoker_contract_auth_def require_auth_enforcing_def
      simple_auth_def simple_manager_def simple_function_def entered_def tracker_new_def invocation_new_def pushed_def
      onHost_run onTracker_run bindM_def retM_def getM_def tracker_is_active_def current_frame_is_already_matched_def
      is_matched_def borrow_mut_def account_maybe_authorize_invocation_def zoomM_def maybe_extend_invocation_match_def
      compare_contract_function_def set_last_match_run set_exhausted_def usize_pred_def mapErrM_def authenticate_def
      guardM_def verify_and_consume_nonce_def with_ledger_info_def max_live_until_ledger_def simple_ledger_def okOrM_def
      checked_add_def saturating_sub_def)

section \<open>The guarantees\<close>

text \<open>
  C1: authorization is required and is used up. When \<open>require_auth\<close> succeeds in enforcing mode for
  an address, there is a current contract frame, and either the address is the contract that
  directly invoked the current one, or the multiset of authorizations that are still unused has
  lost at least one entry that was given for that address and for exactly the function and
  arguments of the current frame. No authorization is ever added, and the trackers stay well
  formed, also when the call fails with an error that a caller may catch. (What runs inside
  authentication is assumed to respect frames.)
\<close>

theorem authorization_is_consumed:
  assumes "auth_callbacks H" and "auth_mode am = AuthEnforcing" and "manager_ok am"
    and "require_auth H void address args (am, h) = (r, (am', h'))" and "settled r"
  shows "manager_ok am' \<and> manager_unused am' \<subseteq># manager_unused am \<and>
    (r = Inr () \<longrightarrow> call_stack am \<noteq> [] \<and> (\<exists>function h1 h2.
      to_authorized_function H (last (call_stack am)) args h1 = (Inr function, h2) \<and>
      (is_direct_invoker H am address \<or> consumed H address function am am')))"
  using auth_callbacks.require_auth_cases [OF assms(1,4,2,3,5)] manager_rel_unused by blast

theorem authorization_is_consumed_witness:
  "\<exists>am' h'. require_auth simple_auth 0 5 [2] (entered (FrameContract 9 1) simple_manager, []) = (Inr (), (am', h')) \<and>
     consumed simple_auth 5 simple_function (entered (FrameContract 9 1) simple_manager) am'"
proof -
  have "\<not> is_direct_invoker simple_auth (entered (FrameContract 9 1) simple_manager) 5"
    by (simp add: is_direct_invoker_def entered_def simple_manager_def)
  moreover have "to_authorized_function simple_auth (last (call_stack (entered (FrameContract 9 1) simple_manager))) [2] h1 =
      (Inr fn, h2) \<Longrightarrow> fn = simple_function" for fn h1 h2
    by (auto simp: entered_def simple_manager_def simple_auth_def simple_function_def m_simps)
  moreover have "auth_mode (entered (FrameContract 9 1) simple_manager) = AuthEnforcing"
    by (simp add: entered_def simple_manager_ok)
  ultimately show ?thesis
    using authorization_is_consumed [OF simple.auth_callbacks_axioms _ entered_ok [OF simple_manager_ok(1)] simple_require]
      simple_require by fastforce
qed

text \<open>
  C2: what a rollback restores. In enforcing mode a contract frame is entered, something that
  respects frames (as the contract programs of \<open>Call_Safety\<close> do) runs in it and ends with success
  or a recoverable error, and the frame is left with a rollback. If no entry supplied in the
  frame is still waiting for its call, this gives back the manager of the caller: every tracker,
  its tree of used and unused authorizations, its match stack and its flags, less the entries
  the caller had prepared for this very call, which a call that succeeds drops as well. If an
  entry is still waiting, leaving the frame fails with an internal error.
\<close>

theorem frame_rollback_restores:
  assumes "auth_mode am = AuthEnforcing" and "manager_ok am"
    and "push_frame H (Some (contract_id, name)) (am, h) = (Inr sn, (am1, h1))"
    and "respects_frames m" and "m (am1, h1) = (r, (am2, h2))" and "settled r"
  shows "if pending am2 then fst (pop_frame (Some sn) am2) = Inl auth_internal
    else pop_frame (Some sn) am2 =
      (Inr (), am\<lparr>invoker_contract_trackers := in_scope (invoker_contract_trackers am)\<rparr>)"
proof -
  obtain address where am1: "am1 = entered (FrameContract address name) am" "sn = snap_manager am1"
    using push_frame_Inr [OF assms(1,3)] by blast
  have "auth_mode am1 = AuthEnforcing" using am1(1) assms(1) by (simp add: entered_def)
  from respects_D [OF assms(4,5) this] have "manager_rel (entered (FrameContract address name) am) am2"
    using am1(1) entered_ok [OF assms(2)] assms(6) by blast
  from pop_frame_rollback [OF assms(2) this] show ?thesis using am1 by simp
qed

theorem frame_rollback_restores_witness:
  "\<exists>sn am1 am2. push_frame simple_auth (Some (9, 1)) (simple_manager, []) = (Inr sn, (am1, [])) \<and>
     require_auth simple_auth 0 5 [2] (am1, []) = (Inr (), (am2, [3])) \<and> pop_frame (Some sn) am2 = (Inr (), simple_manager)"
proof -
  obtain am2 where r: "require_auth simple_auth 0 5 [2] (entered (FrameContract 9 1) simple_manager, []) = (Inr (), (am2, [3]))"
    and np: "\<not> pending am2"
    using simple_require by (auto simp: pending_def entered_def simple_manager_def)
  have "simple_manager\<lparr>invoker_contract_trackers := in_scope (invoker_contract_trackers simple_manager)\<rparr> = simple_manager"
    by (simp add: simple_manager_def in_scope_def)
  with frame_rollback_restores [OF simple_manager_ok(2,1) simple_push simple.require_auth_respects r] np simple_push r
  show ?thesis by auto
qed

text \<open>
  C39: the exception. A contract that has supplied entries with \<open>authorize_as_curr_contract\<close> and
  then fails before making the call they are for cannot be rolled back: leaving its frame fails
  with an internal error, which no caller can catch.
\<close>

theorem pending_entries_break_rollback:
  assumes "auth_mode am = AuthEnforcing" and "manager_ok am"
    and "push_frame H (Some (contract_id, name)) (am, h) = (Inr sn, (am1, h1))"
    and "add_invoker_contract_auth H read_entry entries (am1, h1) = (Inr (), (am2, h2))" and "entries \<noteq> []"
  shows "fst (pop_frame (Some sn) am2) = Inl auth_internal \<and> \<not> is_recoverable auth_internal"
proof -
  obtain address where am1: "am1 = entered (FrameContract address name) am" "sn = snap_manager am1"
    using push_frame_Inr [OF assms(1,3)] by blast
  obtain h3 where e: "add_invoker_entries read_entry entries (am1, h3) = (Inr (), (am2, h2))"
    using assms(4) by (auto simp: add_invoker_contract_auth_def bindM_Inr onHost_Inr)
  obtain new where new: "am2 = am1\<lparr>invoker_contract_trackers := invoker_contract_trackers am1 @ new\<rparr>"
      "length new = length entries" "\<forall>t\<in>set new. is_out_of_scope t" using add_entries_Inr [OF e] by blast
  have "manager_rel (entered (FrameContract address name) am) am2"
    using manager_rel_new_entries [OF new(3)] new(1) am1(1) by simp
  moreover have "pending am2" using new assms(5) by (cases new) (auto simp: pending_def)
  ultimately show ?thesis using pop_frame_rollback(2) [OF assms(2)] am1 by simp
qed

theorem pending_entries_break_rollback_witness:
  "\<exists>sn am1 am2. push_frame simple_auth (Some (9, 1)) (simple_manager, []) = (Inr sn, (am1, [])) \<and>
     add_invoker_contract_auth simple_auth (\<lambda>e. retM (9, invocation_new e [])) [simple_function] (am1, []) = (Inr (), (am2, [])) \<and>
     fst (pop_frame (Some sn) am2) = Inl auth_internal"
proof -
  obtain am2 where a: "add_invoker_contract_auth simple_auth (\<lambda>e. retM (9, invocation_new e [])) [simple_function]
      (entered (FrameContract 9 1) simple_manager, []) = (Inr (), (am2, []))"
    by (auto simp: add_invoker_contract_auth_def simple_auth_def bindM_def onHost_run onTracker_run retM_def)
  show ?thesis using pending_entries_break_rollback [OF simple_manager_ok(2,1) simple_push a] simple_push a by auto
qed

end
