(* ===== verification/Host_Frame.thy ===== *)
theory Host_Frame
  imports Asset_Types Auth_Frames
begin

text \<open>
  Contract calls (\<^verbatim>\<open>soroban-env-host/src/host/frame.rs\<close>, \<^verbatim>\<open>host/lifecycle.rs\<close>, the call,
  authorization and deployment functions of \<^verbatim>\<open>host.rs\<close>, \<^verbatim>\<open>builtin_contracts/account_contract.rs\<close>
  and \<^verbatim>\<open>invoker_contract_auth.rs\<close>).

  The state is the pair of the authorization manager and the host. Contract code is a \<open>guest\<close>: it
  returns a value, traps, or calls a function of the host and goes on with the answer; an error of
  a host function ends it. What a guest does between calls, and host functions that concern
  nothing but objects and the budget, are operations on the object table (\<open>CallObjects\<close>); a closure
  of \<open>with_mut_storage\<close>, which built-in contracts use, is \<open>CallStorage\<close>. The virtual machine, the XDR
  conversions, hashing and the object table are the record \<open>frame_env\<close>. The host is taken at
  diagnostic level \<open>None\<close>; \<open>Host_Events\<close> shows that the level makes no difference.

  The functions that may run contract code take an argument \<open>run\<close>, which runs a function of a
  contract; \<open>Host_Run\<close> closes the recursion.
\<close>

section \<open>Data\<close>

datatype ContractIdPreimage = PreimageFromAddress ScAddress u256 | PreimageFromAsset Asset

record CreateContractArgs =
  contract_id_preimage :: ContractIdPreimage
  create_executable :: ContractExecutable

datatype ContractReentryMode = Prohibited | SelfAllowed | Allowed

type_synonym manager = "(Val, Val, CreateContractArgs) AuthorizationManager"
type_synonym call_tree = "(Val, Val, CreateContractArgs) auth_tree"
type_synonym ('p, 'x, 'z) txState = "manager \<times> ('p, 'x, 'z) HostState"
type_synonym ('p, 'x, 'z, 'r) txM = "(('p, 'x, 'z) txState, 'r) hm"

record ('p, 'x) RollbackPoint =
  rp_storage :: "('p LedgerKey, 'x EntryData EntryWithLiveUntil option) ord_map"
  rp_events :: nat
  rp_auth :: "(Val, Val, CreateContractArgs) AuthorizationManagerSnapshot"

text \<open>Entries of \<open>authorize_as_curr_contract\<close>, as decoded from host values.\<close>

datatype InvokerContractAuthEntry =
    ContractEntry Val Val Val "InvokerContractAuthEntry list"
  | CreateContractEntry ContractExecutable u256

datatype ('p, 'x, 'z) host_call =
    CallObjects "('z, Val) objM"
  | CallStorage "('p, 'x EntryData, Val) storing"
  | CallData data_op
  | CallEvent Val Val
  | CallExtendCurrent u32 u32
  | CallExtend Val u32 u32
  | CallRequireAuth Val
  | CallRequireAuthForArgs Val Val
  | CallAuthorizeAsCurrContract Val
  | CallContract Val Val Val
  | CallTryContract Val Val Val
  | CallCreateContract Val Val Val
  | CallCreateAssetContract Val
  | CallUploadWasm Val
  | CallUpdateWasm Val

datatype ('p, 'x, 'z) guest =
    Return Val
  | Trap Error
  | Do "('p, 'x, 'z) host_call" "Val \<Rightarrow> ('p, 'x, 'z) guest"

record ('p, 'x, 'z, 'el, 'sg, 'bo) frame_env =
  henv :: "('p, 'x, 'z) host_env"
  senv :: "('z, 'el, 'sg, 'bo) sig_env"
  numbering :: ErrorNumbering
  compare_obj :: "Val \<Rightarrow> Val \<Rightarrow> ('z, Ordering) objM"
  compare_args :: "Val list \<Rightarrow> Val list \<Rightarrow> ('z, Ordering) objM"
  compare_create :: "CreateContractArgs \<Rightarrow> CreateContractArgs \<Rightarrow> ('z, Ordering) objM"
  clone_create_args :: "CreateContractArgs \<Rightarrow> CreateContractArgs metered"
  source_account_obj :: "('z, Val option) objM"
  random_nonce :: "('z, int) objM"
  symbol_string :: "Val \<Rightarrow> ('z, string) objM"
  vec_to_vals :: "Val \<Rightarrow> ('z, Val list) objM"
  scaddress_of :: "Val \<Rightarrow> ('z, ScAddress) objM"
  address_obj :: "ScAddress \<Rightarrow> ('z, Val) objM"
  bytes_obj :: "u256 \<Rightarrow> ('z, Val) objM"
  obj_u256 :: "Val \<Rightarrow> ('z, u256) objM"
  obj_bytes :: "Val \<Rightarrow> ('z, u8 list) objM"
  obj_asset :: "Val \<Rightarrow> ('z, Asset) objM"
  signature_payload :: "(int \<times> u32) option \<Rightarrow> call_tree \<Rightarrow> ('z, u256) objM"
  auth_contexts :: "call_tree \<Rightarrow> ('z, Val) objM"
  check_auth_symbol :: "('z, Val) objM"
  invoker_auth_entry :: "Val \<Rightarrow> ('z, InvokerContractAuthEntry) objM"
  preimage_hash :: "ContractIdPreimage \<Rightarrow> ('z, u256) objM"
  init_asset_call :: "Asset \<Rightarrow> ('z, Val \<times> Val list) objM"
  update_event :: "ContractExecutable \<Rightarrow> ContractExecutable \<Rightarrow> ('z, Val \<times> Val) objM"
  sha256 :: "u8 list \<Rightarrow> ('z, u256) objM"
  vm_new :: "u256 \<Rightarrow> u8 list \<Rightarrow> ('z, unit) objM"
  wasm_guest :: "u8 list \<Rightarrow> Val \<Rightarrow> Val list \<Rightarrow> ('p, 'x, 'z) guest"
  aenv :: "('p, 'z) asset_env"

abbreviation onObj :: "('z, 'r) objM \<Rightarrow> ('p, 'x, 'z, 'r) txM" where
  "onObj m \<equiv> onHost (onObjects m)"

abbreviation onMeter :: "'r metered \<Rightarrow> ('p, 'x, 'z, 'r) txM" where
  "onMeter m \<equiv> onHost (onB m)"

definition onAuth :: "(manager, 'r) hm \<Rightarrow> ('p, 'x, 'z, 'r) txM" where
  "onAuth m = zoomM fst (\<lambda>am (_, h). (am, h)) m"

text \<open>The result of an operation, as a value.\<close>

definition tryM :: "('s, 'r) hm \<Rightarrow> ('s, Error + 'r) hm" where
  "tryM m = (\<lambda>s. case m s of (r, s') \<Rightarrow> (Inr r, s'))"

section \<open>Contexts\<close>

definition storage_map_type :: "('p LedgerKey, 'x EntryData EntryWithLiveUntil option) ord_map metered_type" where
  "storage_map_type = vec_type (pair_type rc_type (option_type (pair_type rc_type (option_type (shallow_type 4)))))"

fun auth_frame :: "'x Frame \<Rightarrow> (u256 \<times> Val) option" where
  "auth_frame (ContractVM i fn_name _ _ _) = Some (i, fn_name)"
| "auth_frame (HostFunctionFrame _) = None"
| "auth_frame (StellarAssetContractFrame i fn_name _ _) = Some (i, fn_name)"

definition push_context ::
  "(('p, 'x, 'z) HostState, Val, Val, CreateContractArgs) auth_host \<Rightarrow> 'x Context \<Rightarrow>
     ('p, 'x, 'z, ('p, 'x) RollbackPoint) txM" where
  "push_context H ctx =
     bindM (push_frame H (auth_frame (frame ctx))) (\<lambda>auth_snapshot.
     bindM (onHost (getM (\<lambda>h. smap (hstorage h)))) (\<lambda>m.
     bindM (onMeter (metered_clone storage_map_type m)) (\<lambda>m.
     bindM (onHost (getM (\<lambda>h. length (hevents h)))) (\<lambda>n.
     thenM (onMeter (vec_init_cpy 512 1))
     (thenM (onHost (modifyM (\<lambda>h. h\<lparr>context_stack := context_stack h @ [ctx]\<rparr>)))
       (retM \<lparr>rp_storage = m, rp_events = n, rp_auth = auth_snapshot\<rparr>))))))"

text \<open>Recording mode only: what authentication would read is read.\<close>

fun emulate_loop ::
  "('p, 'x, 'z, 'el, 'sg, 'bo) frame_env \<Rightarrow>
     (Val, Val, CreateContractArgs) AccountAuthorizationTracker cell list \<Rightarrow> ('p, 'x, 'z, unit) hostM" where
  "emulate_loop E [] = retM ()"
| "emulate_loop E (Borrowed # cs) = throwM context_internal"
| "emulate_loop E (Free t # cs) =
     thenM (if is_transaction_source_account t then retM ()
       else bindM (onObjects (scaddress_of E (acc_address t))) (\<lambda>sc_addr.
         thenM (onObjects (signature_payload E (acc_nonce t) (root_authorized_invocation (acc_tracker t))))
         (case sc_addr of
            AccountAddr acc \<Rightarrow> bindM (load_account (henv E) acc) (\<lambda>_. retM ())
          | ContractAddr _ \<Rightarrow> retM ())))
     (emulate_loop E cs)"

definition maybe_emulate_authentication :: "('p, 'x, 'z, 'el, 'sg, 'bo) frame_env \<Rightarrow> ('p, 'x, 'z, unit) txM" where
  "maybe_emulate_authentication E =
     bindM (getM fst) (\<lambda>am. case auth_mode am of
       AuthEnforcing \<Rightarrow> retM ()
     | AuthRecording _ _ \<Rightarrow> onHost (emulate_loop E (account_trackers am)))"

definition pop_context ::
  "('p, 'x, 'z, 'el, 'sg, 'bo) frame_env \<Rightarrow> ('p, 'x) RollbackPoint option \<Rightarrow> ('p, 'x, 'z, 'x Context) txM" where
  "pop_context E orp =
     bindM (onHost (getM context_stack)) (\<lambda>cs.
     thenM (onHost (modifyM (\<lambda>h. h\<lparr>context_stack := butlast cs\<rparr>)))
     (thenM (if butlast cs = [] then maybe_emulate_authentication E else retM ())
     (bindM (case orp of
         Some rp \<Rightarrow>
           thenM (onHost (modifyM (\<lambda>h. h\<lparr>hstorage := (hstorage h)\<lparr>smap := rp_storage rp\<rparr>,
             hevents := events_rollback (rp_events rp) (hevents h)\<rparr>)))
           (retM (Some (rp_auth rp)))
       | None \<Rightarrow> retM None) (\<lambda>auth_snapshot.
     thenM (onAuth (pop_frame auth_snapshot))
       (if cs = [] then throwM context_internal else retM (last cs))))))"

text \<open>A frame that returns an error value has failed; only contract errors pass as they are.\<close>

definition escalate :: "ErrorNumbering \<Rightarrow> Error + Val \<Rightarrow> Error + Val" where
  "escalate N res = (case res of
     Inr v \<Rightarrow>
       (if has_tag v TagError then
          (if error_is_type N v None then Inl (ContractErr (get_major v)) else Inl (Err Context InvalidAction))
        else Inr v)
   | Inl e \<Rightarrow> Inl e)"

definition with_frame ::
  "('p, 'x, 'z, 'el, 'sg, 'bo) frame_env \<Rightarrow> (('p, 'x, 'z) HostState, Val, Val, CreateContractArgs) auth_host \<Rightarrow>
     'x Frame \<Rightarrow> ('p, 'x, 'z, Val) txM \<Rightarrow> ('p, 'x, 'z, Val) txM" where
  "with_frame E H fr f =
     bindM (onHost (getM (\<lambda>h. length (context_stack h)))) (\<lambda>start_depth.
     if (of_nat start_depth :: u32) \<ge> DEFAULT_HOST_DEPTH_LIMIT then throwM (Err Context ExceededLimit)
     else bindM (push_context H \<lparr>frame = fr, ctx_storage = None\<rparr>) (\<lambda>rp.
     bindM (tryM f) (\<lambda>res.
     bindM (case escalate (numbering E) res of
         Inr v \<Rightarrow> bindM (tryM (onHost (persist_instance_storage (henv E)))) (\<lambda>p.
           retM (case p of Inl e \<Rightarrow> Inl e | Inr _ \<Rightarrow> Inr v))
       | Inl e \<Rightarrow> retM (Inl e)) (\<lambda>res.
     thenM (pop_context E (case res of Inl _ \<Rightarrow> Some rp | Inr _ \<Rightarrow> None))
     (bindM (onHost (getM (\<lambda>h. length (context_stack h)))) (\<lambda>end_depth.
       if start_depth \<noteq> end_depth then throwM context_internal else ofSum res))))))"

section \<open>Calling contracts\<close>

text \<open>How a contract function is run: \<open>None\<close> stands for the built-in asset contract.\<close>

type_synonym ('p, 'x, 'z) runner = "u8 list option \<Rightarrow> Val \<Rightarrow> Val list \<Rightarrow> ('p, 'x, 'z, Val) txM"

text \<open>What the authorization manager is given by the host, all but the authentication.\<close>

definition base_host ::
  "('p, 'x, 'z, 'el, 'sg, 'bo) frame_env \<Rightarrow> (('p, 'x, 'z) HostState, Val, Val, CreateContractArgs) auth_host" where
  "base_host E = \<lparr>
     cmp_address = (\<lambda>a b. onObjects (compare_obj E a b)), cmp_symbol = (\<lambda>a b. onObjects (compare_obj E a b)),
     cmp_args = (\<lambda>a b. onObjects (compare_args E a b)), cmp_create = (\<lambda>a b. onObjects (compare_create E a b)),
     init_cpy = (\<lambda>sz n. onB (vec_init_cpy sz n)), clone_symbol = (\<lambda>v. onB (clone_sized 8 v)),
     clone_create = (\<lambda>c. onB (clone_create_args E c)), address_handle = object_get_handle,
     contract_address_object = (\<lambda>i. bindM (onB (clone_sized 32 i)) (\<lambda>i. onObjects (address_obj E (ContractAddr i)))),
     source_account_address = onObjects (source_account_obj E),
     address_from_xdr = retM, val_from_xdr = retM, function_from_xdr = retM,
     ledger_of = hledger, nonce_prng = onObjects (random_nonce E),
     consume_nonce = consume_nonce_at (henv E) (scaddress_of E),
     check_auth = (\<lambda>_ _ _ _. throwM auth_internal)\<rparr>"

definition call_contract_fn ::
  "('p, 'x, 'z, 'el, 'sg, 'bo) frame_env \<Rightarrow> ('p, 'x, 'z) runner \<Rightarrow> u256 \<Rightarrow> Val \<Rightarrow> Val list \<Rightarrow>
     ('p, 'x, 'z, Val) txM" where
  "call_contract_fn E run contract_id func args =
     bindM (onHost (contract_instance_ledger_key (henv E) contract_id)) (\<lambda>storage_key.
     bindM (onHost (retrieve_contract_instance_from_storage (henv E) storage_key)) (\<lambda>ins.
     thenM (onMeter (vec_init_cpy 8 (length args)))
     (case executable ins of
        Wasm wasm_hash \<Rightarrow>
          bindM (onHost (retrieve_wasm_from_storage (henv E) wasm_hash)) (\<lambda>code.
          bindM (onMeter (clone_sized 32 contract_id)) (\<lambda>i.
          thenM (onObj (vm_new E i code))
            (with_frame E (base_host E) (ContractVM i func args ins []) (run (Some code) func args))))
      | StellarAsset \<Rightarrow>
          bindM (onMeter (clone_sized 32 contract_id)) (\<lambda>i.
            with_frame E (base_host E) (StellarAssetContractFrame i func args ins) (run None func args)))))"

fun position :: "'a \<Rightarrow> 'a list \<Rightarrow> nat option" where
  "position x [] = None"
| "position x (y # ys) = (if y = x then Some 0 else map_option Suc (position x ys))"

definition RESERVED_CONTRACT_FN_PREFIX :: string where
  "RESERVED_CONTRACT_FN_PREFIX = ''__''"

definition caller_ids :: "'x Context list \<Rightarrow> u256 list" where
  "caller_ids cs = List.map_filter (\<lambda>c. frame_contract_id (frame c)) (rev cs)"

fun reentry_allowed :: "ContractReentryMode \<Rightarrow> nat option \<Rightarrow> bool" where
  "reentry_allowed _ None = True"
| "reentry_allowed Allowed _ = True"
| "reentry_allowed SelfAllowed (Some 0) = True"
| "reentry_allowed SelfAllowed (Some _) = False"
| "reentry_allowed Prohibited (Some _) = False"

definition call_n_internal ::
  "('p, 'x, 'z, 'el, 'sg, 'bo) frame_env \<Rightarrow> ('p, 'x, 'z) runner \<Rightarrow> u256 \<Rightarrow> Val \<Rightarrow> Val list \<Rightarrow>
     ContractReentryMode \<Rightarrow> bool \<Rightarrow> ('p, 'x, 'z, Val) txM" where
  "call_n_internal E run contract_id func args reentry_mode internal_host_call =
     thenM (if internal_host_call then retM ()
       else bindM (onObj (symbol_string E func)) (\<lambda>name.
         if take (length RESERVED_CONTRACT_FN_PREFIX) name = RESERVED_CONTRACT_FN_PREFIX
         then throwM (Err Context InvalidAction) else retM ()))
     (thenM (if reentry_mode = Allowed then retM ()
       else bindM (onHost (getM context_stack)) (\<lambda>cs.
         if reentry_allowed reentry_mode (position contract_id (caller_ids cs)) then retM ()
         else throwM (Err Context InvalidAction)))
     (call_contract_fn E run contract_id func args))"

text \<open>Authentication of an address: a classic account, or a contract that checks for itself.\<close>

definition check_account_contract_auth ::
  "('p, 'x, 'z, 'el, 'sg, 'bo) frame_env \<Rightarrow> ('p, 'x, 'z) runner \<Rightarrow> u256 \<Rightarrow> u256 \<Rightarrow> Val \<Rightarrow> call_tree \<Rightarrow>
     ('p, 'x, 'z, unit) txM" where
  "check_account_contract_auth E run account_contract payload signature invocation =
     bindM (onObj (bytes_obj E payload)) (\<lambda>payload_obj.
     bindM (onObj (auth_contexts E invocation)) (\<lambda>auth_context_vec.
     bindM (onObj (check_auth_symbol E)) (\<lambda>fn_name.
     bindM (call_n_internal E run account_contract fn_name [payload_obj, signature, auth_context_vec] SelfAllowed True) (\<lambda>v.
       if has_tag v TagVoid then retM () else throwM (Err Value UnexpectedType)))))"

definition authenticate_address ::
  "('p, 'x, 'z, 'el, 'sg, 'bo) frame_env \<Rightarrow> ('p, 'x, 'z) runner \<Rightarrow> Val \<Rightarrow> (int \<times> u32) option \<Rightarrow> Val \<Rightarrow> call_tree \<Rightarrow>
     ('p, 'x, 'z, unit) txM" where
  "authenticate_address E run address nonce signature invocation =
     bindM (onObj (scaddress_of E address)) (\<lambda>sc_addr.
     bindM (if nonce = None then throwM auth_internal else onObj (signature_payload E nonce invocation)) (\<lambda>payload.
     case sc_addr of
       AccountAddr acc \<Rightarrow> onHost (check_account_authentication (henv E) (senv E) acc payload signature)
     | ContractAddr acc_contract \<Rightarrow> check_account_contract_auth E run acc_contract payload signature invocation))"

definition frame_host ::
  "('p, 'x, 'z, 'el, 'sg, 'bo) frame_env \<Rightarrow> ('p, 'x, 'z) runner \<Rightarrow>
     (('p, 'x, 'z) HostState, Val, Val, CreateContractArgs) auth_host" where
  "frame_host E run = (base_host E)\<lparr>check_auth := authenticate_address E run\<rparr>"

section \<open>Authorization functions\<close>

abbreviation unitM :: "('s, unit) hm \<Rightarrow> ('s, Val) hm" where
  "unitM m \<equiv> thenM m (retM from_void)"

definition require_auth_for_args ::
  "('p, 'x, 'z, 'el, 'sg, 'bo) frame_env \<Rightarrow> ('p, 'x, 'z) runner \<Rightarrow> Val \<Rightarrow> Val \<Rightarrow> ('p, 'x, 'z, Val) txM" where
  "require_auth_for_args E run address args =
     bindM (onObj (vec_to_vals E args)) (\<lambda>args.
       unitM (require_auth (frame_host E run) from_void address args))"

definition require_auth_fn ::
  "('p, 'x, 'z, 'el, 'sg, 'bo) frame_env \<Rightarrow> ('p, 'x, 'z) runner \<Rightarrow> Val \<Rightarrow> ('p, 'x, 'z, Val) txM" where
  "require_auth_fn E run address =
     bindM (onHost (with_current_frame (\<lambda>f. case f of
         ContractVM _ _ args _ _ \<Rightarrow> onB (metered_clone (vec_type (shallow_type 8)) args)
       | HostFunctionFrame _ \<Rightarrow> throwM context_internal
       | StellarAssetContractFrame _ _ args _ \<Rightarrow> onB (metered_clone (vec_type (shallow_type 8)) args)))) (\<lambda>args.
       unitM (require_auth (frame_host E run) from_void address args))"

fun to_authorized_invocation ::
  "('p, 'x, 'z, 'el, 'sg, 'bo) frame_env \<Rightarrow> ScAddress \<Rightarrow> InvokerContractAuthEntry \<Rightarrow> ('p, 'x, 'z, call_tree) hostM" where
  "to_authorized_invocation E invoker (ContractEntry contract fn_name args subs) =
     bindM (onObjects (vec_to_vals E args)) (\<lambda>args.
     thenM (onB (vec_init_cpy 136 (length subs)))
     (bindM (collectM (map (to_authorized_invocation E invoker) subs)) (\<lambda>subs.
       retM (invocation_new (ContractFn \<lparr>cf_address = contract, cf_name = fn_name, cf_args = args\<rparr>) subs))))"
| "to_authorized_invocation E invoker (CreateContractEntry exec salt) =
     (case exec of
        Wasm wasm_hash \<Rightarrow> bindM (onB (clone_sized 33 invoker)) (\<lambda>address.
          retM (invocation_new (CreateContractHostFn \<lparr>contract_id_preimage = PreimageFromAddress address salt,
            create_executable = Wasm wasm_hash\<rparr>) []))
      | StellarAsset \<Rightarrow> throwM auth_internal)"

definition invoker_tracker_entry ::
  "('p, 'x, 'z, 'el, 'sg, 'bo) frame_env \<Rightarrow> Val \<Rightarrow> ('p, 'x, 'z, Val \<times> call_tree) hostM" where
  "invoker_tracker_entry E e =
     bindM get_current_contract_id_internal (\<lambda>i.
     bindM (onObjects (invoker_auth_entry E e)) (\<lambda>entry.
     bindM (to_authorized_invocation E (ContractAddr i) entry) (\<lambda>root.
     bindM (onObjects (address_obj E (ContractAddr i))) (\<lambda>address. retM (address, root)))))"

definition authorize_as_curr_contract ::
  "('p, 'x, 'z, 'el, 'sg, 'bo) frame_env \<Rightarrow> Val \<Rightarrow> ('p, 'x, 'z, Val) txM" where
  "authorize_as_curr_contract E auth_entries =
     bindM (onObj (vec_to_vals E auth_entries)) (\<lambda>auth_entries.
       unitM (add_invoker_contract_auth (base_host E) (invoker_tracker_entry E) auth_entries))"

section \<open>Calls from contracts\<close>

definition contract_id_from_address ::
  "('p, 'x, 'z, 'el, 'sg, 'bo) frame_env \<Rightarrow> Val \<Rightarrow> ('p, 'x, 'z, u256) hostM" where
  "contract_id_from_address E address =
     bindM (onObjects (scaddress_of E address)) (\<lambda>addr. case addr of
       AccountAddr _ \<Rightarrow> throwM (Err Object InvalidInput)
     | ContractAddr i \<Rightarrow> retM i)"

definition call_fn ::
  "('p, 'x, 'z, 'el, 'sg, 'bo) frame_env \<Rightarrow> ('p, 'x, 'z) runner \<Rightarrow> Val \<Rightarrow> Val \<Rightarrow> Val \<Rightarrow> ('p, 'x, 'z, Val) txM" where
  "call_fn E run contract_address func args =
     bindM (onObj (vec_to_vals E args)) (\<lambda>argvec.
     bindM (onHost (contract_id_from_address E contract_address)) (\<lambda>i.
       call_n_internal E run i func argvec Prohibited False))"

definition recovered_value :: "ErrorNumbering \<Rightarrow> Error \<Rightarrow> Val" where
  "recovered_value N e = (case e of
     ContractErr c \<Rightarrow> from_scerror N (ContractErr c)
   | Err _ _ \<Rightarrow> from_scerror N (Err Context InvalidAction))"

definition try_call_fn ::
  "('p, 'x, 'z, 'el, 'sg, 'bo) frame_env \<Rightarrow> ('p, 'x, 'z) runner \<Rightarrow> Val \<Rightarrow> Val \<Rightarrow> Val \<Rightarrow> ('p, 'x, 'z, Val) txM" where
  "try_call_fn E run contract_address func args =
     bindM (onObj (vec_to_vals E args)) (\<lambda>argvec.
     bindM (onHost (contract_id_from_address E contract_address)) (\<lambda>i.
     bindM (tryM (call_n_internal E run i func argvec Prohibited False)) (\<lambda>res. case res of
         Inr rv \<Rightarrow> retM rv
       | Inl e \<Rightarrow> if is_recoverable e then retM (recovered_value (numbering E) e) else throwM e)))"

section \<open>Creating contracts\<close>

definition create_contract_with_id ::
  "('p, 'x, 'z, 'el, 'sg, 'bo) frame_env \<Rightarrow> u256 \<Rightarrow> ContractExecutable \<Rightarrow> ('p, 'x, 'z, unit) hostM" where
  "create_contract_with_id E contract_id contract_executable =
     bindM (contract_instance_ledger_key (henv E) contract_id) (\<lambda>storage_key.
     bindM (onStore (storage_has (key_cmp (henv E)) storage_key)) (\<lambda>present.
       if present then throwM (Err Storage ExistingValue)
       else thenM (case contract_executable of
           Wasm wasm_hash \<Rightarrow> bindM (wasm_exists (henv E) wasm_hash) (\<lambda>b.
             if b then retM () else throwM (Err Storage MissingValue))
         | StellarAsset \<Rightarrow> retM ())
       (store_contract_instance (henv E) (Some contract_executable) None contract_id storage_key)))"

definition maybe_initialize_stellar_asset_contract ::
  "('p, 'x, 'z, 'el, 'sg, 'bo) frame_env \<Rightarrow> ('p, 'x, 'z) runner \<Rightarrow> u256 \<Rightarrow> ContractIdPreimage \<Rightarrow> ('p, 'x, 'z, unit) txM" where
  "maybe_initialize_stellar_asset_contract E run contract_id preimage =
     (case preimage of
        PreimageFromAsset asset \<Rightarrow>
          bindM (onObj (init_asset_call E asset)) (\<lambda>(init_asset, args).
          bindM (call_n_internal E run contract_id init_asset args Prohibited False) (\<lambda>_. retM ()))
      | PreimageFromAddress _ _ \<Rightarrow> retM ())"

definition create_contract_with_optional_auth ::
  "('p, 'x, 'z, 'el, 'sg, 'bo) frame_env \<Rightarrow> ('p, 'x, 'z) runner \<Rightarrow> Val option \<Rightarrow> CreateContractArgs \<Rightarrow>
     ('p, 'x, 'z, Val) txM" where
  "create_contract_with_optional_auth E run deployer args =
     thenM (case deployer of
         Some deployer_address \<Rightarrow> require_auth (frame_host E run) from_void deployer_address []
       | None \<Rightarrow> retM ())
     (bindM (onObj (preimage_hash E (contract_id_preimage args))) (\<lambda>hash_id.
     bindM (onMeter (clone_sized 32 hash_id)) (\<lambda>hash_id.
     thenM (onHost (create_contract_with_id E hash_id (create_executable args)))
     (thenM (maybe_initialize_stellar_asset_contract E run hash_id (contract_id_preimage args))
       (onObj (address_obj E (ContractAddr hash_id)))))))"

definition create_contract_internal ::
  "('p, 'x, 'z, 'el, 'sg, 'bo) frame_env \<Rightarrow> ('p, 'x, 'z) runner \<Rightarrow> Val option \<Rightarrow> CreateContractArgs \<Rightarrow>
     ('p, 'x, 'z, Val) txM" where
  "create_contract_internal E run deployer args =
     thenM (if deployer \<noteq> None then
         bindM (onMeter (clone_create_args E args)) (\<lambda>a. push_create_contract_host_fn_frame (base_host E) a)
       else retM ())
     (bindM (tryM (create_contract_with_optional_auth E run deployer args)) (\<lambda>res.
     thenM (if deployer \<noteq> None then onAuth (pop_frame None) else retM ()) (ofSum res)))"

definition create_contract ::
  "('p, 'x, 'z, 'el, 'sg, 'bo) frame_env \<Rightarrow> ('p, 'x, 'z) runner \<Rightarrow> Val \<Rightarrow> Val \<Rightarrow> Val \<Rightarrow> ('p, 'x, 'z, Val) txM" where
  "create_contract E run deployer wasm_hash salt =
     bindM (onObj (scaddress_of E deployer)) (\<lambda>address.
     bindM (onObj (obj_u256 E salt)) (\<lambda>salt.
     bindM (onObj (obj_u256 E wasm_hash)) (\<lambda>wasm_hash.
       create_contract_internal E run (Some deployer)
         \<lparr>contract_id_preimage = PreimageFromAddress address salt, create_executable = Wasm wasm_hash\<rparr>)))"

definition create_asset_contract ::
  "('p, 'x, 'z, 'el, 'sg, 'bo) frame_env \<Rightarrow> ('p, 'x, 'z) runner \<Rightarrow> Val \<Rightarrow> ('p, 'x, 'z, Val) txM" where
  "create_asset_contract E run serialized_asset =
     bindM (onObj (obj_asset E serialized_asset)) (\<lambda>asset.
       create_contract_internal E run None
         \<lparr>contract_id_preimage = PreimageFromAsset asset, create_executable = StellarAsset\<rparr>)"

definition upload_contract_wasm ::
  "('p, 'x, 'z, 'el, 'sg, 'bo) frame_env \<Rightarrow> u8 list \<Rightarrow> ('p, 'x, 'z, Val) hostM" where
  "upload_contract_wasm E wasm =
     bindM (onObjects (sha256 E wasm)) (\<lambda>hash_bytes.
     if 2 ^ 32 \<le> length wasm then throwM (Err Value ExceededLimit)
     else bindM (onB (clone_sized 32 hash_bytes)) (\<lambda>h.
     thenM (onObjects (vm_new E h wasm))
     (bindM (onObjects (bytes_obj E hash_bytes)) (\<lambda>hash_obj.
     bindM (contract_code_ledger_key (henv E) hash_bytes) (\<lambda>code_key.
     bindM (onStore (storage_has (key_cmp (henv E)) code_key)) (\<lambda>present.
     thenM (if present then retM ()
       else bindM (new_contract_code hash_bytes wasm) (\<lambda>entry.
         bindM (min_live_until Persistent) (\<lambda>live.
           onStore (storage_put (key_cmp (henv E)) code_key entry (Some live)))))
     (retM hash_obj)))))))"

section \<open>Events and updates\<close>

definition onEvents :: "((Val, Val, 'x) events_buffer \<times> BudgetImpl, 'r) hm \<Rightarrow> ('p, 'x, 'z, 'r) hostM" where
  "onEvents m = zoomM (\<lambda>h. (hevents h, hbudget h)) (\<lambda>(ev, b) h. h\<lparr>hevents := ev, hbudget := b\<rparr>) m"

definition bytesobj_from_internal_contract_id ::
  "('p, 'x, 'z, 'el, 'sg, 'bo) frame_env \<Rightarrow> ('p, 'x, 'z, Val option) hostM" where
  "bytesobj_from_internal_contract_id E =
     bindM get_current_contract_id_opt_internal (\<lambda>opt. case opt of
       Some i \<Rightarrow> bindM (onObjects (bytes_obj E i)) (\<lambda>obj. retM (Some obj))
     | None \<Rightarrow> retM None)"

definition record_contract_event ::
  "('p, 'x, 'z, 'el, 'sg, 'bo) frame_env \<Rightarrow> ContractEventType \<Rightarrow> Val \<Rightarrow> Val \<Rightarrow> ('p, 'x, 'z, unit) hostM" where
  "record_contract_event E ty topics data =
     bindM (bytesobj_from_internal_contract_id E) (\<lambda>i.
       onEvents (events_record NoDiagnostics
         (ContractEv \<lparr>ce_type = ty, ce_contract_id = i, ce_topics = topics, ce_data = data\<rparr>)))"

definition emit_update_contract_event ::
  "('p, 'x, 'z, 'el, 'sg, 'bo) frame_env \<Rightarrow> ContractExecutable \<Rightarrow> ContractExecutable \<Rightarrow> ('p, 'x, 'z, unit) hostM" where
  "emit_update_contract_event E old_executable new_executable =
     bindM (onObjects (update_event E old_executable new_executable)) (\<lambda>(topics, data).
       record_contract_event E SystemEvent topics data)"

definition update_current_contract_wasm ::
  "('p, 'x, 'z, 'el, 'sg, 'bo) frame_env \<Rightarrow> Val \<Rightarrow> ('p, 'x, 'z, Val) hostM" where
  "update_current_contract_wasm E hash =
     bindM (onObjects (obj_u256 E hash)) (\<lambda>wasm_hash.
     bindM (wasm_exists (henv E) wasm_hash) (\<lambda>b.
     if \<not> b then throwM (Err Storage MissingValue)
     else bindM get_current_contract_id_internal (\<lambda>curr_contract_id.
     bindM (contract_instance_ledger_key (henv E) curr_contract_id) (\<lambda>key.
     bindM (retrieve_contract_instance_from_storage (henv E) key) (\<lambda>old_instance.
     thenM (emit_update_contract_event E (executable old_instance) (Wasm wasm_hash))
     (thenM (store_contract_instance (henv E) (Some (Wasm wasm_hash)) None curr_contract_id key)
       (retM from_void)))))))"

end
