(* ===== verification/Asset_Balance.thy ===== *)
theory Asset_Balance
  imports Host_Frame
begin

text \<open>
  Storage of the built-in asset contract (\<^verbatim>\<open>builtin_contracts/stellar_asset_contract\<close>: \<^verbatim>\<open>asset_info.rs\<close>,
  \<^verbatim>\<open>admin.rs\<close>, \<^verbatim>\<open>metadata.rs\<close>, \<^verbatim>\<open>balance.rs\<close>, \<^verbatim>\<open>allowance.rs\<close>).

  Balances of accounts live in classic ledger entries, the account entry for the native asset and
  a trustline otherwise; balances of contracts and allowances live in the contract's own data.
  Unchecked \<open>i64\<close> arithmetic wraps, as in a release build.
\<close>

section \<open>The asset (asset\_info.rs, admin.rs)\<close>

definition write_asset_info :: "('p, 'x, 'z, 'el, 'sg, 'bo) frame_env \<Rightarrow> AssetInfo \<Rightarrow> ('p, 'x, 'z, unit) hostM" where
  "write_asset_info E asset_info =
     bindM (onObjects (instance_key_val (aenv E) AssetInfoKey)) (\<lambda>key.
     bindM (onObjects (asset_info_val (aenv E) asset_info)) (\<lambda>v.
     thenM (put_contract_data (henv E) key v InstanceStorage) (retM ())))"

definition read_asset_info :: "('p, 'x, 'z, 'el, 'sg, 'bo) frame_env \<Rightarrow> ('p, 'x, 'z, AssetInfo) hostM" where
  "read_asset_info E =
     bindM (onObjects (instance_key_val (aenv E) AssetInfoKey)) (\<lambda>key.
     bindM (get_contract_data (henv E) key InstanceStorage) (\<lambda>rv. onObjects (val_asset_info (aenv E) rv)))"

fun asset_of_info :: "('p, 'x, 'z, 'el, 'sg, 'bo) frame_env \<Rightarrow> AssetInfo \<Rightarrow> ('p, 'x, 'z, Asset) hostM" where
  "asset_of_info E InfoNative = retM NativeAsset"
| "asset_of_info E (InfoAlphaNum4 asset_code issuer) =
     bindM (onObjects (account_id_from_bytesobj (aenv E) issuer)) (\<lambda>issuer_account_id.
     bindM (onObjects (string_array (aenv E) 4 asset_code)) (\<lambda>code. retM (CreditAlphanum4 code issuer_account_id)))"
| "asset_of_info E (InfoAlphaNum12 asset_code issuer) =
     bindM (onObjects (account_id_from_bytesobj (aenv E) issuer)) (\<lambda>issuer_account_id.
     bindM (onObjects (string_array (aenv E) 12 asset_code)) (\<lambda>code. retM (CreditAlphanum12 code issuer_account_id)))"

definition read_asset :: "('p, 'x, 'z, 'el, 'sg, 'bo) frame_env \<Rightarrow> ('p, 'x, 'z, Asset) hostM" where
  "read_asset E = bindM (read_asset_info E) (asset_of_info E)"

definition has_asset_info :: "('p, 'x, 'z, 'el, 'sg, 'bo) frame_env \<Rightarrow> ('p, 'x, 'z, bool) hostM" where
  "has_asset_info E =
     bindM (onObjects (instance_key_val (aenv E) AssetInfoKey)) (\<lambda>key.
     bindM (has_contract_data (henv E) key InstanceStorage) (\<lambda>rv. retM (rv = from_bool True)))"

definition is_ascii_alphanumeric :: "u8 \<Rightarrow> bool" where
  "is_ascii_alphanumeric c \<longleftrightarrow> 48 \<le> c \<and> c \<le> 57 \<or> 65 \<le> c \<and> c \<le> 90 \<or> 97 \<le> c \<and> c \<le> 122"

text \<open>The loop over the code: whether a NUL was seen, and the number of other characters.\<close>

fun asset_code_loop :: "bool \<Rightarrow> nat \<Rightarrow> u8 list \<Rightarrow> Error + nat" where
  "asset_code_loop had_zero non_zero_chars [] = Inr non_zero_chars"
| "asset_code_loop had_zero non_zero_chars (c # cs) =
     (if c = 0 then asset_code_loop True non_zero_chars cs
      else if had_zero then Inl (Err Value InvalidInput)
      else if c > 127 \<or> \<not> is_ascii_alphanumeric c then Inl (Err Value InvalidInput)
      else asset_code_loop had_zero (non_zero_chars + 1) cs)"

definition validate_asset_code :: "u8 list \<Rightarrow> Error + unit" where
  "validate_asset_code code = (case asset_code_loop False 0 code of
     Inl e \<Rightarrow> Inl e
   | Inr non_zero_chars \<Rightarrow>
       if non_zero_chars = 0 then Inl (Err Value InvalidInput)
       else if non_zero_chars \<le> 4 \<and> length code > 4 then Inl (Err Value InvalidInput)
       else Inr ())"

fun validate_asset :: "Asset \<Rightarrow> Error + unit" where
  "validate_asset NativeAsset = Inr ()"
| "validate_asset (CreditAlphanum4 code _) = validate_asset_code code"
| "validate_asset (CreditAlphanum12 code _) = validate_asset_code code"

text \<open>An address is an address object.\<close>

definition address_from_val :: "Val \<Rightarrow> ('s, Val) hm" where
  "address_from_val v = (if has_tag v TagAddressObject then retM v else throwM (Err Value UnexpectedType))"

definition read_administrator :: "('p, 'x, 'z, 'el, 'sg, 'bo) frame_env \<Rightarrow> ('p, 'x, 'z, Val) hostM" where
  "read_administrator E =
     bindM (onObjects (instance_key_val (aenv E) AdminKey)) (\<lambda>key.
     bindM (get_contract_data (henv E) key InstanceStorage) address_from_val)"

definition write_administrator :: "('p, 'x, 'z, 'el, 'sg, 'bo) frame_env \<Rightarrow> Val \<Rightarrow> ('p, 'x, 'z, unit) hostM" where
  "write_administrator E admin =
     bindM (onObjects (instance_key_val (aenv E) AdminKey)) (\<lambda>key.
     thenM (put_contract_data (henv E) key admin InstanceStorage) (retM ()))"

section \<open>Metadata (metadata.rs)\<close>

definition hex_digit :: "u8 \<Rightarrow> u8" where
  "hex_digit d = (if d < 10 then 48 + d else 87 + d)"

definition must_escape :: "u8 \<Rightarrow> bool" where
  "must_escape x \<longleftrightarrow> x = 58 \<or> x = 92 \<or> x \<le> 32 \<or> 127 \<le> x"

fun render_code_loop :: "nat \<Rightarrow> nat \<Rightarrow> u8 list \<Rightarrow> u8 list" where
  "render_code_loop n i [] = []"
| "render_code_loop n i (x # xs) =
     (if x = 0 \<and> n = 4 then []
      else if x = 0 \<and> n = 12 \<and> i > 4 then []
      else if must_escape x then [92, 120, hex_digit (x div 16), hex_digit (x mod 16)] @ render_code_loop n (i + 1) xs
      else x # render_code_loop n (i + 1) xs)"

definition render_sep0011_asset_code :: "u8 list \<Rightarrow> Error + u8 list" where
  "render_sep0011_asset_code buf =
     (if length buf \<noteq> 4 \<and> length buf \<noteq> 12 then Inl (Err Value InvalidInput)
      else Inr (render_code_loop (length buf) 0 buf))"

definition render_sep0011_asset ::
  "('p, 'x, 'z, 'el, 'sg, 'bo) frame_env \<Rightarrow> nat \<Rightarrow> Val \<Rightarrow> Val \<Rightarrow> ('p, 'x, 'z, Val \<times> Val) hostM" where
  "render_sep0011_asset E n symbol issuer =
     bindM (onObjects (string_array (aenv E) n symbol)) (\<lambda>symbuf.
     thenM (onB (charge MemAlloc (Some (of_nat (length symbuf * 4 + 1 + 56 + 56)))))
     (bindM (ofSum (render_sep0011_asset_code symbuf)) (\<lambda>s.
     bindM (onObjects (strkey_of_bytes (aenv E) issuer)) (\<lambda>key.
     bindM (onObjects (string_obj (aenv E) (s @ [58] @ key))) (\<lambda>name. retM (name, symbol))))))"

definition set_metadata :: "('p, 'x, 'z, 'el, 'sg, 'bo) frame_env \<Rightarrow> ('p, 'x, 'z, unit) hostM" where
  "set_metadata E =
     bindM (bindM (read_asset_info E) (\<lambda>info. case info of
         InfoNative \<Rightarrow> bindM (onObjects (string_obj (aenv E) [110, 97, 116, 105, 118, 101])) (\<lambda>n. retM (n, n))
       | InfoAlphaNum4 code issuer \<Rightarrow> render_sep0011_asset E 4 code issuer
       | InfoAlphaNum12 code issuer \<Rightarrow> render_sep0011_asset E 12 code issuer)) (\<lambda>(name, symbol).
     bindM (onObjects (metadata_key_val (aenv E))) (\<lambda>key.
     bindM (onObjects (metadata_val (aenv E) \<lparr>md_decimal = DECIMAL, md_name = name, md_symbol = symbol\<rparr>)) (\<lambda>v.
     thenM (put_contract_data (henv E) key v InstanceStorage) (retM ()))))"

definition read_metadata :: "('p, 'x, 'z, 'el, 'sg, 'bo) frame_env \<Rightarrow> ('p, 'x, 'z, StellarAssetContractMetadata) hostM" where
  "read_metadata E =
     bindM (onObjects (metadata_key_val (aenv E))) (\<lambda>key.
     bindM (get_contract_data (henv E) key InstanceStorage) (\<lambda>v. onObjects (val_metadata (aenv E) v)))"

definition read_name :: "('p, 'x, 'z, 'el, 'sg, 'bo) frame_env \<Rightarrow> ('p, 'x, 'z, Val) hostM" where
  "read_name E = bindM (read_metadata E) (\<lambda>m. retM (md_name m))"

definition read_symbol :: "('p, 'x, 'z, 'el, 'sg, 'bo) frame_env \<Rightarrow> ('p, 'x, 'z, Val) hostM" where
  "read_symbol E = bindM (read_metadata E) (\<lambda>m. retM (md_symbol m))"

section \<open>Classic balances (balance.rs)\<close>

definition throwC :: "ContractError \<Rightarrow> ('s, 'r) hm" where
  "throwC e = throwM (contract_error e)"

definition to_trustline_key ::
  "('p, 'x, 'z, 'el, 'sg, 'bo) frame_env \<Rightarrow> u256 \<Rightarrow> Asset \<Rightarrow> ('p, 'x, 'z, 'p LedgerKey) hostM" where
  "to_trustline_key E acc tlasset = thenM (onB (metered_new 120)) (retM (KTrustline (p_trustline (aenv E) acc tlasset)))"

fun entry_data_type :: "'x EntryData \<Rightarrow> LedgerEntryType" where
  "entry_data_type (AccountData _) = TAccount"
| "entry_data_type (TrustLineData _) = TTrustline"
| "entry_data_type (ContractData _) = TContractData"
| "entry_data_type (ContractCode _ _) = TContractCode"

definition modify_ledger_entry_data ::
  "'x EntryData LedgerEntry \<Rightarrow> 'x EntryData \<Rightarrow> ('p, 'x, 'z, 'x EntryData LedgerEntry) hostM" where
  "modify_ledger_entry_data original_entry new_data =
     thenM (onB (clone_sized 33 ())) (thenM (onB (metered_new 256))
       (retM (original_entry\<lparr>data_type := entry_data_type new_data, data_content := new_data\<rparr>)))"

text \<open>
  Reading an entry: the address for the error message is made before the error is returned, and
  making it may fail itself.
\<close>

definition read_classic_entry ::
  "('p, 'x, 'z, 'el, 'sg, 'bo) frame_env \<Rightarrow> ContractError \<Rightarrow> 'p LedgerKey \<Rightarrow> ('p, 'x, 'z, 'x EntryData LedgerEntry) hostM" where
  "read_classic_entry E missing lk = (\<lambda>h. case onStore (try_get (key_cmp (henv E)) lk) h of
     (Inl e, h') \<Rightarrow>
       if e = Err Storage ExceededLimit
       then bindM (onObjects (key_account_address (aenv E) lk)) (\<lambda>_. throwM (Err Storage ExceededLimit)) h'
       else (Inl e, h')
   | (Inr None, h') \<Rightarrow> bindM (onObjects (key_account_address (aenv E) lk)) (\<lambda>_. throwC missing) h'
   | (Inr (Some le), h') \<Rightarrow> (Inr le, h'))"

definition read_account_entry ::
  "('p, 'x, 'z, 'el, 'sg, 'bo) frame_env \<Rightarrow> 'p LedgerKey \<Rightarrow> ('p, 'x, 'z, 'x EntryData LedgerEntry) hostM" where
  "read_account_entry E = read_classic_entry E AccountMissingError"

definition read_trustline_entry ::
  "('p, 'x, 'z, 'el, 'sg, 'bo) frame_env \<Rightarrow> 'p LedgerKey \<Rightarrow> ('p, 'x, 'z, 'x EntryData LedgerEntry) hostM" where
  "read_trustline_entry E = read_classic_entry E TrustlineMissingError"

definition account_of_entry :: "'x EntryData LedgerEntry \<Rightarrow> ('p, 'x, 'z, AccountEntry) hostM" where
  "account_of_entry le = (case data_content le of AccountData ae \<Rightarrow> retM ae | _ \<Rightarrow> throwC CE_InternalError)"

definition trustline_of_entry :: "'x EntryData LedgerEntry \<Rightarrow> ('p, 'x, 'z, TrustLineEntry) hostM" where
  "trustline_of_entry le = (case data_content le of TrustLineData line \<Rightarrow> retM line | _ \<Rightarrow> throwC CE_InternalError)"

text \<open>The sponsorship counts of an account are the numbers of sponsored and of sponsoring entries.\<close>

definition account_min_max :: "int \<Rightarrow> AccountEntry \<Rightarrow> int \<times> int" where
  "account_min_max reserve ae = (case acc_ext ae of
     AccExtV1 liabilities ext2 \<Rightarrow>
       (let net_entries = (case ext2 of
              Some (num_sponsored, num_sponsoring) \<Rightarrow>
                2 + uint (num_sub_entries ae) + uint num_sponsoring - uint num_sponsored
            | None \<Rightarrow> 2 + uint (num_sub_entries ae))
        in (wrap_i64 (wrap_i64 (net_entries * reserve) + selling liabilities), wrap_i64 (i64_MAX - buying liabilities)))
   | AccExtV0 \<Rightarrow> (wrap_i64 ((2 + uint (num_sub_entries ae)) * reserve), i64_MAX))"

definition get_min_max_account_balance :: "AccountEntry \<Rightarrow> ('p, 'x, 'z, int \<times> int) hostM" where
  "get_min_max_account_balance ae =
     (if acc_balance ae < 0 then throwC CE_InternalError
      else bindM (getM hledger) (\<lambda>li.
        bindM (with_ledger_info li (\<lambda>l. retM (uint (base_reserve l)))) (\<lambda>reserve. retM (account_min_max reserve ae))))"

definition get_min_max_trustline_balance :: "TrustLineEntry \<Rightarrow> ('p, 'x, 'z, int \<times> int) hostM" where
  "get_min_max_trustline_balance line =
     (if tl_balance line < 0 then throwC CE_InternalError
      else case tl_liabilities line of
        Some liabilities \<Rightarrow>
          if tl_limit line < buying liabilities then throwC CE_InternalError
          else retM (selling liabilities, wrap_i64 (tl_limit line - buying liabilities))
      | None \<Rightarrow> retM (0, tl_limit line))"

definition transfer_account_balance ::
  "('p, 'x, 'z, 'el, 'sg, 'bo) frame_env \<Rightarrow> u256 \<Rightarrow> int \<Rightarrow> ('p, 'x, 'z, unit) hostM" where
  "transfer_account_balance E acc amount =
     bindM (to_account_key (henv E) acc) (\<lambda>lk.
     bindM (read_account_entry E lk) (\<lambda>le.
     bindM (account_of_entry le) (\<lambda>ae.
     bindM (onB (clone_account (henv E) ae)) (\<lambda>ae.
     bindM (get_min_max_account_balance ae) (\<lambda>(min_balance, max_balance).
     case checked_i64 (acc_balance ae + amount) of
       None \<Rightarrow> throwC BalanceError
     | Some new_balance \<Rightarrow>
         if new_balance \<ge> min_balance \<and> new_balance \<le> max_balance then
           bindM (modify_ledger_entry_data le (AccountData (ae\<lparr>acc_balance := new_balance\<rparr>))) (\<lambda>le.
             onStore (storage_put (key_cmp (henv E)) lk le None))
         else throwC BalanceError)))))"

definition transfer_trustline_balance ::
  "('p, 'x, 'z, 'el, 'sg, 'bo) frame_env \<Rightarrow> u256 \<Rightarrow> Asset \<Rightarrow> int \<Rightarrow> ('p, 'x, 'z, unit) hostM" where
  "transfer_trustline_balance E acc tlasset amount =
     bindM (to_trustline_key E acc tlasset) (\<lambda>lk.
     bindM (read_trustline_entry E lk) (\<lambda>le.
     bindM (trustline_of_entry le) (\<lambda>line.
     bindM (onB (clone_trustline (aenv E) line)) (\<lambda>line.
     bindM (get_min_max_trustline_balance line) (\<lambda>(min_balance, max_balance).
     case checked_i64 (tl_balance line + amount) of
       None \<Rightarrow> throwC BalanceError
     | Some new_balance \<Rightarrow>
         if new_balance \<ge> min_balance \<and> new_balance \<le> max_balance then
           bindM (modify_ledger_entry_data le (TrustLineData (line\<lparr>tl_balance := new_balance\<rparr>))) (\<lambda>le.
             onStore (storage_put (key_cmp (henv E)) lk le None))
         else throwC BalanceError)))))"

text \<open>What is done for a credit asset, and for its issuer, which has no trustline.\<close>

definition by_asset ::
  "('p, 'x, 'z, 'el, 'sg, 'bo) frame_env \<Rightarrow> ('p, 'x, 'z, 'r) hostM \<Rightarrow> (Asset \<Rightarrow> u256 \<Rightarrow> ('p, 'x, 'z, 'r) hostM) \<Rightarrow>
     ('p, 'x, 'z, 'r) hostM" where
  "by_asset E native credit =
     bindM (read_asset E) (\<lambda>a. case a of
       NativeAsset \<Rightarrow> native
     | CreditAlphanum4 code issuer \<Rightarrow> bindM (onB (clone_sized 32 issuer)) (\<lambda>i. credit (CreditAlphanum4 code issuer) i)
     | CreditAlphanum12 code issuer \<Rightarrow> bindM (onB (clone_sized 32 issuer)) (\<lambda>i. credit (CreditAlphanum12 code issuer) i))"

definition transfer_classic_balance ::
  "('p, 'x, 'z, 'el, 'sg, 'bo) frame_env \<Rightarrow> u256 \<Rightarrow> int \<Rightarrow> ('p, 'x, 'z, unit) hostM" where
  "transfer_classic_balance E to_key amount =
     by_asset E (transfer_account_balance E to_key amount) (\<lambda>tlasset issuer.
       if issuer = to_key then retM () else transfer_trustline_balance E to_key tlasset amount)"

definition get_account_balance :: "('p, 'x, 'z, 'el, 'sg, 'bo) frame_env \<Rightarrow> u256 \<Rightarrow> ('p, 'x, 'z, int) hostM" where
  "get_account_balance E acc =
     bindM (to_account_key (henv E) acc) (\<lambda>lk.
     bindM (read_account_entry E lk) (\<lambda>le.
     bindM (account_of_entry le) (\<lambda>ae.
     bindM (get_min_max_account_balance ae) (\<lambda>(mn, mx).
       if acc_balance ae < mn then throwC CE_InternalError
       else if acc_balance ae > mx then throwC CE_InternalError
       else retM (acc_balance ae)))))"

definition get_trustline_balance ::
  "('p, 'x, 'z, 'el, 'sg, 'bo) frame_env \<Rightarrow> u256 \<Rightarrow> Asset \<Rightarrow> ('p, 'x, 'z, int) hostM" where
  "get_trustline_balance E acc tlasset =
     bindM (to_trustline_key E acc tlasset) (\<lambda>lk.
     bindM (read_trustline_entry E lk) (\<lambda>le.
     bindM (trustline_of_entry le) (\<lambda>line.
     bindM (onB (clone_trustline (aenv E) line)) (\<lambda>line.
     bindM (get_min_max_trustline_balance line) (\<lambda>(mn, mx).
       if tl_balance line < mn then throwC CE_InternalError
       else if tl_balance line > mx then throwC CE_InternalError
       else retM (tl_balance line))))))"

definition get_classic_balance :: "('p, 'x, 'z, 'el, 'sg, 'bo) frame_env \<Rightarrow> u256 \<Rightarrow> ('p, 'x, 'z, int) hostM" where
  "get_classic_balance E acct =
     by_asset E (get_account_balance E acct) (\<lambda>tlasset issuer.
       if issuer = acct then retM i64_MAX else get_trustline_balance E acct tlasset)"

section \<open>Flags\<close>

definition get_trustline_flags ::
  "('p, 'x, 'z, 'el, 'sg, 'bo) frame_env \<Rightarrow> u256 \<Rightarrow> Asset \<Rightarrow> ('p, 'x, 'z, u32) hostM" where
  "get_trustline_flags E acc tlasset =
     bindM (to_trustline_key E acc tlasset) (\<lambda>lk.
     bindM (read_trustline_entry E lk) (\<lambda>le.
     bindM (trustline_of_entry le) (\<lambda>line. retM (tl_flags line))))"

definition is_trustline_authorized ::
  "('p, 'x, 'z, 'el, 'sg, 'bo) frame_env \<Rightarrow> u256 \<Rightarrow> Asset \<Rightarrow> ('p, 'x, 'z, bool) hostM" where
  "is_trustline_authorized E acc tlasset =
     bindM (get_trustline_flags E acc tlasset) (\<lambda>fl. retM (and fl AuthorizedFlag \<noteq> 0))"

definition is_account_authorized :: "('p, 'x, 'z, 'el, 'sg, 'bo) frame_env \<Rightarrow> u256 \<Rightarrow> ('p, 'x, 'z, bool) hostM" where
  "is_account_authorized E acc =
     by_asset E (retM True) (\<lambda>tlasset issuer.
       if issuer = acc then retM True else is_trustline_authorized E acc tlasset)"

definition set_trustline_authorization ::
  "('p, 'x, 'z, 'el, 'sg, 'bo) frame_env \<Rightarrow> u256 \<Rightarrow> Asset \<Rightarrow> bool \<Rightarrow> ('p, 'x, 'z, unit) hostM" where
  "set_trustline_authorization E acc tlasset authorize =
     bindM (to_trustline_key E acc tlasset) (\<lambda>lk.
     bindM (read_trustline_entry E lk) (\<lambda>le.
     bindM (trustline_of_entry le) (\<lambda>line.
     bindM (onB (clone_trustline (aenv E) line)) (\<lambda>line.
     if (and (tl_flags line) AuthorizedFlag \<noteq> 0) = authorize then retM ()
     else bindM (modify_ledger_entry_data le (TrustLineData (line\<lparr>tl_flags :=
         (if authorize then or (and (tl_flags line) (not AuthorizedToMaintainLiabilitiesFlag)) AuthorizedFlag
          else or (and (tl_flags line) (not AuthorizedFlag)) AuthorizedToMaintainLiabilitiesFlag)\<rparr>))) (\<lambda>le.
       onStore (storage_put (key_cmp (henv E)) lk le None))))))"

definition set_authorization :: "('p, 'x, 'z, 'el, 'sg, 'bo) frame_env \<Rightarrow> u256 \<Rightarrow> bool \<Rightarrow> ('p, 'x, 'z, unit) hostM" where
  "set_authorization E acct authorize =
     by_asset E (throwC OperationNotSupportedError) (\<lambda>tlasset issuer.
       if issuer = acct then throwC OperationNotSupportedError
       else set_trustline_authorization E acct tlasset authorize)"

definition is_issuer_flag_set ::
  "('p, 'x, 'z, 'el, 'sg, 'bo) frame_env \<Rightarrow> Val \<Rightarrow> u32 \<Rightarrow> ('p, 'x, 'z, bool) hostM" where
  "is_issuer_flag_set E issuer_id flag =
     bindM (onObjects (account_id_from_bytesobj (aenv E) issuer_id)) (\<lambda>acc.
     bindM (load_account (henv E) acc) (\<lambda>issuer_acc. retM (and (acc_flags issuer_acc) flag \<noteq> 0)))"

definition is_asset_issuer_flag_set ::
  "('p, 'x, 'z, 'el, 'sg, 'bo) frame_env \<Rightarrow> u32 \<Rightarrow> ('p, 'x, 'z, bool) hostM" where
  "is_asset_issuer_flag_set E flag =
     bindM (read_asset_info E) (\<lambda>info. case info of
       InfoNative \<Rightarrow> retM False
     | InfoAlphaNum4 _ issuer \<Rightarrow> is_issuer_flag_set E issuer flag
     | InfoAlphaNum12 _ issuer \<Rightarrow> is_issuer_flag_set E issuer flag)"

definition is_asset_auth_required :: "('p, 'x, 'z, 'el, 'sg, 'bo) frame_env \<Rightarrow> ('p, 'x, 'z, bool) hostM" where
  "is_asset_auth_required E = is_asset_issuer_flag_set E RequiredFlag"

definition is_asset_clawback_enabled :: "('p, 'x, 'z, 'el, 'sg, 'bo) frame_env \<Rightarrow> ('p, 'x, 'z, bool) hostM" where
  "is_asset_clawback_enabled E = is_asset_issuer_flag_set E ClawbackEnabledFlag"

definition is_asset_auth_revocable :: "('p, 'x, 'z, 'el, 'sg, 'bo) frame_env \<Rightarrow> ('p, 'x, 'z, bool) hostM" where
  "is_asset_auth_revocable E = is_asset_issuer_flag_set E RevocableFlag"

section \<open>Balances\<close>

abbreviation clone_address :: "Val \<Rightarrow> ('p, 'x, 'z, Val) hostM" where
  "clone_address addr \<equiv> onB (clone_sized 16 addr)"

definition stored_balance ::
  "('p, 'x, 'z, 'el, 'sg, 'bo) frame_env \<Rightarrow> Val \<Rightarrow> ('p, 'x, 'z, Val option) hostM" where
  "stored_balance E addr =
     bindM (onObjects (data_key_val (aenv E) (BalanceKey addr))) (\<lambda>key.
       try_get_contract_data (henv E) key PersistentStorage)"

definition extend_balance_ttl :: "('p, 'x, 'z, 'el, 'sg, 'bo) frame_env \<Rightarrow> Val \<Rightarrow> ('p, 'x, 'z, Val) hostM" where
  "extend_balance_ttl E addr =
     bindM (onObjects (data_key_val (aenv E) (BalanceKey addr))) (\<lambda>key.
       extend_contract_data_ttl (henv E) key PersistentStorage BALANCE_TTL_THRESHOLD BALANCE_EXTEND_AMOUNT)"

definition read_balance :: "('p, 'x, 'z, 'el, 'sg, 'bo) frame_env \<Rightarrow> Val \<Rightarrow> ('p, 'x, 'z, int) hostM" where
  "read_balance E addr =
     bindM (onObjects (scaddress_of E addr)) (\<lambda>sc. case sc of
       AccountAddr acc_id \<Rightarrow> get_classic_balance E acc_id
     | ContractAddr _ \<Rightarrow>
         bindM (stored_balance E addr) (\<lambda>raw. case raw of
           Some raw_balance \<Rightarrow>
             thenM (extend_balance_ttl E addr)
             (bindM (onObjects (val_balance (aenv E) raw_balance)) (\<lambda>balance. retM (bv_amount balance)))
         | None \<Rightarrow> retM 0))"

definition write_contract_balance :: "('p, 'x, 'z, 'el, 'sg, 'bo) frame_env \<Rightarrow> Val \<Rightarrow> BalanceValue \<Rightarrow> ('p, 'x, 'z, unit) hostM" where
  "write_contract_balance E addr balance =
     bindM (onObjects (data_key_val (aenv E) (BalanceKey addr))) (\<lambda>key.
     bindM (onObjects (balance_val (aenv E) balance)) (\<lambda>v.
     thenM (put_contract_data (henv E) key v PersistentStorage)
     (thenM (extend_balance_ttl E addr) (retM ()))))"

definition is_authorized :: "('p, 'x, 'z, 'el, 'sg, 'bo) frame_env \<Rightarrow> Val \<Rightarrow> ('p, 'x, 'z, bool) hostM" where
  "is_authorized E addr =
     bindM (onObjects (scaddress_of E addr)) (\<lambda>sc. case sc of
       AccountAddr acc_id \<Rightarrow> is_account_authorized E acc_id
     | ContractAddr _ \<Rightarrow>
         bindM (stored_balance E addr) (\<lambda>raw. case raw of
           Some raw_balance \<Rightarrow>
             bindM (onObjects (val_balance (aenv E) raw_balance)) (\<lambda>balance. retM (bv_authorized balance))
         | None \<Rightarrow> bindM (is_asset_auth_required E) (\<lambda>b. retM (\<not> b))))"

text \<open>What every change of a balance that needs an authorized holder begins with.\<close>

definition check_authorized :: "('p, 'x, 'z, 'el, 'sg, 'bo) frame_env \<Rightarrow> Val \<Rightarrow> ('p, 'x, 'z, unit) hostM" where
  "check_authorized E addr =
     bindM (clone_address addr) (\<lambda>a. bindM (is_authorized E a) (\<lambda>b.
       if b then retM () else throwC BalanceDeauthorizedError))"

definition receive_contract_balance :: "('p, 'x, 'z, 'el, 'sg, 'bo) frame_env \<Rightarrow> Val \<Rightarrow> int \<Rightarrow> ('p, 'x, 'z, unit) hostM" where
  "receive_contract_balance E addr amount =
     bindM (clone_address addr) (\<lambda>a.
     bindM (stored_balance E a) (\<lambda>raw.
     bindM (case raw of
         Some raw_balance \<Rightarrow> onObjects (val_balance (aenv E) raw_balance)
       | None \<Rightarrow> bindM (is_asset_clawback_enabled E) (\<lambda>c.
           retM \<lparr>bv_amount = 0, bv_authorized = True, bv_clawback = c\<rparr>)) (\<lambda>balance.
     case checked_i128 (bv_amount balance + amount) of
       None \<Rightarrow> throwC OverflowError
     | Some new_balance \<Rightarrow> write_contract_balance E addr (balance\<lparr>bv_amount := new_balance\<rparr>))))"

definition receive_balance :: "('p, 'x, 'z, 'el, 'sg, 'bo) frame_env \<Rightarrow> Val \<Rightarrow> int \<Rightarrow> ('p, 'x, 'z, unit) hostM" where
  "receive_balance E addr amount =
     thenM (check_authorized E addr)
     (bindM (onObjects (scaddress_of E addr)) (\<lambda>sc. case sc of
       AccountAddr acc_id \<Rightarrow>
         (case checked_i64 amount of
            None \<Rightarrow> throwC OverflowError
          | Some i64_amount \<Rightarrow> transfer_classic_balance E acc_id i64_amount)
     | ContractAddr _ \<Rightarrow> receive_contract_balance E addr amount))"

definition spend_contract_balance :: "('p, 'x, 'z, 'el, 'sg, 'bo) frame_env \<Rightarrow> Val \<Rightarrow> int \<Rightarrow> ('p, 'x, 'z, unit) hostM" where
  "spend_contract_balance E addr amount =
     bindM (clone_address addr) (\<lambda>a.
     bindM (stored_balance E a) (\<lambda>raw. case raw of
       Some raw_balance \<Rightarrow>
         bindM (onObjects (val_balance (aenv E) raw_balance)) (\<lambda>balance.
           if bv_amount balance < amount then throwC BalanceError
           else (case checked_i128 (bv_amount balance - amount) of
               None \<Rightarrow> throwC OverflowError
             | Some new_balance \<Rightarrow> write_contract_balance E addr (balance\<lparr>bv_amount := new_balance\<rparr>)))
     | None \<Rightarrow> if amount > 0 then throwC BalanceError else retM ()))"

definition spend_balance_no_authorization_check :: "('p, 'x, 'z, 'el, 'sg, 'bo) frame_env \<Rightarrow> Val \<Rightarrow> int \<Rightarrow> ('p, 'x, 'z, unit) hostM" where
  "spend_balance_no_authorization_check E addr amount =
     bindM (onObjects (scaddress_of E addr)) (\<lambda>sc. case sc of
       AccountAddr acc_id \<Rightarrow>
         (case checked_i64 amount of
            None \<Rightarrow> throwC OverflowError
          | Some i64_amount \<Rightarrow> transfer_classic_balance E acc_id (wrap_i64 (- i64_amount)))
     | ContractAddr _ \<Rightarrow> spend_contract_balance E addr amount)"

definition spend_balance :: "('p, 'x, 'z, 'el, 'sg, 'bo) frame_env \<Rightarrow> Val \<Rightarrow> int \<Rightarrow> ('p, 'x, 'z, unit) hostM" where
  "spend_balance E addr amount =
     thenM (check_authorized E addr) (spend_balance_no_authorization_check E addr amount)"

definition write_authorization :: "('p, 'x, 'z, 'el, 'sg, 'bo) frame_env \<Rightarrow> Val \<Rightarrow> bool \<Rightarrow> ('p, 'x, 'z, unit) hostM" where
  "write_authorization E addr authorize =
     thenM (if \<not> authorize then bindM (is_asset_auth_revocable E) (\<lambda>b.
         if b then retM () else throwC OperationNotSupportedError)
       else retM ())
     (bindM (onObjects (scaddress_of E addr)) (\<lambda>sc. case sc of
       AccountAddr acc_id \<Rightarrow> set_authorization E acc_id authorize
     | ContractAddr _ \<Rightarrow>
         bindM (clone_address addr) (\<lambda>a.
         bindM (stored_balance E a) (\<lambda>raw. case raw of
           Some raw_balance \<Rightarrow>
             bindM (onObjects (val_balance (aenv E) raw_balance)) (\<lambda>balance.
               write_contract_balance E addr (balance\<lparr>bv_authorized := authorize\<rparr>))
         | None \<Rightarrow> bindM (is_asset_clawback_enabled E) (\<lambda>c.
             write_contract_balance E addr \<lparr>bv_amount = 0, bv_authorized = authorize, bv_clawback = c\<rparr>)))))"

definition check_clawbackable :: "('p, 'x, 'z, 'el, 'sg, 'bo) frame_env \<Rightarrow> Val \<Rightarrow> ('p, 'x, 'z, unit) hostM" where
  "check_clawbackable E addr =
     bindM (onObjects (scaddress_of E addr)) (\<lambda>sc. case sc of
       AccountAddr acc_id \<Rightarrow> by_asset E (throwC OperationNotSupportedError) (\<lambda>tlasset issuer.
         if issuer = acc_id then throwC OperationNotSupportedError
         else bindM (get_trustline_flags E acc_id tlasset) (\<lambda>fl.
           if and fl TrustlineClawbackEnabledFlag = 0 then throwC BalanceError else retM ()))
     | ContractAddr _ \<Rightarrow>
         bindM (stored_balance E addr) (\<lambda>raw. case raw of
           Some raw_balance \<Rightarrow>
             bindM (onObjects (val_balance (aenv E) raw_balance)) (\<lambda>balance.
               if \<not> bv_clawback balance then throwC BalanceError else retM ())
         | None \<Rightarrow> throwC BalanceError))"

section \<open>Allowances (allowance.rs)\<close>

definition stored_allowance :: "('p, 'x, 'z, 'el, 'sg, 'bo) frame_env \<Rightarrow> Val \<Rightarrow> Val \<Rightarrow> ('p, 'x, 'z, Val option) hostM" where
  "stored_allowance E from spender =
     bindM (onObjects (data_key_val (aenv E) (AllowanceKey from spender))) (\<lambda>key.
       try_get_contract_data (henv E) key TemporaryStorage)"

definition read_allowance :: "('p, 'x, 'z, 'el, 'sg, 'bo) frame_env \<Rightarrow> Val \<Rightarrow> Val \<Rightarrow> ('p, 'x, 'z, int) hostM" where
  "read_allowance E from spender =
     bindM (stored_allowance E from spender) (\<lambda>raw. case raw of
       Some raw_allowance \<Rightarrow>
         bindM (onObjects (val_allowance (aenv E) raw_allowance)) (\<lambda>val.
         bindM (getM hledger) (\<lambda>li.
         bindM (with_ledger_info li (\<lambda>l. retM (sequence_number l))) (\<lambda>seq.
           retM (if av_live_until_ledger val < seq then 0 else av_amount val))))
     | None \<Rightarrow> retM 0)"

text \<open>The limits of an allowance's lifetime; the answer is the current ledger.\<close>

definition check_live_until :: "int \<Rightarrow> u32 \<Rightarrow> ('p, 'x, 'z, u32) hostM" where
  "check_live_until amount live_until =
     bindM (getM hledger) (\<lambda>li. with_ledger_info li (\<lambda>l.
       bindM (max_live_until_ledger li) (\<lambda>mx.
         if live_until > mx then throwC AllowanceError
         else if amount > 0 \<and> live_until < sequence_number l then throwC AllowanceError
         else retM (sequence_number l))))"

definition write_allowance :: "('p, 'x, 'z, 'el, 'sg, 'bo) frame_env \<Rightarrow> Val \<Rightarrow> Val \<Rightarrow> int \<Rightarrow> u32 \<Rightarrow> ('p, 'x, 'z, unit) hostM" where
  "write_allowance E from spender amount live_until =
     bindM (check_live_until amount live_until) (\<lambda>ledger_seq.
     bindM (stored_allowance E from spender) (\<lambda>raw.
     bindM (case raw of
         Some raw_allowance \<Rightarrow>
           bindM (onObjects (val_allowance (aenv E) raw_allowance)) (\<lambda>old.
             retM (Some (old\<lparr>av_amount := amount, av_live_until_ledger := live_until\<rparr>,
               Some (av_live_until_ledger old))))
       | None \<Rightarrow> retM (if amount > 0
           then Some (\<lparr>av_amount = amount, av_live_until_ledger = live_until\<rparr>, None) else None)) (\<lambda>opt.
     case opt of
       None \<Rightarrow> retM ()
     | Some (allowance, old_live_until) \<Rightarrow>
         bindM (onObjects (data_key_val (aenv E) (AllowanceKey from spender))) (\<lambda>key.
         bindM (onObjects (allowance_val (aenv E) allowance)) (\<lambda>v.
         thenM (put_contract_data (henv E) key v TemporaryStorage)
         (if av_amount allowance > 0 \<and> (case old_live_until of Some l \<Rightarrow> l | None \<Rightarrow> 0) < live_until then
            let live_for = saturating_add (saturating_sub live_until ledger_seq) 1 in
            bindM (onObjects (data_key_val (aenv E) (AllowanceKey from spender))) (\<lambda>key.
            thenM (extend_contract_data_ttl (henv E) key TemporaryStorage live_for live_for) (retM ()))
          else retM ()))))))"

definition write_allowance_amount :: "('p, 'x, 'z, 'el, 'sg, 'bo) frame_env \<Rightarrow> Val \<Rightarrow> Val \<Rightarrow> int \<Rightarrow> ('p, 'x, 'z, unit) hostM" where
  "write_allowance_amount E from spender amount =
     bindM (clone_address from) (\<lambda>f.
     bindM (clone_address spender) (\<lambda>s.
     bindM (onObjects (data_key_val (aenv E) (AllowanceKey f s))) (\<lambda>key.
     bindM (get_contract_data (henv E) key TemporaryStorage) (\<lambda>v.
     bindM (onObjects (val_allowance (aenv E) v)) (\<lambda>allowance.
       write_allowance E from spender amount (av_live_until_ledger allowance))))))"

definition spend_allowance :: "('p, 'x, 'z, 'el, 'sg, 'bo) frame_env \<Rightarrow> Val \<Rightarrow> Val \<Rightarrow> int \<Rightarrow> ('p, 'x, 'z, unit) hostM" where
  "spend_allowance E from spender amount =
     bindM (clone_address from) (\<lambda>f.
     bindM (clone_address spender) (\<lambda>s.
     bindM (read_allowance E f s) (\<lambda>allowance.
       if allowance < amount then throwC AllowanceError
       else if amount > 0 then
         (case checked_i128 (allowance - amount) of
            None \<Rightarrow> throwC OverflowError
          | Some new_allowance \<Rightarrow> write_allowance_amount E from spender new_allowance)
       else retM ())))"

end
