(* ===== verification/Asset_Contract.thy ===== *)
theory Asset_Contract
  imports Asset_Balance
begin

text \<open>
  The functions of the built-in asset contract (\<^verbatim>\<open>builtin_contracts/stellar_asset_contract\<close>:
  \<^verbatim>\<open>contract.rs\<close>, \<^verbatim>\<open>event.rs\<close>) and their dispatch by name, which the macro \<open>contractimpl\<close>
  generates (\<^verbatim>\<open>soroban-builtin-sdk-macros/src/derive_fn.rs\<close>). The functions that ask for an
  authorization work on the whole state, since an account contract may be called to give it.
\<close>

section \<open>Checks\<close>

definition check_nonnegative_amount :: "int \<Rightarrow> ('s, unit) hm" where
  "check_nonnegative_amount amount = (if amount < 0 then throwC NegativeAmountError else retM ())"

definition check_non_native :: "('p, 'x, 'z, 'el, 'sg, 'bo) frame_env \<Rightarrow> ('p, 'x, 'z, unit) hostM" where
  "check_non_native E = bindM (read_asset_info E) (\<lambda>info. case info of
     InfoNative \<Rightarrow> throwC OperationNotSupportedError
   | InfoAlphaNum4 _ _ \<Rightarrow> retM ()
   | InfoAlphaNum12 _ _ \<Rightarrow> retM ())"

text \<open>\<open>Address::from_account\<close>.\<close>

definition address_from_account :: "('p, 'x, 'z, 'el, 'sg, 'bo) frame_env \<Rightarrow> u256 \<Rightarrow> ('p, 'x, 'z, Val) hostM" where
  "address_from_account E acc =
     bindM (onB (clone_sized 32 acc)) (\<lambda>i. onObjects (address_obj E (AccountAddr i)))"

definition issuer_check :: "('p, 'x, 'z, 'el, 'sg, 'bo) frame_env \<Rightarrow> Val \<Rightarrow> Val \<Rightarrow> ('p, 'x, 'z, unit) hostM" where
  "issuer_check E issuer address =
     bindM (onObjects (account_id_from_bytesobj (aenv E) issuer)) (\<lambda>issuer_account_id.
     bindM (address_from_account E issuer_account_id) (\<lambda>issuer_address.
     bindM (onObjects (compare_obj E issuer_address address)) (\<lambda>c.
       if c = Equal then throwC OperationNotSupportedError else retM ())))"

definition check_not_issuer :: "('p, 'x, 'z, 'el, 'sg, 'bo) frame_env \<Rightarrow> Val \<Rightarrow> ('p, 'x, 'z, unit) hostM" where
  "check_not_issuer E addr = bindM (read_asset_info E) (\<lambda>info. case info of
     InfoNative \<Rightarrow> retM ()
   | InfoAlphaNum4 _ issuer \<Rightarrow> issuer_check E issuer addr
   | InfoAlphaNum12 _ issuer \<Rightarrow> issuer_check E issuer addr)"

section \<open>Events (event.rs)\<close>

text \<open>The topics are a name, addresses and the name of the asset.\<close>

definition event_topics :: "('p, 'x, 'z, 'el, 'sg, 'bo) frame_env \<Rightarrow> string \<Rightarrow> Val list \<Rightarrow> ('p, 'x, 'z, Val) hostM" where
  "event_topics E name addresses =
     bindM (onObjects (symbol_from_str (aenv E) name)) (\<lambda>symbol.
     bindM (read_name E) (\<lambda>asset_name.
       onObjects (vec_from_slice (aenv E) (symbol # addresses @ [asset_name]))))"

definition amount_event :: "('p, 'x, 'z, 'el, 'sg, 'bo) frame_env \<Rightarrow> string \<Rightarrow> Val list \<Rightarrow> int \<Rightarrow> ('p, 'x, 'z, unit) hostM" where
  "amount_event E name addresses amount =
     bindM (event_topics E name addresses) (\<lambda>topics.
     bindM (onObjects (i128_val (aenv E) amount)) (\<lambda>v. record_contract_event E ContractEvent topics v))"

definition event_approve :: "('p, 'x, 'z, 'el, 'sg, 'bo) frame_env \<Rightarrow> Val \<Rightarrow> Val \<Rightarrow> int \<Rightarrow> u32 \<Rightarrow> ('p, 'x, 'z, unit) hostM" where
  "event_approve E from to amount live_until_ledger =
     bindM (event_topics E ''approve'' [from, to]) (\<lambda>topics.
     bindM (onObjects (i128_val (aenv E) amount)) (\<lambda>v.
     bindM (onObjects (vec_from_slice (aenv E) [v, from_u32 live_until_ledger])) (\<lambda>data.
       record_contract_event E ContractEvent topics data)))"

definition event_transfer :: "('p, 'x, 'z, 'el, 'sg, 'bo) frame_env \<Rightarrow> Val \<Rightarrow> Val \<Rightarrow> int \<Rightarrow> ('p, 'x, 'z, unit) hostM" where
  "event_transfer E from to amount = amount_event E ''transfer'' [from, to] amount"

definition event_mint :: "('p, 'x, 'z, 'el, 'sg, 'bo) frame_env \<Rightarrow> Val \<Rightarrow> Val \<Rightarrow> int \<Rightarrow> ('p, 'x, 'z, unit) hostM" where
  "event_mint E admin to amount = amount_event E ''mint'' [admin, to] amount"

definition event_clawback :: "('p, 'x, 'z, 'el, 'sg, 'bo) frame_env \<Rightarrow> Val \<Rightarrow> Val \<Rightarrow> int \<Rightarrow> ('p, 'x, 'z, unit) hostM" where
  "event_clawback E admin from amount = amount_event E ''clawback'' [admin, from] amount"

definition event_burn :: "('p, 'x, 'z, 'el, 'sg, 'bo) frame_env \<Rightarrow> Val \<Rightarrow> int \<Rightarrow> ('p, 'x, 'z, unit) hostM" where
  "event_burn E from amount = amount_event E ''burn'' [from] amount"

definition event_set_authorized :: "('p, 'x, 'z, 'el, 'sg, 'bo) frame_env \<Rightarrow> Val \<Rightarrow> Val \<Rightarrow> bool \<Rightarrow> ('p, 'x, 'z, unit) hostM" where
  "event_set_authorized E admin addr authorize =
     bindM (event_topics E ''set_authorized'' [admin, addr]) (\<lambda>topics.
       record_contract_event E ContractEvent topics (from_bool authorize))"

definition event_set_admin :: "('p, 'x, 'z, 'el, 'sg, 'bo) frame_env \<Rightarrow> Val \<Rightarrow> Val \<Rightarrow> ('p, 'x, 'z, unit) hostM" where
  "event_set_admin E admin new_admin =
     bindM (event_topics E ''set_admin'' [admin]) (\<lambda>topics.
       record_contract_event E ContractEvent topics new_admin)"

section \<open>Functions (contract.rs)\<close>

abbreviation bump_instance :: "('p, 'x, 'z, 'el, 'sg, 'bo) frame_env \<Rightarrow> ('p, 'x, 'z, Val) hostM" where
  "bump_instance E \<equiv>
     extend_current_contract_instance_and_code_ttl (henv E) INSTANCE_TTL_THRESHOLD INSTANCE_EXTEND_AMOUNT"

definition init_credit_asset ::
  "('p, 'x, 'z, 'el, 'sg, 'bo) frame_env \<Rightarrow> (Val \<Rightarrow> Val \<Rightarrow> AssetInfo) \<Rightarrow> u8 list \<Rightarrow> u256 \<Rightarrow> ('p, 'x, 'z, unit) hostM" where
  "init_credit_asset E info code issuer =
     bindM (address_from_account E issuer) (\<lambda>admin.
     thenM (write_administrator E admin)
     (bindM (onObjects (string_obj (aenv E) code)) (\<lambda>asset_code.
      bindM (onB (clone_sized 32 issuer)) (\<lambda>i.
      bindM (onObjects (bytes_of_u256 (aenv E) i)) (\<lambda>issuer_bytes.
        write_asset_info E (info asset_code issuer_bytes))))))"

definition init_asset :: "('p, 'x, 'z, 'el, 'sg, 'bo) frame_env \<Rightarrow> Val \<Rightarrow> ('p, 'x, 'z, unit) hostM" where
  "init_asset E asset_bytes =
     bindM (has_asset_info E) (\<lambda>present.
     if present then throwC AlreadyInitializedError
     else bindM (onObjects (obj_asset E asset_bytes)) (\<lambda>asset.
     thenM (ofSum (validate_asset asset))
     (bindM get_current_contract_id_internal (\<lambda>curr_contract_id.
     bindM (onB (clone_asset (aenv E) asset)) (\<lambda>a.
     bindM (onObjects (preimage_hash E (PreimageFromAsset a))) (\<lambda>expected_contract_id.
     if curr_contract_id \<noteq> expected_contract_id then throwC CE_InternalError
     else thenM (case asset of
         NativeAsset \<Rightarrow> write_asset_info E InfoNative
       | CreditAlphanum4 code issuer \<Rightarrow> init_credit_asset E InfoAlphaNum4 code issuer
       | CreditAlphanum12 code issuer \<Rightarrow> init_credit_asset E InfoAlphaNum12 code issuer)
     (set_metadata E)))))))"

definition asset_allowance :: "('p, 'x, 'z, 'el, 'sg, 'bo) frame_env \<Rightarrow> Val \<Rightarrow> Val \<Rightarrow> ('p, 'x, 'z, int) hostM" where
  "asset_allowance E from spender = thenM (bump_instance E) (read_allowance E from spender)"

definition asset_balance :: "('p, 'x, 'z, 'el, 'sg, 'bo) frame_env \<Rightarrow> Val \<Rightarrow> ('p, 'x, 'z, int) hostM" where
  "asset_balance E addr = thenM (bump_instance E) (read_balance E addr)"

definition asset_authorized :: "('p, 'x, 'z, 'el, 'sg, 'bo) frame_env \<Rightarrow> Val \<Rightarrow> ('p, 'x, 'z, bool) hostM" where
  "asset_authorized E addr = thenM (bump_instance E) (is_authorized E addr)"

text \<open>
  A function that asks for an authorization: what it does before, the address that must authorize,
  and what it does after the lifetime of the instance has been extended.
\<close>

definition authorized_step ::
  "('p, 'x, 'z, 'el, 'sg, 'bo) frame_env \<Rightarrow> ('p, 'x, 'z) runner \<Rightarrow> ('p, 'x, 'z, Val) hostM \<Rightarrow> (Val \<Rightarrow> ('p, 'x, 'z, unit) hostM) \<Rightarrow> ('p, 'x, 'z, unit) txM" where
  "authorized_step E run before after =
     bindM (onHost before) (\<lambda>who.
     thenM (require_auth_fn E run who)
       (onHost (thenM (bump_instance E) (after who))))"

definition approve :: "('p, 'x, 'z, 'el, 'sg, 'bo) frame_env \<Rightarrow> ('p, 'x, 'z) runner \<Rightarrow> Val \<Rightarrow> Val \<Rightarrow> int \<Rightarrow> u32 \<Rightarrow> ('p, 'x, 'z, unit) txM" where
  "approve E run from spender amount live_until_ledger =
     authorized_step E run (thenM (check_nonnegative_amount amount) (retM from)) (\<lambda>_.
       bindM (clone_address from) (\<lambda>f.
       bindM (clone_address spender) (\<lambda>s.
       thenM (write_allowance E f s amount live_until_ledger)
         (event_approve E from spender amount live_until_ledger))))"

text \<open>Moving an amount, and the event.\<close>

definition move_balance :: "('p, 'x, 'z, 'el, 'sg, 'bo) frame_env \<Rightarrow> Val \<Rightarrow> Val \<Rightarrow> int \<Rightarrow> ('p, 'x, 'z, unit) hostM" where
  "move_balance E from to amount =
     bindM (clone_address from) (\<lambda>f.
     thenM (spend_balance E f amount)
     (bindM (clone_address to) (\<lambda>t.
     thenM (receive_balance E t amount) (event_transfer E from to amount))))"

definition transfer :: "('p, 'x, 'z, 'el, 'sg, 'bo) frame_env \<Rightarrow> ('p, 'x, 'z) runner \<Rightarrow> Val \<Rightarrow> Val \<Rightarrow> int \<Rightarrow> ('p, 'x, 'z, unit) txM" where
  "transfer E run from to amount =
     authorized_step E run (thenM (check_nonnegative_amount amount) (retM from)) (\<lambda>_.
       move_balance E from to amount)"

definition transfer_from :: "('p, 'x, 'z, 'el, 'sg, 'bo) frame_env \<Rightarrow> ('p, 'x, 'z) runner \<Rightarrow> Val \<Rightarrow> Val \<Rightarrow> Val \<Rightarrow> int \<Rightarrow> ('p, 'x, 'z, unit) txM" where
  "transfer_from E run spender from to amount =
     authorized_step E run (thenM (check_nonnegative_amount amount) (retM spender)) (\<lambda>_.
       bindM (clone_address from) (\<lambda>f.
       thenM (spend_allowance E f spender amount) (move_balance E from to amount)))"

definition burn :: "('p, 'x, 'z, 'el, 'sg, 'bo) frame_env \<Rightarrow> ('p, 'x, 'z) runner \<Rightarrow> Val \<Rightarrow> int \<Rightarrow> ('p, 'x, 'z, unit) txM" where
  "burn E run from amount =
     authorized_step E run
       (thenM (check_nonnegative_amount amount) (thenM (check_non_native E)
         (thenM (check_not_issuer E from) (retM from)))) (\<lambda>_.
       bindM (clone_address from) (\<lambda>f. thenM (spend_balance E f amount) (event_burn E from amount)))"

definition burn_from :: "('p, 'x, 'z, 'el, 'sg, 'bo) frame_env \<Rightarrow> ('p, 'x, 'z) runner \<Rightarrow> Val \<Rightarrow> Val \<Rightarrow> int \<Rightarrow> ('p, 'x, 'z, unit) txM" where
  "burn_from E run spender from amount =
     authorized_step E run
       (thenM (check_nonnegative_amount amount) (thenM (check_non_native E)
         (thenM (check_not_issuer E from) (retM spender)))) (\<lambda>_.
       bindM (clone_address from) (\<lambda>f.
       thenM (spend_allowance E f spender amount)
       (bindM (clone_address from) (\<lambda>f. thenM (spend_balance E f amount) (event_burn E from amount)))))"

definition clawback :: "('p, 'x, 'z, 'el, 'sg, 'bo) frame_env \<Rightarrow> ('p, 'x, 'z) runner \<Rightarrow> Val \<Rightarrow> int \<Rightarrow> ('p, 'x, 'z, unit) txM" where
  "clawback E run from amount =
     authorized_step E run
       (thenM (check_nonnegative_amount amount)
       (bindM (clone_address from) (\<lambda>f.
        thenM (check_clawbackable E f) (thenM (check_not_issuer E from) (read_administrator E))))) (\<lambda>admin.
       bindM (clone_address from) (\<lambda>f.
       thenM (spend_balance_no_authorization_check E f amount) (event_clawback E admin from amount)))"

definition set_authorized :: "('p, 'x, 'z, 'el, 'sg, 'bo) frame_env \<Rightarrow> ('p, 'x, 'z) runner \<Rightarrow> Val \<Rightarrow> bool \<Rightarrow> ('p, 'x, 'z, unit) txM" where
  "set_authorized E run addr authorize =
     authorized_step E run (read_administrator E) (\<lambda>admin.
       bindM (clone_address addr) (\<lambda>a.
       thenM (write_authorization E a authorize) (event_set_authorized E admin addr authorize)))"

definition mint :: "('p, 'x, 'z, 'el, 'sg, 'bo) frame_env \<Rightarrow> ('p, 'x, 'z) runner \<Rightarrow> Val \<Rightarrow> int \<Rightarrow> ('p, 'x, 'z, unit) txM" where
  "mint E run to amount =
     authorized_step E run
       (thenM (check_nonnegative_amount amount) (thenM (check_not_issuer E to) (read_administrator E))) (\<lambda>admin.
       bindM (clone_address to) (\<lambda>t.
       thenM (receive_balance E t amount) (event_mint E admin to amount)))"

definition set_admin :: "('p, 'x, 'z, 'el, 'sg, 'bo) frame_env \<Rightarrow> ('p, 'x, 'z) runner \<Rightarrow> Val \<Rightarrow> ('p, 'x, 'z, unit) txM" where
  "set_admin E run new_admin =
     authorized_step E run (read_administrator E) (\<lambda>admin.
       bindM (clone_address new_admin) (\<lambda>a.
       thenM (write_administrator E a) (event_set_admin E admin new_admin)))"

section \<open>Dispatch\<close>

text \<open>Every name is compared; the first match counts.\<close>

fun symbol_index_loop ::
  "('p, 'x, 'z, 'el, 'sg, 'bo) frame_env \<Rightarrow> Val \<Rightarrow> nat \<Rightarrow> nat option \<Rightarrow> string list \<Rightarrow> ('p, 'x, 'z, nat option) hostM" where
  "symbol_index_loop E symbol i found [] = retM found"
| "symbol_index_loop E symbol i found (nm # names) =
     bindM (onObjects (symbol_matches (aenv E) nm symbol)) (\<lambda>b.
       symbol_index_loop E symbol (i + 1) (if b \<and> found = None then Some i else found) names)"

definition symbol_index_in_strs :: "('p, 'x, 'z, 'el, 'sg, 'bo) frame_env \<Rightarrow> Val \<Rightarrow> string list \<Rightarrow> ('p, 'x, 'z, u32) hostM" where
  "symbol_index_in_strs E symbol names =
     bindM (symbol_index_loop E symbol 0 None names) (\<lambda>found. case found of
       None \<Rightarrow> throwM (Err Value InvalidInput)
     | Some idx \<Rightarrow> if idx < 2 ^ 32 then retM (of_nat idx) else throwM (Err Value ArithDomain))"

datatype asset_op =
    InitAsset Val
  | Allowance Val Val
  | Approve Val Val int u32
  | Balance Val
  | Authorized Val
  | Transfer Val Val int
  | TransferFrom Val Val Val int
  | Burn Val int
  | BurnFrom Val Val int
  | Clawback Val int
  | SetAuthorized Val bool
  | Mint Val int
  | SetAdmin Val
  | Admin
  | Decimals
  | Name
  | SymbolOf

text \<open>A decoder of an argument list: what it makes of the arguments in order, when their number is right.\<close>

definition bytes_from_val :: "Val \<Rightarrow> ('s, Val) hm" where
  "bytes_from_val v = (if has_tag v TagBytesObject then retM v else throwM (Err Value UnexpectedType))"

definition u32_from_val :: "Val \<Rightarrow> ('s, u32) hm" where
  "u32_from_val v = okOrM (u32_try_convert v) (Err Value UnexpectedType)"

definition bool_from_val :: "Val \<Rightarrow> ('s, bool) hm" where
  "bool_from_val v = okOrM (bool_try_convert v) (Err Value UnexpectedType)"

abbreviation i128_from_val :: "('p, 'x, 'z, 'el, 'sg, 'bo) frame_env \<Rightarrow> Val \<Rightarrow> ('p, 'x, 'z, int) hostM" where
  "i128_from_val E v \<equiv> onObjects (val_i128 (aenv E) v)"

definition wrong_args :: "('s, 'r) hm" where
  "wrong_args = throwM (Err Context UnexpectedSize)"

definition args0 :: "asset_op \<Rightarrow> Val list \<Rightarrow> ('s, asset_op) hm" where
  "args0 f args = (case args of [] \<Rightarrow> retM f | _ \<Rightarrow> wrong_args)"

definition args1 :: "(Val \<Rightarrow> ('s, 'a) hm) \<Rightarrow> ('a \<Rightarrow> asset_op) \<Rightarrow> Val list \<Rightarrow> ('s, asset_op) hm" where
  "args1 c f args = (case args of [v] \<Rightarrow> bindM (c v) (\<lambda>a. retM (f a)) | _ \<Rightarrow> wrong_args)"

definition args2 ::
  "(Val \<Rightarrow> ('s, 'a) hm) \<Rightarrow> (Val \<Rightarrow> ('s, 'b) hm) \<Rightarrow> ('a \<Rightarrow> 'b \<Rightarrow> asset_op) \<Rightarrow> Val list \<Rightarrow> ('s, asset_op) hm" where
  "args2 c d f args = (case args of
     [v, w] \<Rightarrow> bindM (c v) (\<lambda>a. bindM (d w) (\<lambda>b. retM (f a b))) | _ \<Rightarrow> wrong_args)"

definition args3 ::
  "(Val \<Rightarrow> ('s, 'a) hm) \<Rightarrow> (Val \<Rightarrow> ('s, 'b) hm) \<Rightarrow> (Val \<Rightarrow> ('s, 'c) hm) \<Rightarrow> ('a \<Rightarrow> 'b \<Rightarrow> 'c \<Rightarrow> asset_op) \<Rightarrow>
     Val list \<Rightarrow> ('s, asset_op) hm" where
  "args3 c d g f args = (case args of
     [v, w, u] \<Rightarrow> bindM (c v) (\<lambda>a. bindM (d w) (\<lambda>b. bindM (g u) (\<lambda>x. retM (f a b x)))) | _ \<Rightarrow> wrong_args)"

definition args4 ::
  "(Val \<Rightarrow> ('s, 'a) hm) \<Rightarrow> (Val \<Rightarrow> ('s, 'b) hm) \<Rightarrow> (Val \<Rightarrow> ('s, 'c) hm) \<Rightarrow> (Val \<Rightarrow> ('s, 'd) hm) \<Rightarrow>
     ('a \<Rightarrow> 'b \<Rightarrow> 'c \<Rightarrow> 'd \<Rightarrow> asset_op) \<Rightarrow> Val list \<Rightarrow> ('s, asset_op) hm" where
  "args4 c d g k f args = (case args of
     [v, w, u, t] \<Rightarrow> bindM (c v) (\<lambda>a. bindM (d w) (\<lambda>b. bindM (g u) (\<lambda>x. bindM (k t) (\<lambda>y. retM (f a b x y)))))
   | _ \<Rightarrow> wrong_args)"

text \<open>The functions in the order of the implementation block, with the types of their arguments.\<close>

definition asset_functions ::
  "('p, 'x, 'z, 'el, 'sg, 'bo) frame_env \<Rightarrow> (string \<times> (Val list \<Rightarrow> ('p, 'x, 'z, asset_op) hostM)) list" where
  "asset_functions E = [
     (''init_asset'', args1 bytes_from_val InitAsset),
     (''allowance'', args2 address_from_val address_from_val Allowance),
     (''approve'', args4 address_from_val address_from_val (i128_from_val E) u32_from_val Approve),
     (''balance'', args1 address_from_val Balance),
     (''authorized'', args1 address_from_val Authorized),
     (''transfer'', args3 address_from_val address_from_val (i128_from_val E) Transfer),
     (''transfer_from'', args4 address_from_val address_from_val address_from_val (i128_from_val E) TransferFrom),
     (''burn'', args2 address_from_val (i128_from_val E) Burn),
     (''burn_from'', args3 address_from_val address_from_val (i128_from_val E) BurnFrom),
     (''clawback'', args2 address_from_val (i128_from_val E) Clawback),
     (''set_authorized'', args2 address_from_val bool_from_val SetAuthorized),
     (''mint'', args2 address_from_val (i128_from_val E) Mint),
     (''set_admin'', args1 address_from_val SetAdmin),
     (''admin'', args0 Admin),
     (''decimals'', args0 Decimals),
     (''name'', args0 Name),
     (''symbol'', args0 SymbolOf)]"

definition amount_result :: "('p, 'x, 'z, 'el, 'sg, 'bo) frame_env \<Rightarrow> ('p, 'x, 'z, int) hostM \<Rightarrow> ('p, 'x, 'z, Val) txM" where
  "amount_result E m = onHost (bindM m (\<lambda>n. onObjects (i128_val (aenv E) n)))"

fun asset_function :: "('p, 'x, 'z, 'el, 'sg, 'bo) frame_env \<Rightarrow> ('p, 'x, 'z) runner \<Rightarrow> asset_op \<Rightarrow> ('p, 'x, 'z, Val) txM" where
  "asset_function E run (InitAsset b) = onHost (unitM (init_asset E b))"
| "asset_function E run (Allowance f s) = amount_result E (asset_allowance E f s)"
| "asset_function E run (Approve f s a l) = unitM (approve E run f s a l)"
| "asset_function E run (Balance a) = amount_result E (asset_balance E a)"
| "asset_function E run (Authorized a) = onHost (bindM (asset_authorized E a) (\<lambda>b. retM (from_bool b)))"
| "asset_function E run (Transfer f t a) = unitM (transfer E run f t a)"
| "asset_function E run (TransferFrom s f t a) = unitM (transfer_from E run s f t a)"
| "asset_function E run (Burn f a) = unitM (burn E run f a)"
| "asset_function E run (BurnFrom s f a) = unitM (burn_from E run s f a)"
| "asset_function E run (Clawback f a) = unitM (clawback E run f a)"
| "asset_function E run (SetAuthorized a b) = unitM (set_authorized E run a b)"
| "asset_function E run (Mint t a) = unitM (mint E run t a)"
| "asset_function E run (SetAdmin a) = unitM (set_admin E run a)"
| "asset_function E run Admin = onHost (read_administrator E)"
| "asset_function E run Decimals = retM (from_u32 DECIMAL)"
| "asset_function E run Name = onHost (read_name E)"
| "asset_function E run SymbolOf = onHost (read_symbol E)"

text \<open>\<open>BuiltinContract::call\<close> of the asset contract.\<close>

definition asset_op_of_call :: "('p, 'x, 'z, 'el, 'sg, 'bo) frame_env \<Rightarrow> Val \<Rightarrow> Val list \<Rightarrow> ('p, 'x, 'z, asset_op) hostM" where
  "asset_op_of_call E func args =
     bindM (symbol_index_in_strs E func (map fst (asset_functions E))) (\<lambda>i.
       if unat i < length (asset_functions E) then snd (asset_functions E ! unat i) args
       else throwM (Err Context MissingValue))"

definition asset_call :: "('p, 'x, 'z, 'el, 'sg, 'bo) frame_env \<Rightarrow> ('p, 'x, 'z) runner \<Rightarrow> Val \<Rightarrow> Val list \<Rightarrow> ('p, 'x, 'z, Val) txM" where
  "asset_call E run func args = bindM (onHost (asset_op_of_call E func args)) (asset_function E run)"

end
