(* ===== verification/Host_Run.thy ===== *)
theory Host_Run
  imports Asset_Contract
begin

text \<open>
  Running contracts: the functions of the environment that contract code can call, Wasm contracts
  as programs over these functions, the built-in asset contract, and the host functions a
  transaction invokes (\<^verbatim>\<open>soroban-env-host/src/host.rs\<close>, \<^verbatim>\<open>host/frame.rs\<close>). \<open>run_at n\<close> closes the
  recursion for calls nested at most \<open>n\<close> deep.
\<close>

section \<open>Running contracts\<close>

fun host_fn ::
  "('p, 'x, 'z, 'el, 'sg, 'bo) frame_env \<Rightarrow> ('p, 'x, 'z) runner \<Rightarrow> ('p, 'x, 'z) host_call \<Rightarrow> ('p, 'x, 'z, Val) txM" where
  "host_fn E run (CallObjects m) = onObj m"
| "host_fn E run (CallStorage m) = onHost (onStore m)"
| "host_fn E run (CallData c) = onHost (data_step (henv E) c)"
| "host_fn E run (CallEvent topics data) = unitM (onHost (record_contract_event E ContractEvent topics data))"
| "host_fn E run (CallExtendCurrent threshold extend_to) =
     onHost (extend_current_contract_instance_and_code_ttl (henv E) threshold extend_to)"
| "host_fn E run (CallExtend contract threshold extend_to) =
     bindM (onHost (contract_id_from_address E contract)) (\<lambda>i.
       unitM (onHost (extend_contract_instance_and_code_ttl_from_contract_id (henv E) i threshold extend_to)))"
| "host_fn E run (CallRequireAuth address) = require_auth_fn E run address"
| "host_fn E run (CallRequireAuthForArgs address args) = require_auth_for_args E run address args"
| "host_fn E run (CallAuthorizeAsCurrContract entries) = authorize_as_curr_contract E entries"
| "host_fn E run (CallContract contract func args) = call_fn E run contract func args"
| "host_fn E run (CallTryContract contract func args) = try_call_fn E run contract func args"
| "host_fn E run (CallCreateContract deployer wasm_hash salt) = create_contract E run deployer wasm_hash salt"
| "host_fn E run (CallCreateAssetContract asset) = create_asset_contract E run asset"
| "host_fn E run (CallUploadWasm wasm) =
     bindM (onObj (obj_bytes E wasm)) (\<lambda>bytes. onHost (upload_contract_wasm E bytes))"
| "host_fn E run (CallUpdateWasm hash) = onHost (update_current_contract_wasm E hash)"

primrec exec ::
  "('p, 'x, 'z, 'el, 'sg, 'bo) frame_env \<Rightarrow> ('p, 'x, 'z) runner \<Rightarrow> ('p, 'x, 'z) guest \<Rightarrow> ('p, 'x, 'z, Val) txM" where
  "exec E run (Return v) = retM v"
| "exec E run (Trap e) = throwM e"
| "exec E run (Do c cont) = bindM (host_fn E run c) (\<lambda>v. exec E run (cont v))"

text \<open>One contract function: the code is \<open>None\<close> for the built-in asset contract.\<close>

definition contract_body ::
  "('p, 'x, 'z, 'el, 'sg, 'bo) frame_env \<Rightarrow> ('p, 'x, 'z) runner \<Rightarrow> ('p, 'x, 'z) runner" where
  "contract_body E run code func args = (case code of
     Some c \<Rightarrow> exec E run (wasm_guest E c func args) | None \<Rightarrow> asset_call E run func args)"

primrec run_at :: "('p, 'x, 'z, 'el, 'sg, 'bo) frame_env \<Rightarrow> nat \<Rightarrow> ('p, 'x, 'z) runner" where
  "run_at E 0 = (\<lambda>code func args. throwM context_internal)"
| "run_at E (Suc n) = contract_body E (run_at E n)"

section \<open>Host functions\<close>

datatype HostFunction =
    InvokeContractFn ScAddress Val "Val list"
  | CreateContractFn CreateContractArgs
  | UploadContractWasmFn "u8 list"

definition invoke_function_and_return_val ::
  "('p, 'x, 'z, 'el, 'sg, 'bo) frame_env \<Rightarrow> ('p, 'x, 'z) runner \<Rightarrow> HostFunction \<Rightarrow> ('p, 'x, 'z, Val) txM" where
  "invoke_function_and_return_val E run hf = (case hf of
     InvokeContractFn contract_address func args \<Rightarrow>
       with_frame E (base_host E) (HostFunctionFrame InvokeContract) (case contract_address of
           AccountAddr _ \<Rightarrow> throwM (Err Value UnexpectedType)
         | ContractAddr i \<Rightarrow> call_n_internal E run i func args Prohibited False)
   | CreateContractFn args \<Rightarrow>
       with_frame E (base_host E) (HostFunctionFrame CreateContract)
         (bindM (case contract_id_preimage args of
             PreimageFromAddress address _ \<Rightarrow>
               bindM (onMeter (clone_sized 33 address)) (\<lambda>a. bindM (onObj (address_obj E a)) (\<lambda>d. retM (Some d)))
           | PreimageFromAsset _ \<Rightarrow> retM None) (\<lambda>deployer.
           create_contract_internal E run deployer args))
   | UploadContractWasmFn wasm \<Rightarrow>
       with_frame E (base_host E) (HostFunctionFrame UploadContractWasm) (onHost (upload_contract_wasm E wasm)))"

end
