(* ===== verification/Auth_Stable.thy ===== *)
theory Auth_Stable
  imports Auth_Manager
begin

text \<open>
  What the authorization manager does to the rest of the host: nothing of its own. If every
  operation the host lends it keeps within a preorder \<open>R\<close> on host states, so does every operation of
  the manager, in both modes, on success and on failure. The locale \<open>stable_host\<close> is that contract,
  \<open>stable_frames\<close> the part of it that entering a frame needs.
\<close>

abbreviation on_rest :: "('h \<Rightarrow> 'h \<Rightarrow> bool) \<Rightarrow> 't \<times> 'h \<Rightarrow> 't \<times> 'h \<Rightarrow> bool" where
  "on_rest R \<equiv> (\<lambda>s s'. R (snd s) (snd s'))"

locale stable =
  fixes R :: "'h \<Rightarrow> 'h \<Rightarrow> bool"
  assumes R_refl: "reflp R" and R_trans: "transp R"
begin

lemma R_self [simp]: "R h h"
  using R_refl by (rule reflpD)

lemma stable_host_bind [intro]: "relM R m \<Longrightarrow> (\<And>x. relM R (f x)) \<Longrightarrow> relM R (bindM m f)"
  by (rule relM_bind [OF R_trans])

lemma on_rest_trans: "transp (on_rest R)"
  using R_trans by (auto simp: transp_def)

lemma stable_bind [intro]: "relM (on_rest R) m \<Longrightarrow> (\<And>x. relM (on_rest R) (f x)) \<Longrightarrow> relM (on_rest R) (bindM m f)"
  for m :: "('t \<times> 'h, 'a) hm"
  by (rule relM_bind [OF on_rest_trans])

lemma stable_simps [intro!, simp]:
  "relM R (retM x)" "relM R (throwM e)" "relM R (getM g)" "relM R (okOrM y e)" "relM R (guardM c e)"
  by (auto simp: relM_def m_defs split: option.splits)

lemma stable_rest_simps [intro!, simp]:
  "relM (on_rest R) (retM x)" "relM (on_rest R) (throwM e)" "relM (on_rest R) (getM g)" "relM (on_rest R) (okOrM y e)"
  "relM (on_rest R) (guardM c e)" "relM (on_rest R) (onTracker g')"
  by (auto simp: relM_def m_defs onTracker_def split: option.splits prod.splits)

lemma stable_onHost [intro]: "relM R m \<Longrightarrow> relM (on_rest R) (onHost m)"
  by (auto simp: relM_def onHost_def zoomM_def split: prod.splits) (metis snd_conv)

lemma stable_zoom:
  assumes "relM (on_rest R) m" "\<And>s. snd (g s) = snd s" "\<And>p s. snd (u p s) = snd p"
  shows "relM (on_rest R) (zoomM g u m)"
  unfolding relM_def
proof
  fix s
  obtain r p where "m (g s) = (r, p)" by (cases "m (g s)")
  moreover have "R (snd (g s)) (snd (snd (m (g s))))" using assms(1) unfolding relM_def by blast
  ultimately show "R (snd s) (snd (snd (zoomM g u m s)))" by (simp add: zoomM_def assms(2,3))
qed

lemma stable_collect: "(\<And>m. m \<in> set ms \<Longrightarrow> relM R m) \<Longrightarrow> relM R (collectM ms)"
  by (induction ms) auto

lemma stable_snapshot:
  assumes "\<And>sz n. relM R (chg sz n)"
  shows "relM R (invocation_snapshot chg t)"
proof (induction t)
  case (Invocation f subs x)
  have "relM R (collectM (map (invocation_snapshot chg) subs))"
    by (rule stable_collect) (use Invocation in auto)
  then show ?case using assms by auto
qed

lemma stable_find: "(\<And>a b. relM R (cmp a b)) \<Longrightarrow> relM R (find_unused_sub cmp function i subs)"
  by (induction subs arbitrary: i) (auto simp del: getM_bind)

lemma stable_extend:
  assumes "\<And>a b. relM R (cmp a b)"
  shows "relM (on_rest R) (maybe_extend_invocation_match cmp function allow)"
  unfolding maybe_extend_invocation_match_def set_last_match_def
  using stable_find [OF assms] assms
  by (auto simp del: getM_bind intro!: stable_bind stable_onHost split: sum.split option.split)

end

locale stable_frames = stable R for R :: "'h \<Rightarrow> 'h \<Rightarrow> bool" +
  fixes H :: "('h, 'a, 'v, 'c) auth_host"
  assumes charges: "relM R (init_cpy H sz n)" and contract_address: "relM R (contract_address_object H i)"
begin

lemma stable_manager_snapshot: "relM (on_rest R) (manager_snapshot H)"
proof -
  have s: "relM R (tracker_snapshot (init_cpy H) t)" for t :: "('a, 'v, 'c) auth_tracker"
    unfolding tracker_snapshot_def by (rule stable_snapshot) (rule charges)
  have c: "relM R (snapshot_cell H c)" for c by (cases c) (auto simp: s)
  show ?thesis unfolding manager_snapshot_def
    by (auto simp: charges c s simp del: getM_bind intro!: stable_bind stable_onHost stable_collect
        split: AuthorizationMode.split)
qed

lemma stable_push_cells: "push_cells (init_cpy H) cs h = (r, (cs', h')) \<Longrightarrow> R h h'"
proof (induction cs arbitrary: h r cs' h')
  case (Cons c cs)
  obtain r1 h1 where k: "init_cpy H 8 1 h = (r1, h1)" by (cases "init_cpy H 8 1 h")
  have 1: "R h h1" using charges [of 8 1] k unfolding relM_def by (metis snd_conv)
  obtain r2 cs2 h2 where n: "push_cells (init_cpy H) cs h = (r2, (cs2, h2))" by (cases "push_cells (init_cpy H) cs h") auto
  obtain r3 cs3 h3 where m: "push_cells (init_cpy H) cs h1 = (r3, (cs3, h3))" by (cases "push_cells (init_cpy H) cs h1") auto
  show ?case using Cons.prems Cons.IH [OF n] Cons.IH [OF m] 1 k n m R_trans
    by (cases c; cases r1) (auto simp: tracker_push_run dest: transpD)
qed simp

lemma stable_push_invokers: "push_invokers (init_cpy H) ts h = (r, (ts', h')) \<Longrightarrow> R h h'"
proof (induction ts arbitrary: h r ts' h')
  case (Cons t ts)
  obtain r1 h1 where k: "init_cpy H 8 1 h = (r1, h1)" by (cases "init_cpy H 8 1 h")
  have 1: "R h h1" using charges [of 8 1] k unfolding relM_def by (metis snd_conv)
  obtain r3 ts3 h3 where m: "push_invokers (init_cpy H) ts h1 = (r3, (ts3, h3))" by (cases "push_invokers (init_cpy H) ts h1") auto
  show ?case using Cons.prems Cons.IH [OF m] 1 k m R_trans
    by (cases r1) (auto simp: tracker_push_run dest: transpD)
qed simp

lemma stable_push_tracker: "relM (on_rest R) (push_tracker_frame H)"
proof -
  have "relM (on_rest R) (\<lambda>(am, h). case push_cells (init_cpy H) (account_trackers am) h of
      (r, cs, h) \<Rightarrow> (r, am\<lparr>account_trackers := cs\<rparr>, h))"
    by (auto simp: relM_def split: prod.splits dest: stable_push_cells)
  moreover have "relM (on_rest R) (\<lambda>(am, h). case push_invokers (init_cpy H) (invoker_contract_trackers am) h of
      (r, ts, h) \<Rightarrow> (r, am\<lparr>invoker_contract_trackers := ts\<rparr>, h))"
    by (auto simp: relM_def split: prod.splits dest: stable_push_invokers)
  ultimately show ?thesis unfolding push_tracker_frame_def by (rule stable_bind)
qed

lemma stable_push: "relM (on_rest R) (push_frame H f)" "relM (on_rest R) (push_create_contract_host_fn_frame H c)"
  unfolding push_frame_def push_create_contract_host_fn_frame_def push_call_stack_def
  by (auto simp: contract_address charges stable_push_tracker stable_manager_snapshot split: option.split
      intro!: stable_bind stable_onHost)

end

locale stable_host = stable_frames R H for R :: "'h \<Rightarrow> 'h \<Rightarrow> bool" and H :: "('h, 'a, 'v, 'c) auth_host" +
  assumes compares: "relM R (cmp_address H a a')" "relM R (cmp_symbol H s s')" "relM R (cmp_args H as as')"
      "relM R (cmp_create H c c')"
    and clones: "relM R (clone_symbol H s)" "relM R (clone_create H c)"
    and source: "relM R (source_account_address H)"
    and nonces: "relM R (nonce_prng H)" "relM R (consume_nonce H a nn l)"
begin

lemma stable_compare: "relM R (compare_authorized_function H f f')"
  by (cases "(H, f, f')" rule: compare_authorized_function.cases)
    (auto simp: compare_contract_function_def compares intro!: stable_host_bind)

lemma stable_function: "relM R (to_authorized_function H f args)"
  by (cases "(H, f, args)" rule: to_authorized_function.cases) (auto simp: clones)

lemma stable_active: "relM R (has_active_tracker H address cs)"
proof (induction cs)
  case (Cons c cs)
  then show ?case by (cases c) (auto simp: compares intro!: stable_host_bind)
qed simp

lemma stable_nonce: "relM R (verify_and_consume_nonce H t)"
  unfolding verify_and_consume_nonce_def with_ledger_info_def max_live_until_ledger_def
  by (auto simp: nonces simp del: getM_bind intro!: stable_host_bind split: option.split)

lemma stable_recording: "relM R (account_new_recording H void address function n)"
  unfolding account_new_recording_def
  by (auto simp: nonces source compares intro!: stable_host_bind split: option.split)

lemma stable_record: "relM (on_rest R) (account_record_invocation i t function)"
  by (auto simp: relM_def account_record_invocation_def split: prod.splits)

lemma stable_record_loop: "relM (on_rest R) (record_loop H address function js)"
proof (induction js)
  case (Cons i js)
  show ?case unfolding record_loop.simps
    by (auto simp: compares stable_record Cons simp del: getM_bind intro!: stable_bind stable_onHost split: cell.split)
qed simp

lemma stable_require_recording: "relM (on_rest R) (require_auth_recording H void address function handles disable)"
  unfolding require_auth_recording_def Let_def set_handles_def
  by (auto simp: stable_record stable_record_loop stable_recording simp del: getM_bind
      intro!: stable_bind stable_onHost split: option.split cell.split AuthorizationMode.split)

lemma stable_invoker_loop: "invoker_loop H address function ts h = (r, (ts', h')) \<Longrightarrow> R h h'"
proof (induction ts arbitrary: h r ts' h')
  case (Cons t ts)
  obtain r1 h1 where c: "cmp_address H (inv_contract_address t) address h = (r1, h1)"
    by (cases "cmp_address H (inv_contract_address t) address h")
  have 1: "R h h1" using compares(1) c unfolding relM_def by (metis snd_conv)
  have m: "relM (on_rest R) (invoker_maybe_authorize_invocation H function)"
    unfolding invoker_maybe_authorize_invocation_def
    by (rule stable_zoom [OF stable_extend [OF stable_compare]]) (auto split: prod.splits)
  obtain r2 t2 h2 where i: "(if r1 = Inr Equal then invoker_maybe_authorize_invocation H function (t, h1) else (Inr False, (t, h1))) = (r2, (t2, h2))"
    by (cases "(if r1 = Inr Equal then invoker_maybe_authorize_invocation H function (t, h1) else (Inr False, (t, h1)))") auto
  have 2: "R h1 h2" using m i unfolding relM_def by (metis (no_types, lifting) prod.inject prod.collapse R_self)
  obtain r3 ts3 h3 where l: "invoker_loop H address function ts h2 = (r3, (ts3, h3))"
    by (cases "invoker_loop H address function ts h2") auto
  have 3: "R h2 h3" by (rule Cons.IH [OF l])
  have "h' = h1 \<or> h' = h2 \<or> h' = h3"
    using Cons.prems c i l by (auto split: sum.splits bool.splits if_splits prod.splits)
  then show ?case using 1 2 3 R_trans by (meson transpD)
qed simp

lemma stable_check_invoker: "relM (on_rest R) (maybe_check_invoker_contract_auth H address function)"
proof -
  have l: "relM (on_rest R) (\<lambda>(am, h). case invoker_loop H address function (invoker_contract_trackers am) h of
      (r, ts, h') \<Rightarrow> (r, am\<lparr>invoker_contract_trackers := ts\<rparr>, h'))"
    by (auto simp: relM_def split: prod.splits dest: stable_invoker_loop)
  show ?thesis unfolding maybe_check_invoker_contract_auth_def
    by (auto simp: compares l simp del: getM_bind intro!: stable_bind stable_onHost l split: AuthStackFrame.split)
qed

lemma stable_entries:
  assumes "\<And>e. relM R (read_entry e)"
  shows "relM (on_rest R) (add_invoker_contract_auth H read_entry es)"
proof -
  have "relM (on_rest R) (add_invoker_entries read_entry es)"
    by (induction es) (auto simp: assms split: prod.split intro!: stable_bind stable_onHost)
  then show ?thesis unfolding add_invoker_contract_auth_def by (auto simp: charges intro!: stable_bind stable_onHost)
qed

text \<open>Requiring authorization, when authentication keeps within \<open>R\<close> too.\<close>

lemma stable_authorize:
  assumes "\<And>a n sig root. relM (on_rest R) (check_auth H a n sig root)"
  shows "relM (on_rest (on_rest R)) (account_maybe_authorize_invocation H function allow)"
proof -
  have tr: "transp (on_rest (on_rest R) :: 't \<times> 'u \<times> 'h \<Rightarrow> _)" using R_trans by (auto simp: transp_def)
  have z: "relM (on_rest (on_rest R)) (zoomM (\<lambda>(t, a, h). (acc_tracker t, h)) (\<lambda>(tr, h') (t, a, h). (t\<lparr>acc_tracker := tr\<rparr>, a, h'))
      (maybe_extend_invocation_match (compare_authorized_function H) function allow))"
  proof -
    have "relM (on_rest R) (maybe_extend_invocation_match (compare_authorized_function H) function allow)"
      by (rule stable_extend) (rule stable_compare)
    then show ?thesis by (auto simp: relM_def zoomM_def split: prod.splits) (metis snd_conv)
  qed
  have a: "relM (on_rest R) (mapErrM g (authenticate H t))" for g t
    using assms by (auto simp: relM_def mapErrM_def authenticate_def retM_def split: prod.splits sum.splits) (metis snd_conv)+
  have l: "relM (on_rest R) m \<Longrightarrow> relM (on_rest (on_rest R)) (onHost m)" for m :: "('u \<times> 'h, 'r) hm"
    by (auto simp: relM_def onHost_def zoomM_def split: prod.splits) (metis snd_conv)
  have s: "relM (on_rest (on_rest R)) (retM x)" "relM (on_rest (on_rest R)) (getM k)"
      "relM (on_rest (on_rest R)) (onTracker g)" for x :: 'q and k :: "'t \<times> 'u \<times> 'h \<Rightarrow> 'w" and g :: "'t \<Rightarrow> 't"
    by (auto simp: relM_def onTracker_def m_defs split: prod.splits)
  show ?thesis unfolding account_maybe_authorize_invocation_def
    by (rule relM_bind [OF tr z])
      (auto simp: s simp del: getM_bind intro!: relM_bind [OF tr] l a s stable_onHost stable_nonce)
qed

lemma stable_enforce:
  assumes "\<And>a n sig root. relM (on_rest R) (check_auth H a n sig root)"
  shows "relM (on_rest R) (enforce_loop H address function allow js)"
proof (induction js)
  case (Cons i js)
  have b: "relM (on_rest R) (borrow_mut i (account_maybe_authorize_invocation H function allow) t)" for t
  proof -
    have "relM (on_rest (on_rest R)) (account_maybe_authorize_invocation H function allow)"
      by (rule stable_authorize) (rule assms)
    then show ?thesis by (auto simp: relM_def borrow_mut_def split: prod.splits) (metis snd_conv)
  qed
  show ?case unfolding enforce_loop.simps
    by (auto simp: compares b Cons simp del: getM_bind intro!: stable_bind stable_onHost split: cell.split)
qed simp

lemma stable_require:
  assumes "\<And>a n sig root. relM (on_rest R) (check_auth H a n sig root)"
  shows "relM (on_rest R) (require_auth H void address args)"
  unfolding require_auth_def require_auth_internal_def require_auth_enforcing_def
  by (auto simp: stable_function stable_check_invoker stable_enforce [OF assms] stable_active stable_require_recording
      simp del: getM_bind intro!: stable_bind stable_onHost split: AuthorizationMode.split)

end

end
