(* ===== verification/Frame_Stack.thy ===== *)
theory Frame_Stack
  imports Host_Run Auth_Stable
begin

text \<open>
  What contract code can do to the context stack and the events, whatever it is and wherever it
  fails: it works on the topmost context only, never on a frame below it, and it appends to the
  events; earlier events and their marks stay. This is \<open>host_rel\<close>; \<open>calm\<close> is the same for operations
  on the whole state. The argument follows the call structure: an operation is calm when the
  runner of contracts it is given is calm, and \<open>run_at n\<close> is calm by induction on the nesting.
\<close>

section \<open>Steps of one frame\<close>

definition host_rel :: "('p, 'x, 'z) HostState \<Rightarrow> ('p, 'x, 'z) HostState \<Rightarrow> bool" where
  "host_rel h h' \<longleftrightarrow> map frame (context_stack h') = map frame (context_stack h) \<and>
     butlast (context_stack h') = butlast (context_stack h) \<and> hledger h' = hledger h \<and>
     (\<exists>new. hevents h' = hevents h @ new)"

lemma host_rel_refl [simp]: "host_rel h h"
  by (simp add: host_rel_def)

lemma host_rel_trans: "host_rel h1 h2 \<Longrightarrow> host_rel h2 h3 \<Longrightarrow> host_rel h1 h3"
  by (auto simp: host_rel_def)

interpretation frame: stable host_rel
  by unfold_locales (auto simp: reflp_def transp_def intro: host_rel_trans)

lemma host_rel_length: "host_rel h h' \<Longrightarrow> length (context_stack h') = length (context_stack h)"
  unfolding host_rel_def by (metis length_map)

abbreviation calmH :: "('p, 'x, 'z, 'r) hostM \<Rightarrow> bool" where
  "calmH \<equiv> relM host_rel"

abbreviation calm :: "('p, 'x, 'z, 'r) txM \<Rightarrow> bool" where
  "calm \<equiv> relM (on_rest host_rel)"

lemma calmH_D: "calmH m \<Longrightarrow> m h = (r, h') \<Longrightarrow> host_rel h h'"
  unfolding relM_def by (metis snd_conv)

lemma calm_D: "calm m \<Longrightarrow> m (am, h) = (r, (am', h')) \<Longrightarrow> host_rel h h'"
  unfolding relM_def by (metis snd_conv)

lemma calmH_zooms [intro!, simp]: "calmH (onB b)" "calmH (onObjects q)" "calmH (onStore m)" "calmH (ofSum z)"
  by (auto simp: relM_def onB_def onObjects_def onStore_def zoomM_def host_rel_def ofSum_def m_defs
      split: prod.splits sum.splits)

lemma calmH_bind [intro!]: "calmH m \<Longrightarrow> (\<And>x. calmH (f x)) \<Longrightarrow> calmH (bindM m f)"
  by (rule frame.stable_host_bind)

lemma calm_onHost [intro!]: "calmH m \<Longrightarrow> calm (onHost m)"
  by (rule frame.stable_onHost)

lemma calm_bind [intro!]: "calm m \<Longrightarrow> (\<And>x. calm (f x)) \<Longrightarrow> calm (bindM m f)"
  by (rule frame.stable_bind)

lemma calm_onAuth [intro!, simp]: "calm (onAuth m)"
  by (auto simp: relM_def onAuth_def zoomM_def split: prod.splits)

lemma calm_try [intro!]: "calm m \<Longrightarrow> calm (tryM m)"
  by (auto simp: relM_def tryM_def split: prod.splits) (metis snd_conv)

lemma calm_ofSum [intro!, simp]: "calm (ofSum z)"
  by (auto simp: relM_def ofSum_def m_defs split: sum.splits)

lemma calmH_context:
  fixes f :: "('x Context \<times> ('p, 'x, 'z) HostState, 'r) hm"
  assumes "relM ctx_rel f"
  shows "calmH (with_current_context_mut f)"
  unfolding relM_def
proof
  fix h :: "('p, 'x, 'z) HostState"
  obtain r ctx h' where run: "f (last (context_stack h), h) = (r, (ctx, h'))"
    by (cases "f (last (context_stack h), h)") auto
  have rel: "ctx_rel (last (context_stack h), h) (ctx, h')" using assms run unfolding relM_def by (metis snd_conv)
  show "host_rel h (snd (with_current_context_mut f h))"
  proof (cases "context_stack h = []")
    case False
    then have "map frame (context_stack h) = map frame (butlast (context_stack h)) @ [frame (last (context_stack h))]"
      by (metis append_butlast_last_id list.simps(8,9) map_append)
    with rel run False show ?thesis by (simp add: with_current_context_mut_def host_rel_def ctx_rel_def)
  qed (simp add: with_current_context_mut_def)
qed

section \<open>Operations of the host\<close>

lemmas calm_cases = option.split sum.split EntryData.split ScValue.split StorageType.split ContractExecutable.split
  ContractDataDurability.split Frame.split ScAddress.split prod.split

lemma calmH_ids: "calmH get_current_contract_id_opt_internal" "calmH get_current_contract_id_internal"
proof -
  show 1: "calmH get_current_contract_id_opt_internal"
    unfolding get_current_contract_id_opt_internal_def with_current_frame_opt_def
    by (auto simp del: getM_bind split: calm_cases)
  show "calmH get_current_contract_id_internal"
    unfolding get_current_contract_id_internal_def using 1 by (auto split: calm_cases)
qed

lemma calmH_keys:
  "calmH (contract_instance_ledger_key E i)" "calmH (contract_code_ledger_key E i)" "calmH (min_live_until d)"
  "calmH (retrieve_contract_instance_from_storage E k)" "calmH (new_contract_data x)" "calmH (new_contract_code i c)"
  unfolding contract_instance_ledger_key_def contract_code_ledger_key_def min_live_until_def
    get_min_live_until_ledger_def with_ledger_info_def retrieve_contract_instance_from_storage_def
    new_contract_data_def new_contract_code_def
  by (auto simp del: getM_bind split: calm_cases)

lemma calmH_instances:
  "calmH (retrieve_wasm_from_storage E i)" "calmH (wasm_exists E i)" "calmH (store_contract_instance E ex st i k)"
  "calmH (extend_contract_instance_and_code_ttl_from_contract_id E i a b)"
  unfolding retrieve_wasm_from_storage_def wasm_exists_def store_contract_instance_def Let_def
    extend_contract_instance_and_code_ttl_from_contract_id_def
  by (auto simp del: getM_bind intro!: calmH_keys split: calm_cases)

lemma calmH_instance_storage: "calmH (with_instance_storage E f)" "calmH (with_mut_instance_storage E f')"
  unfolding with_instance_storage_def with_mut_instance_storage_def
  by (rule calmH_context; auto simp del: getM_bind intro!: ctxM_bind ctxM_init)+

lemma calmH_persist: "calmH (persist_instance_storage E)"
  unfolding persist_instance_storage_def
  by (auto simp del: getM_bind intro!: calmH_context ctxM_bind calmH_ids calmH_keys calmH_instances split: calm_cases)

lemma calmH_data_keys:
  "calmH (storage_key_for_address E a k d)" "calmH (storage_key_from_scval E x d)" "calmH (storage_key_from_val E v d)"
  "calmH (contract_data_key_from_val E v d)"
  unfolding contract_data_key_from_val_def storage_key_from_val_def storage_key_from_scval_def storage_key_for_address_def
    check_val_representable_scval_def
  by (auto intro!: calmH_ids)

lemma calmH_data: "calmH (data_step E c)"
  by (cases c) (auto simp: put_contract_data_def has_contract_data_def get_contract_data_def del_contract_data_def
      extend_contract_data_ttl_def put_contract_data_into_ledger_def simp del: getM_bind
      intro!: calmH_data_keys calmH_instance_storage calmH_ids calmH_keys split: calm_cases)

lemma calmH_nonce: "calmH (consume_nonce_at E conv a n l)"
  unfolding consume_nonce_at_def by (auto intro!: calmH_data_keys calmH_keys)

lemma calmH_account: "calmH (load_account E acc)" "calmH (check_account_authentication E S acc p s)"
proof -
  show l: "calmH (load_account E acc)"
    unfolding load_account_def to_account_key_def by (auto split: calm_cases)
  have "calmH (check_signatures S account po prev w vs)" for account po prev w vs
    by (induction vs arbitrary: prev w)
      (auto simp: get_signer_weight_from_account_def split: calm_cases)
  then show "calmH (check_account_authentication E S acc p s)"
    unfolding check_account_authentication_def using l by (auto split: calm_cases)
qed

lemma calmH_events: "calmH (record_contract_event E ty topics data)"
proof -
  have "calmH (onEvents (events_record NoDiagnostics (ContractEv c)))" for c
    by (auto simp: relM_def onEvents_def metered_internal_event_push_def on_budget_def host_rel_def m_defs
        split: prod.splits sum.splits)
  then show ?thesis
    unfolding record_contract_event_def bytesobj_from_internal_contract_id_def
    by (auto intro!: calmH_ids split: calm_cases)
qed

lemma calmH_entry: "calmH (to_authorized_invocation E i e)"
proof (induction e)
  case (ContractEntry a f v subs)
  have "calmH (collectM (map (to_authorized_invocation E i) subs))"
    by (rule frame.stable_collect) (use ContractEntry in auto)
  then show ?case by auto
qed (auto split: calm_cases)

lemma calmH_deploy:
  "calmH (create_contract_with_id E i ex)" "calmH (upload_contract_wasm E w)" "calmH (update_current_contract_wasm E h)"
  "calmH (contract_id_from_address E a)" "calmH (invoker_tracker_entry E v)"
  unfolding create_contract_with_id_def upload_contract_wasm_def update_current_contract_wasm_def
    emit_update_contract_event_def contract_id_from_address_def invoker_tracker_entry_def
  by (auto intro!: calmH_keys calmH_instances calmH_ids calmH_events calmH_entry split: calm_cases)

interpretation frame_base: stable_host host_rel "base_host E" for E :: "('p, 'x, 'z, 'el, 'sg, 'bo) frame_env"
  by unfold_locales (auto simp: base_host_def calmH_nonce)

section \<open>Entering and leaving a frame\<close>

text \<open>Entering leaves the ledger, the events and the stack below as they were.\<close>

definition quiet :: "('p, 'x, 'z) HostState \<Rightarrow> ('p, 'x, 'z) HostState \<Rightarrow> bool" where
  "quiet h h' \<longleftrightarrow> context_stack h' = context_stack h \<and> hevents h' = hevents h \<and> hstorage h' = hstorage h \<and>
     hledger h' = hledger h"

lemma quiet_refl [simp]: "quiet h h"
  by (simp add: quiet_def)

interpretation quietly: stable quiet
  by unfold_locales (auto simp: reflp_def transp_def quiet_def)

lemma quiet_zooms [intro!, simp]: "relM quiet (onB b)" "relM quiet (onObjects q)"
  by (auto simp: relM_def onB_def onObjects_def zoomM_def quiet_def split: prod.splits)

interpretation quiet_base: stable_frames quiet "base_host E" for E :: "('p, 'x, 'z, 'el, 'sg, 'bo) frame_env"
  by unfold_locales (auto simp: base_host_def)

lemma quiet_D: "relM quiet m \<Longrightarrow> m h = (r, h') \<Longrightarrow> quiet h h'" and
  quiet_rest_D: "relM (on_rest quiet) n \<Longrightarrow> n (am, h) = (r', (am', h')) \<Longrightarrow> quiet h h'"
  unfolding relM_def by (metis snd_conv)+

lemma push_context_cases:
  assumes "push_context (base_host E) ctx (am, h) = (r, (am', h'))"
  obtains (failed) e where "r = Inl e" "quiet h h'"
  | (pushed) rp h1 where "r = Inr rp" "context_stack h' = context_stack h @ [ctx]" "hevents h' = hevents h"
      "hstorage h' = hstorage h" "hledger h' = hledger h" "rp_storage rp = smap (hstorage h)"
      "rp_events rp = length (hevents h)"
      "push_frame (base_host E) (auth_frame (frame ctx)) (am, h) = (Inr (rp_auth rp), (am', h1))"
proof -
  obtain r1 am1 h1 where p: "push_frame (base_host E) (auth_frame (frame ctx)) (am, h) = (r1, (am1, h1))"
    by (cases "push_frame (base_host E) (auth_frame (frame ctx)) (am, h)") auto
  have q1: "quiet h h1" by (rule quiet_rest_D [OF quiet_base.stable_push(1) p])
  show thesis
  proof (cases r1)
    case (Inl e)
    with assms p have "r = Inl e" "h' = h1" by (simp_all add: push_context_def bindM_def)
    then show thesis using failed q1 by blast
  next
    case (Inr sn)
    obtain r2 h2 where c: "onB (metered_clone storage_map_type (smap (hstorage h1))) h1 = (r2, h2)"
      by (cases "onB (metered_clone storage_map_type (smap (hstorage h1))) h1")
    have q2: "quiet h h2" using q1 quiet_D [OF quiet_zooms(1) c] by (auto simp: quiet_def)
    show thesis
    proof (cases r2)
      case (Inl e)
      with assms p Inr c have "r = Inl e" "h' = h2"
        by (simp_all add: push_context_def bindM_def onHost_run getM_def)
      then show thesis using failed q2 by blast
    next
      case r2: (Inr m)
      have m: "m = smap (hstorage h)"
        using c r2 q1 by (auto simp: onB_def zoomM_Inr quiet_def dest: metered_clone_id)
      obtain r3 h3 where d: "onB (vec_init_cpy 512 1) h2 = (r3, h3)" by (cases "onB (vec_init_cpy 512 1) h2")
      have q3: "quiet h h3" using q2 quiet_D [OF quiet_zooms(1) d] by (auto simp: quiet_def)
      show thesis
      proof (cases r3)
        case (Inl e)
        with assms p Inr c r2 d have "r = Inl e" "h' = h3"
          by (simp_all add: push_context_def bindM_def onHost_run getM_def)
        then show thesis using failed q3 by blast
      next
        case r3: (Inr u)
        have "r = Inr \<lparr>rp_storage = m, rp_events = length (hevents h2), rp_auth = sn\<rparr>"
          "h' = h3\<lparr>context_stack := context_stack h3 @ [ctx]\<rparr>" "am' = am1"
          using assms p Inr c r2 d r3
          by (simp_all add: push_context_def bindM_def onHost_run getM_def modifyM_def retM_def)
        then show thesis using pushed [of "\<lparr>rp_storage = m, rp_events = length (hevents h2), rp_auth = sn\<rparr>" h1] p Inr m q2 q3
          by (simp add: quiet_def)
      qed
    qed
  qed
qed

lemma calmH_emulate: "calmH (emulate_loop E cs)"
  by (induction E cs rule: emulate_loop.induct) (auto intro!: calmH_account split: calm_cases)

text \<open>Leaving: the topmost context goes; a rollback restores the ledger and marks the events.\<close>

lemma pop_context_run:
  assumes "pop_context E orp (am, h) = (r, (am', h'))" "context_stack h = cs @ [ctx]"
    and "auth_mode am = AuthEnforcing \<or> cs \<noteq> []"
  shows "context_stack h' = cs \<and> hledger h' = hledger h \<and>
    (case orp of None \<Rightarrow> hevents h' = hevents h \<and> hstorage h' = hstorage h
     | Some rp \<Rightarrow> hevents h' = events_rollback (rp_events rp) (hevents h) \<and>
         hstorage h' = (hstorage h)\<lparr>smap := rp_storage rp\<rparr>) \<and>
    (\<exists>q. pop_frame (map_option rp_auth orp) am = (q, am') \<and> (r = (case q of Inl e \<Rightarrow> Inl e | Inr _ \<Rightarrow> Inr ctx)))"
proof -
  have em: "(if butlast (context_stack h) = [] then maybe_emulate_authentication E else retM ()) (am, s) = (Inr (), (am, s))" for s
    using assms(2,3) by (auto simp: maybe_emulate_authentication_def getM_bind retM_def)
  obtain q am2 where "pop_frame (map_option rp_auth orp) am = (q, am2)" by (cases "pop_frame (map_option rp_auth orp) am")
  with assms(1) em [unfolded assms(2)] show ?thesis
    by (cases orp; cases q)
      (auto simp: pop_context_def bindM_def onHost_run getM_def modifyM_def onAuth_def zoomM_def retM_def assms(2))
qed

lemma pop_context_calm:
  assumes run: "pop_context E orp (am, h) = (r, (am', h'))" and cs: "context_stack h = cs @ [ctx]"
    and ev: "hevents h = old @ new" "\<forall>rp. orp = Some rp \<longrightarrow> rp_events rp = length old"
  shows "context_stack h' = cs \<and> hledger h' = hledger h \<and> (\<exists>new'. hevents h' = old @ new')"
proof -
  let ?h1 = "h\<lparr>context_stack := cs\<rparr>"
  obtain r2 am2 h2 where em: "(if cs = [] then maybe_emulate_authentication E else retM ()) (am, ?h1) = (r2, (am2, h2))"
    by (cases "(if cs = [] then maybe_emulate_authentication E else retM ()) (am, ?h1)") auto
  have "calm (maybe_emulate_authentication E)"
    unfolding maybe_emulate_authentication_def
    by (auto simp del: getM_bind intro!: calmH_emulate split: AuthorizationMode.split)
  then have "calm (if cs = [] then maybe_emulate_authentication E else retM ())" by simp
  from calm_D [OF this em] have rel: "host_rel ?h1 h2" .
  have "cs \<noteq> [] \<Longrightarrow> h2 = ?h1" using em by (simp add: retM_def)
  then have cs2: "context_stack h2 = cs" using rel by (cases "cs = []") (auto simp: host_rel_def)
  obtain new2 where ev2: "hevents h2 = old @ new2" using rel ev(1) by (auto simp: host_rel_def)
  have led: "hledger h2 = hledger h" using rel by (simp add: host_rel_def)
  have run2: "bindM (if cs = [] then maybe_emulate_authentication E else retM ()) (\<lambda>_.
      bindM (case orp of
         Some rp \<Rightarrow>
           thenM (onHost (modifyM (\<lambda>h. h\<lparr>hstorage := (hstorage h)\<lparr>smap := rp_storage rp\<rparr>,
             hevents := events_rollback (rp_events rp) (hevents h)\<rparr>)))
           (retM (Some (rp_auth rp)))
       | None \<Rightarrow> retM None) (\<lambda>auth_snapshot.
      thenM (onAuth (pop_frame auth_snapshot)) (retM ctx))) (am, ?h1) = (r, (am', h'))"
    using run cs by (simp add: pop_context_def bindM_def [of "onHost _"] onHost_run getM_def modifyM_def)
  show ?thesis
  proof (cases r2)
    case (Inl e)
    with run2 em have "h' = h2" by (simp add: bindM_def)
    then show ?thesis using cs2 ev2 led by simp
  next
    case (Inr u)
    obtain q am3 where "pop_frame (map_option rp_auth orp) am2 = (q, am3)" by (cases "pop_frame (map_option rp_auth orp) am2")
    then have "h' = (case orp of None \<Rightarrow> h2 | Some rp \<Rightarrow> h2\<lparr>hstorage := (hstorage h2)\<lparr>smap := rp_storage rp\<rparr>,
             hevents := events_rollback (rp_events rp) (hevents h2)\<rparr>)"
      using run2 em Inr
      by (cases orp; cases q) (auto simp: bindM_def onHost_run modifyM_def onAuth_def zoomM_def retM_def)
    then show ?thesis using cs2 ev2 led ev(2) by (cases orp) (auto simp: events_rollback_def)
  qed
qed

text \<open>The parts of a run of \<open>with_frame\<close>.\<close>

lemma with_frame_cases:
  fixes E :: "('p, 'x, 'z, 'el, 'sg, 'bo) frame_env"
  assumes run: "with_frame E (base_host E) fr f (am, h) = (r, (am', h'))" and f: "calm f"
  obtains (depth) "r = Inl (Err Context ExceededLimit)" "am' = am" "h' = h"
      "(of_nat (length (context_stack h)) :: u32) \<ge> DEFAULT_HOST_DEPTH_LIMIT"
  | (push) e where "r = Inl e" "quiet h h'" "push_context (base_host E) \<lparr>frame = fr, ctx_storage = None\<rparr> (am, h) = (Inl e, (am', h'))"
  | (frame) rp am1 h1 r1 am2 h2 p h3 res r4 where
      "(of_nat (length (context_stack h)) :: u32) < DEFAULT_HOST_DEPTH_LIMIT"
      "push_context (base_host E) \<lparr>frame = fr, ctx_storage = None\<rparr> (am, h) = (Inr rp, (am1, h1))"
      "f (am1, h1) = (r1, (am2, h2))"
      "(case escalate (numbering E) r1 of
          Inr v \<Rightarrow> persist_instance_storage (henv E) h2 = (p, h3) \<and> res = (case p of Inl e \<Rightarrow> Inl e | Inr _ \<Rightarrow> Inr v)
        | Inl e \<Rightarrow> h3 = h2 \<and> res = Inl e)"
      "host_rel h1 h3"
      "pop_context E (case res of Inl _ \<Rightarrow> Some rp | Inr _ \<Rightarrow> None) (am2, h3) = (r4, (am', h'))"
      "r = (case r4 of Inl e \<Rightarrow> Inl e | Inr _ \<Rightarrow> res)" "context_stack h' = context_stack h" "hledger h' = hledger h"
      "\<exists>new. hevents h' = hevents h @ new"
proof (cases "(of_nat (length (context_stack h)) :: u32) \<ge> DEFAULT_HOST_DEPTH_LIMIT")
  case True
  then show thesis using depth run by (simp add: with_frame_def bindM_def onHost_run getM_def throwM_def)
next
  case lim: False
  obtain r0 am1 h1 where p: "push_context (base_host E) \<lparr>frame = fr, ctx_storage = None\<rparr> (am, h) = (r0, (am1, h1))"
    by (cases "push_context (base_host E) \<lparr>frame = fr, ctx_storage = None\<rparr> (am, h)") auto
  from p show thesis
  proof (cases rule: push_context_cases)
    case (failed e)
    then have "r = Inl e" "am' = am1" "h' = h1"
      using run lim p by (simp_all add: with_frame_def bindM_def onHost_run getM_def)
    then show thesis using push [of e] p failed by simp
  next
    case (pushed rp hp)
    obtain r1 am2 h2 where b: "f (am1, h1) = (r1, (am2, h2))" by (cases "f (am1, h1)") auto
    have rel2: "host_rel h1 h2" by (rule calm_D [OF f b])
    obtain p0 h30 where pe: "persist_instance_storage (henv E) h2 = (p0, h30)"
      by (cases "persist_instance_storage (henv E) h2")
    obtain p1 h3 res where res: "(case escalate (numbering E) r1 of
          Inr v \<Rightarrow> persist_instance_storage (henv E) h2 = (p1, h3) \<and> res = (case p1 of Inl e \<Rightarrow> Inl e | Inr _ \<Rightarrow> Inr v)
        | Inl e \<Rightarrow> h3 = h2 \<and> res = Inl e)"
      using pe by (cases "escalate (numbering E) r1") auto
    have rel3: "host_rel h1 h3"
    proof (cases "escalate (numbering E) r1")
      case (Inr v)
      then have "persist_instance_storage (henv E) h2 = (p1, h3)" using res by simp
      from calmH_D [OF calmH_persist this] show ?thesis by (rule host_rel_trans [OF rel2])
    qed (use res rel2 in simp)
    obtain r4 am4 h4 where po: "pop_context E (case res of Inl _ \<Rightarrow> Some rp | Inr _ \<Rightarrow> None) (am2, h3) = (r4, (am4, h4))"
      by (cases "pop_context E (case res of Inl _ \<Rightarrow> Some rp | Inr _ \<Rightarrow> None) (am2, h3)") auto
    have "context_stack h3 \<noteq> []" "butlast (context_stack h3) = context_stack h"
      using rel3 pushed(2) host_rel_length [OF rel3] by (auto simp: host_rel_def)
    then obtain ctx where cs: "context_stack h3 = context_stack h @ [ctx]" by (metis append_butlast_last_id)
    obtain new where ev: "hevents h3 = hevents h @ new" using rel3 pushed(3) by (auto simp: host_rel_def)
    have pc: "context_stack h4 = context_stack h \<and> hledger h4 = hledger h3 \<and> (\<exists>new'. hevents h4 = hevents h @ new')"
      by (rule pop_context_calm [OF po cs ev]) (use pushed(7) in \<open>auto split: sum.splits\<close>)
    have led: "hledger h3 = hledger h" using rel3 pushed(5) by (simp add: host_rel_def)
    have t: "tryM f (am1, h1) = (Inr r1, (am2, h2))" using b by (simp add: tryM_def)
    have q: "(case escalate (numbering E) r1 of
         Inr v \<Rightarrow> bindM (tryM (onHost (persist_instance_storage (henv E)))) (\<lambda>p.
           retM (case p of Inl e \<Rightarrow> Inl e | Inr _ \<Rightarrow> Inr v))
       | Inl e \<Rightarrow> retM (Inl e)) (am2, h2) = (Inr res, (am2, h3))"
      using res by (cases "escalate (numbering E) r1") (auto simp: tryM_def onHost_run bindM_def retM_def)
    have g: "onHost (getM g') (a, k) = (Inr (g' k), (a, k))" for g' :: "('p, 'x, 'z) HostState \<Rightarrow> 'w" and a :: manager and k
      by (simp add: onHost_run getM_def)
    have "r = (case r4 of Inl e \<Rightarrow> Inl e | Inr _ \<Rightarrow> res) \<and> am' = am4 \<and> h' = h4"
      using run lim pc unfolding with_frame_def
      by (cases r4) (simp_all add: bindM_run bindM_run_err g p pushed(1) t q po ofSum_def retM_def throwM_def split: sum.splits)
    then show thesis using frame [OF _ _ b res rel3, of rp r4] lim p pushed(1) po pc led by simp
  qed
qed

lemma with_frame_calm: "calm f \<Longrightarrow> calm (with_frame E (base_host E) fr f)"
  for E :: "('p, 'x, 'z, 'el, 'sg, 'bo) frame_env"
proof -
  assume f: "calm f"
  have "host_rel h h'" if "with_frame E (base_host E) fr f (am, h) = (r, (am', h'))" for am h r am' h'
    using that f by (cases rule: with_frame_cases) (auto simp: host_rel_def quiet_def)
  then show ?thesis unfolding relM_def by (metis prod.collapse)
qed

section \<open>The asset contract\<close>

lemma calmH_get_data: "calmH (put_contract_data E k v t)" "calmH (has_contract_data E k t)" "calmH (get_contract_data E k t)"
  "calmH (extend_contract_data_ttl E k t a b)" "calmH (try_get_contract_data E k t)"
proof -
  show 1: "calmH (put_contract_data E k v t)" "calmH (extend_contract_data_ttl E k t a b)" "calmH (has_contract_data E k t)"
    "calmH (get_contract_data E k t)"
    by (auto simp: put_contract_data_def has_contract_data_def get_contract_data_def
      extend_contract_data_ttl_def put_contract_data_into_ledger_def simp del: getM_bind
      intro!: calmH_data_keys calmH_instance_storage calmH_ids calmH_keys split: calm_cases)
  then show "calmH (try_get_contract_data E k t)" by (auto simp: try_get_contract_data_def)
qed

lemma calmH_throwC [intro!, simp]: "calmH (throwC e)"
  by (simp add: throwC_def)

lemma calmH_asset_info:
  "calmH (write_asset_info E info)" "calmH (read_asset_info E)" "calmH (asset_of_info E info)" "calmH (read_asset E)"
  "calmH (has_asset_info E)" "calmH (address_from_val v)" "calmH (read_administrator E)" "calmH (write_administrator E v)"
proof -
  show 1: "calmH (read_asset_info E)" "calmH (write_asset_info E info)" "calmH (has_asset_info E)"
    "calmH (write_administrator E v)"
    unfolding read_asset_info_def write_asset_info_def has_asset_info_def write_administrator_def
    by (auto intro!: calmH_get_data)
  show 2: "calmH (asset_of_info E info)" for info by (cases info) auto
  show "calmH (read_asset E)" unfolding read_asset_def using 1 2 by auto
  show 3: "calmH (address_from_val v)" for v by (simp add: address_from_val_def)
  show "calmH (read_administrator E)" unfolding read_administrator_def using 3 by (auto intro!: calmH_get_data)
qed

lemma calmH_metadata: "calmH (set_metadata E)" "calmH (read_metadata E)" "calmH (read_name E)" "calmH (read_symbol E)"
  unfolding set_metadata_def read_name_def read_symbol_def read_metadata_def render_sep0011_asset_def
  by (auto intro!: calmH_asset_info calmH_get_data split: AssetInfo.split prod.split)

lemma calmH_read_entry: "calmH (read_classic_entry E ce lk)" for E :: "('p, 'x, 'z, 'el, 'sg, 'bo) frame_env"
  unfolding relM_def
proof
  fix h :: "('p, 'x, 'z) HostState"
  obtain r h1 where g: "onStore (try_get (key_cmp (henv E)) lk) h = (r, h1)"
    by (cases "onStore (try_get (key_cmp (henv E)) lk) h")
  have 1: "host_rel h h1" by (rule calmH_D [OF calmH_zooms(3) g])
  have "host_rel h (snd (bindM (onObjects q) f h1))" if "\<And>x. calmH (f x)"
    for q and f :: "Val \<Rightarrow> ('p, 'x, 'z, 'x EntryData LedgerEntry) hostM"
  proof -
    have "calmH (bindM (onObjects q) f)" using that by auto
    then show ?thesis using host_rel_trans [OF 1] unfolding relM_def by blast
  qed
  then show "host_rel h (snd (read_classic_entry E ce lk h))"
    using g 1 by (auto simp: read_classic_entry_def split: sum.split option.split)
qed

lemma calmH_classic_entries:
  "calmH (to_trustline_key E acc a)" "calmH (modify_ledger_entry_data le d)" "calmH (account_of_entry le)"
  "calmH (trustline_of_entry le)" "calmH (get_min_max_account_balance ae)" "calmH (get_min_max_trustline_balance ln)"
  unfolding to_trustline_key_def modify_ledger_entry_data_def account_of_entry_def trustline_of_entry_def
    get_min_max_account_balance_def get_min_max_trustline_balance_def with_ledger_info_def
  by (auto simp del: getM_bind split: EntryData.split option.split)

lemma calmH_to_account_key: "calmH (to_account_key E acc)"
  unfolding to_account_key_def by auto

lemmas calmH_classic = calmH_read_entry calmH_classic_entries calmH_to_account_key

lemma calmH_classic_balances:
  "calmH (transfer_account_balance E acc n)" "calmH (transfer_trustline_balance E acc a n)" "calmH (get_account_balance E acc)"
  "calmH (get_trustline_balance E acc a)" "calmH (get_trustline_flags E acc a)" "calmH (set_trustline_authorization E acc a b)"
  unfolding transfer_account_balance_def transfer_trustline_balance_def get_account_balance_def get_trustline_balance_def
    get_trustline_flags_def set_trustline_authorization_def read_account_entry_def read_trustline_entry_def
  by (auto intro!: calmH_classic split: option.split prod.split)

lemma calmH_by_asset: "calmH m \<Longrightarrow> (\<And>a i. calmH (f a i)) \<Longrightarrow> calmH (by_asset E m f)"
  unfolding by_asset_def by (auto intro!: calmH_asset_info split: Asset.split)

lemma calmH_flags:
  "calmH (is_account_authorized E acc)" "calmH (set_authorization E acc b)" "calmH (is_asset_issuer_flag_set E fl)"
  "calmH (is_asset_auth_required E)" "calmH (is_asset_clawback_enabled E)" "calmH (is_asset_auth_revocable E)"
  unfolding is_account_authorized_def set_authorization_def is_asset_auth_required_def is_asset_clawback_enabled_def
    is_asset_auth_revocable_def is_asset_issuer_flag_set_def is_issuer_flag_set_def is_trustline_authorized_def
  by (auto intro!: calmH_by_asset calmH_classic_balances calmH_asset_info calmH_account split: AssetInfo.split)

lemma calmH_stored:
  "calmH (stored_balance E a)" "calmH (extend_balance_ttl E a)" "calmH (write_contract_balance E a b)"
  "calmH (stored_allowance E a s)"
  unfolding stored_balance_def extend_balance_ttl_def write_contract_balance_def stored_allowance_def
  by (auto intro!: calmH_get_data)

lemma calmH_is_authorized: "calmH (is_authorized E a)"
  unfolding is_authorized_def by (auto intro!: calmH_stored calmH_flags split: ScAddress.split option.split)

lemma calmH_check_authorized: "calmH (check_authorized E a)"
  unfolding check_authorized_def by (auto intro!: calmH_is_authorized)

lemma calmH_transfer_classic: "calmH (transfer_classic_balance E acc n)"
  unfolding transfer_classic_balance_def by (auto intro!: calmH_by_asset calmH_classic_balances)

lemma calmH_balances:
  "calmH (read_balance E a)" "calmH (receive_balance E a n)" "calmH (spend_balance_no_authorization_check E a n)"
  "calmH (spend_balance E a n)" "calmH (write_authorization E a b)" "calmH (check_clawbackable E a)"
  unfolding read_balance_def get_classic_balance_def receive_balance_def receive_contract_balance_def spend_balance_def
    spend_balance_no_authorization_check_def spend_contract_balance_def write_authorization_def check_clawbackable_def
  by (auto intro!: calmH_by_asset calmH_classic_balances calmH_transfer_classic calmH_stored calmH_flags
      calmH_check_authorized split: ScAddress.split option.split)

lemma calmH_live_until: "calmH (check_live_until n l)"
  unfolding check_live_until_def max_live_until_ledger_def with_ledger_info_def
  by (auto simp del: getM_bind split: option.split)

lemma calmH_allowances: "calmH (read_allowance E a s)" "calmH (write_allowance E a s n l)"
  "calmH (write_allowance_amount E a s n)" "calmH (spend_allowance E a s n)"
proof -
  show 1: "calmH (read_allowance E a s)" for a s
    unfolding read_allowance_def with_ledger_info_def
    by (auto simp del: getM_bind intro!: calmH_stored split: option.split)
  show 2: "calmH (write_allowance E a s n l)" for n l
    unfolding write_allowance_def Let_def
    by (auto intro!: calmH_live_until calmH_stored calmH_get_data split: option.split prod.split)
  show 3: "calmH (write_allowance_amount E a s n)" for n
    unfolding write_allowance_amount_def by (auto intro!: calmH_get_data 2)
  show "calmH (spend_allowance E a s n)"
    unfolding spend_allowance_def by (auto intro!: 1 3 split: option.split)
qed

lemma calmH_asset_events:
  "calmH (event_approve E a b n l)" "calmH (amount_event E nm as n)" "calmH (event_set_authorized E a b v)"
  "calmH (event_set_admin E a b)"
  unfolding event_approve_def amount_event_def event_set_authorized_def event_set_admin_def event_topics_def
  by (auto intro!: calmH_metadata calmH_events)

lemma calmH_checks: "calmH (check_nonnegative_amount n)" "calmH (check_non_native E)" "calmH (check_not_issuer E a)"
  "calmH (address_from_account E i)"
  unfolding check_nonnegative_amount_def check_non_native_def check_not_issuer_def issuer_check_def address_from_account_def
  by (auto intro!: calmH_asset_info split: AssetInfo.split)

lemma calmH_bump: "calmH (extend_current_contract_instance_and_code_ttl E a b)"
  unfolding extend_current_contract_instance_and_code_ttl_def by (auto intro!: calmH_ids calmH_instances)

lemma calmH_init: "calmH (init_asset E v)"
  unfolding init_asset_def init_credit_asset_def
  by (auto intro!: calmH_asset_info calmH_metadata calmH_checks calmH_ids split: Asset.split)

lemma calmH_reads: "calmH (asset_allowance E a b)" "calmH (asset_balance E a)" "calmH (asset_authorized E a)"
  unfolding asset_allowance_def asset_balance_def asset_authorized_def
  by (auto intro!: calmH_bump calmH_allowances calmH_balances calmH_is_authorized)

lemma calmH_move: "calmH (move_balance E a b n)"
  unfolding move_balance_def event_transfer_def by (auto intro!: calmH_balances calmH_asset_events)

lemma calmH_op_of_call: "calmH (asset_op_of_call E f args)"
proof -
  have 1: "calmH (symbol_index_loop E v i found ns)" for v i found ns
    by (induction ns arbitrary: i found) auto
  have 2: "g \<in> set (map snd (asset_functions E)) \<Longrightarrow> calmH (g args)" for g
    by (auto simp: asset_functions_def args0_def args1_def args2_def args3_def args4_def wrong_args_def bytes_from_val_def
        u32_from_val_def bool_from_val_def intro!: calmH_asset_info split: list.split)
  have "calmH (snd (asset_functions E ! k) args)" if "k < length (asset_functions E)" for k
    by (rule 2) (use that nth_mem in force)
  with 1 show ?thesis unfolding asset_op_of_call_def symbol_index_in_strs_def by (auto split: option.split)
qed

section \<open>Contract code\<close>

abbreviation calm_runner :: "('p, 'x, 'z) runner \<Rightarrow> bool" where
  "calm_runner run \<equiv> (\<forall>code func args. calm (run code func args))"

lemma calm_call: "calm_runner run \<Longrightarrow> calm (call_n_internal E run i func args md internal)"
  unfolding call_n_internal_def call_contract_fn_def
  by (auto simp del: getM_bind intro!: with_frame_calm calmH_keys calmH_instances split: calm_cases)

lemma calm_authenticate: "calm_runner run \<Longrightarrow> calm (authenticate_address E run a n sig root)"
  unfolding authenticate_address_def check_account_contract_auth_def
  by (auto intro!: calm_call calmH_account split: calm_cases)

lemma calm_require: "calm_runner run \<Longrightarrow> calm (require_auth (frame_host E run) void address args)"
proof -
  assume "calm_runner run"
  then have c: "calm (check_auth (frame_host E run) a n sig root)" for a n sig root
    by (simp add: frame_host_def calm_authenticate)
  have "stable_host host_rel (frame_host E run)"
    by unfold_locales (auto simp: frame_host_def base_host_def calmH_nonce)
  from stable_host.stable_require [OF this c] show ?thesis .
qed

lemma calm_create: "calm_runner run \<Longrightarrow> calm (create_contract_internal E run deployer args)"
  unfolding create_contract_internal_def create_contract_with_optional_auth_def
    maybe_initialize_stellar_asset_contract_def
  by (auto intro!: calm_require calm_call calmH_deploy frame_base.stable_push split: calm_cases ContractIdPreimage.split)

lemma calm_host_fn: "calm_runner run \<Longrightarrow> calm (host_fn E run c)"
  by (cases c) (auto simp: extend_current_contract_instance_and_code_ttl_def require_auth_fn_def with_current_frame_def
      require_auth_for_args_def authorize_as_curr_contract_def call_fn_def try_call_fn_def create_contract_def
      create_asset_contract_def simp del: getM_bind intro!: calmH_data calmH_events calmH_ids calmH_instances calmH_deploy
      calm_require calm_call calm_create frame_base.stable_entries split: calm_cases)

lemma calm_exec: "calm_runner run \<Longrightarrow> calm (exec E run g)"
proof (induction g)
  case (Do c cont)
  then show ?case by (auto intro!: calm_host_fn)
qed auto

lemma calm_authorized_step:
  "calm_runner run \<Longrightarrow> calmH m \<Longrightarrow> (\<And>a. calmH (f a)) \<Longrightarrow> calm (authorized_step E run m f)"
  unfolding authorized_step_def require_auth_fn_def with_current_frame_def
  by (auto simp del: getM_bind intro!: calm_require calmH_bump split: calm_cases)

lemma calm_asset_function: "calm_runner run \<Longrightarrow> calm (asset_function E run op)"
  by (cases op) (auto simp: approve_def transfer_def transfer_from_def burn_def burn_from_def clawback_def set_authorized_def
      mint_def set_admin_def amount_result_def event_burn_def event_clawback_def event_mint_def
      intro!: calm_authorized_step calmH_checks calmH_allowances calmH_balances calmH_asset_events calmH_move calmH_init
        calmH_reads calmH_asset_info calmH_metadata)

lemma calm_contract_body: "calm_runner run \<Longrightarrow> calm (contract_body E run code func args)"
  unfolding contract_body_def asset_call_def
  by (auto intro!: calm_exec calm_asset_function calmH_op_of_call split: option.split)

lemma calm_run_at: "calm_runner (run_at E n)"
  by (induction n) (auto intro!: calm_contract_body)

end
