(* ===== verification/Auth_Mode.thy ===== *)
theory Auth_Mode
  imports Auth_Manager
begin

text \<open>
  The mode of the authorization manager (\<^verbatim>\<open>soroban-env-host/src/auth.rs\<close>) does not change while a
  transaction runs: a manager that enforces authorization keeps enforcing it, whatever an
  operation does and however it ends. The contract of authentication is an argument of the last
  lemma, as authentication may run contract code.
\<close>

definition same_mode ::
  "('a, 'v, 'c) AuthorizationManager \<times> 'h \<Rightarrow> ('a, 'v, 'c) AuthorizationManager \<times> 'h \<Rightarrow> bool" where
  "same_mode s s' \<longleftrightarrow> (auth_mode (fst s) = AuthEnforcing \<longrightarrow> auth_mode (fst s') = AuthEnforcing)"

abbreviation modal :: "('h, 'a, 'v, 'c, 'x) authM \<Rightarrow> bool" where
  "modal \<equiv> relM same_mode"

lemma modal_bind [intro!]: "modal m \<Longrightarrow> (\<And>x. modal (f x)) \<Longrightarrow> modal (bindM m f)"
  by (rule relM_bind) (auto simp: transp_def same_mode_def)

lemma modal_D: "modal m \<Longrightarrow> m (am, h) = (r, (am', h')) \<Longrightarrow> auth_mode am = AuthEnforcing \<Longrightarrow> auth_mode am' = AuthEnforcing"
  unfolding relM_def same_mode_def by (metis fst_conv snd_conv)

lemma modal_simps [intro!, simp]:
  "modal (retM x)" "modal (throwM e)" "modal (getM g)" "modal (okOrM y e)" "modal (guardM c e)" "modal (onHost m)"
  by (auto simp: relM_def same_mode_def m_defs onHost_def split: option.splits prod.splits)

lemma modal_onTracker [intro!]: "(\<And>am. auth_mode am = AuthEnforcing \<Longrightarrow> auth_mode (g am) = AuthEnforcing) \<Longrightarrow> modal (onTracker g)"
  by (auto simp: relM_def same_mode_def onTracker_def modifyM_def)

lemma modal_snapshot: "modal (manager_snapshot H)"
  unfolding manager_snapshot_def by (auto simp del: getM_bind split: AuthorizationMode.split)

lemma modal_push: "modal (push_frame H f)" "modal (push_create_contract_host_fn_frame H c)"
proof -
  have c: "modal (push_call_stack k :: (_, _, _, _, unit) authM)" for k :: "('a, 'b, 'c) AuthStackFrame"
    unfolding push_call_stack_def by (rule modal_onTracker) simp
  have "modal (push_tracker_frame H)"
    unfolding push_tracker_frame_def
    by (rule modal_bind) (auto simp: relM_def same_mode_def split: prod.splits)
  with c show "modal (push_frame H f)" "modal (push_create_contract_host_fn_frame H c)"
    unfolding push_frame_def push_create_contract_host_fn_frame_def
    by (auto simp: modal_snapshot split: option.split)
qed

lemma modal_pop: "pop_frame sn am = (r, am') \<Longrightarrow> auth_mode am = AuthEnforcing \<Longrightarrow> auth_mode am' = AuthEnforcing"
  by (cases sn) (auto simp: pop_frame_def manager_rollback_def m_defs
      split: AccountTrackersSnapshot.splits if_splits prod.splits sum.splits option.splits)

lemma modal_check_invoker: "modal (maybe_check_invoker_contract_auth H address function)"
proof -
  have "modal (\<lambda>(am, h). case invoker_loop H address function (invoker_contract_trackers am) h of
      (r, ts, h') \<Rightarrow> (r, am\<lparr>invoker_contract_trackers := ts\<rparr>, h'))"
    by (auto simp: relM_def same_mode_def split: prod.splits)
  then show ?thesis unfolding maybe_check_invoker_contract_auth_def
    by (auto simp del: getM_bind split: AuthStackFrame.split)
qed

lemma modal_entries: "modal (add_invoker_contract_auth H read_entry es)"
proof -
  have "modal (add_invoker_entries read_entry es)"
    by (induction es) (auto split: prod.split)
  then show ?thesis unfolding add_invoker_contract_auth_def by auto
qed

lemma modal_recording: "modal (require_auth_recording H void address function handles disable)"
proof -
  have r: "modal (account_record_invocation i t function)" for i t
    by (auto simp: relM_def same_mode_def account_record_invocation_def split: prod.splits)
  have l: "modal (record_loop H address function js)" for js
    by (induction js) (auto simp: r simp del: getM_bind split: cell.split)
  show ?thesis unfolding require_auth_recording_def Let_def set_handles_def
    by (auto simp: r l simp del: getM_bind split: option.split cell.split AuthorizationMode.split)
qed

lemma modal_lift: "modal m \<Longrightarrow> relM (\<lambda>s s'. same_mode (snd s) (snd s')) (onHost m)"
  by (auto simp: relM_def onHost_def zoomM_def split: prod.splits) (metis snd_conv)

lemma modal_enforcing:
  assumes "\<And>a n sig root. modal (check_auth H a n sig root)"
  shows "modal (enforce_loop H address function allow js)"
proof (induction js)
  case (Cons i js)
  let ?R = "\<lambda>s s'. same_mode (snd s) (snd s')"
  have a: "relM ?R (account_maybe_authorize_invocation H function allow)"
  proof -
    have tr: "transp ?R" by (auto simp: transp_def same_mode_def)
    have m: "modal (mapErrM g (authenticate H t))" for g t
      using assms by (auto simp: relM_def mapErrM_def authenticate_def same_mode_def retM_def split: prod.splits sum.splits)
        (metis fst_conv snd_conv)+
    have z: "relM ?R (zoomM (\<lambda>(t, a, h). (acc_tracker t, h)) (\<lambda>(tr, h') (t, a, h). (t\<lparr>acc_tracker := tr\<rparr>, a, h')) m)" for m
      by (auto simp: relM_def same_mode_def zoomM_def split: prod.splits)
    have s: "relM ?R (retM x)" "relM ?R (getM k)" "relM ?R (onTracker g)" for x k g
      by (auto simp: relM_def same_mode_def onTracker_def m_defs split: prod.splits)
    show ?thesis unfolding account_maybe_authorize_invocation_def
      by (rule relM_bind [OF tr z]) (auto simp: s simp del: getM_bind intro!: relM_bind [OF tr] modal_lift m s)
  qed
  have "modal (borrow_mut i (account_maybe_authorize_invocation H function allow) t)" for t
    using a by (auto simp: relM_def borrow_mut_def same_mode_def split: prod.splits)
      (metis AuthorizationManager.select_convs(1) AuthorizationManager.surjective
        AuthorizationManager.update_convs(2) fst_conv snd_conv)
  then show ?case unfolding enforce_loop.simps
    by (auto simp: Cons simp del: getM_bind split: cell.split)
qed simp

lemma modal_require:
  assumes "\<And>a n sig root. modal (check_auth H a n sig root)"
  shows "modal (require_auth H void address args)"
  unfolding require_auth_def require_auth_internal_def require_auth_enforcing_def
  by (auto simp: modal_check_invoker modal_enforcing [OF assms] modal_recording
      simp del: getM_bind split: AuthorizationMode.split)

end
