(* ===== verification/Frame_Instance.thy ===== *)
theory Frame_Instance
  imports Host_Run
begin

text \<open>
  A concrete environment for contract calls, for the witnesses: words as XDR values and objects, no
  object table, copies charged by size, and every contract running the program \<open>g\<close>. On the host
  \<open>calling_host\<close> contract 7 is running and contract 9 is a deployed asset contract.
\<close>

section \<open>The environment\<close>

definition plain_symbol :: "Val \<Rightarrow> string" where
  "plain_symbol v = (if v = 1 then ''__check_auth'' else ''fn'')"

definition plain_scaddress :: "Val \<Rightarrow> ScAddress" where
  "plain_scaddress v = (if even v then AccountAddr (ucast (v div 2)) else ContractAddr (ucast (v div 2)))"

definition plain_objects :: "ScAddress \<Rightarrow> Val" where
  "plain_objects a = (case a of AccountAddr i \<Rightarrow> 2 * ucast i | ContractAddr i \<Rightarrow> 2 * ucast i + 1)"

text \<open>
  Keys of the asset contract are numbered, conversions forget everything but what the examples
  need: the asset is native, and stored balances and allowances are empty.
\<close>

definition plain_asset :: "(int, unit) asset_env" where
  "plain_asset = \<lparr>p_trustline = (\<lambda>i a. 2 * uint i + 1), clone_trustline = clone_sized 128, clone_asset = clone_sized 45,
     key_account_address = (\<lambda>k. retM 0), data_key_val = (\<lambda>k. retM (from_u32 (case k of AllowanceKey _ _ \<Rightarrow> 1 | BalanceKey _ \<Rightarrow> 2))),
     instance_key_val = (\<lambda>k. retM (from_u32 (case k of AdminKey \<Rightarrow> 3 | AssetInfoKey \<Rightarrow> 4))), metadata_key_val = retM (from_u32 5),
     balance_val = (\<lambda>b. retM (from_u32 (of_int (bv_amount b)))),
     val_balance = (\<lambda>v. retM \<lparr>bv_amount = uint (get_major v), bv_authorized = True, bv_clawback = False\<rparr>),
     allowance_val = (\<lambda>a. retM (from_u32 (of_int (av_amount a)))),
     val_allowance = (\<lambda>v. retM \<lparr>av_amount = uint (get_major v), av_live_until_ledger = 100\<rparr>),
     asset_info_val = (\<lambda>i. retM from_void), val_asset_info = (\<lambda>v. retM InfoNative),
     metadata_val = (\<lambda>m. retM from_void), val_metadata = (\<lambda>v. retM \<lparr>md_decimal = DECIMAL, md_name = v, md_symbol = v\<rparr>),
     i128_val = (\<lambda>n. retM (from_u32 (of_int n))), val_i128 = (\<lambda>v. retM (uint (get_major v))),
     string_obj = (\<lambda>bs. retM from_void), string_array = (\<lambda>n v. retM (replicate n 65)),
     account_id_from_bytesobj = (\<lambda>v. retM (ucast v)), bytes_of_u256 = (\<lambda>i. retM (ucast i)),
     strkey_of_bytes = (\<lambda>v. retM []), symbol_from_str = (\<lambda>n. retM from_void), symbol_matches = (\<lambda>n v. retM False),
     vec_from_slice = (\<lambda>vs. retM from_void)\<rparr>"

definition plain_frame ::
  "(int, nat, unit) guest \<Rightarrow> (int, nat, unit, u256 \<times> int, int, u256) frame_env" where
  "plain_frame g = \<lparr>henv = plain_env, senv = plain_sigs, numbering = xdr_numbering,
     compare_obj = (\<lambda>a b. retM (cmp_of a b)), compare_args = (\<lambda>a b. retM (if a = b then Equal else Less)),
     compare_create = (\<lambda>a b. retM (if a = b then Equal else Less)), clone_create_args = clone_sized 98,
     source_account_obj = retM (Some 6), random_nonce = retM 1, symbol_string = (\<lambda>v. retM (plain_symbol v)),
     vec_to_vals = (\<lambda>v. retM [v]), scaddress_of = (\<lambda>v. retM (plain_scaddress v)),
     address_obj = (\<lambda>a. retM (plain_objects a)), bytes_obj = (\<lambda>i. retM (ucast i)), obj_u256 = (\<lambda>v. retM (ucast v)),
     obj_bytes = (\<lambda>v. retM [ucast v]), obj_asset = (\<lambda>v. retM NativeAsset),
     signature_payload = (\<lambda>n t. retM 5), auth_contexts = (\<lambda>t. retM 0), check_auth_symbol = retM 1,
     invoker_auth_entry = (\<lambda>v. retM (ContractEntry v 0 0 [])), preimage_hash = (\<lambda>p. retM 9),
     init_asset_call = (\<lambda>a. retM (2, [])), update_event = (\<lambda>a b. retM (from_void, from_void)),
     sha256 = (\<lambda>bs. retM (of_nat (length bs))), vm_new = (\<lambda>i c. retM ()),
     wasm_guest = (\<lambda>c f a. g), aenv = plain_asset\<rparr>"

definition instance_key :: "int LedgerKey" where
  "instance_key = KContractData (plain_address (ContractAddr 9)) (plain_key KeyInstance) Persistent"

definition asset_instance :: "nat ScContractInstance" where
  "asset_instance = \<lparr>executable = StellarAsset, inst_storage = None\<rparr>"

definition instance_entry :: "nat EntryData LedgerEntry" where
  "instance_entry = \<lparr>data_type = TContractData, data_content = ContractData \<lparr>cd_contract = ContractAddr 9,
     cd_key = KeyInstance, cd_durability = Persistent, cd_val = ScInstance asset_instance\<rparr>\<rparr>"

definition calling_host :: "(int, nat, unit) HostState" where
  "calling_host = plain_host\<lparr>hstorage := with_enforcing_footprint_and_map [(instance_key, ReadOnly)]
     [(instance_key, Some (instance_entry, Some 100))]\<rparr>"

lemma calling_store:
  "store_wf plain_rank (hstorage calling_host)" "mode (hstorage calling_host) = Enforcing"
  by (simp_all add: calling_host_def with_enforcing_footprint_and_map_def instance_key_def store_wf_def map_wf_def u32_MAX_def
      key_rank_def fixed_compares_def)

section \<open>Runs with an unlimited budget\<close>

text \<open>\<open>runs m s r s'\<close>: from \<open>s\<close> with any unlimited budget, \<open>m\<close> ends in \<open>s'\<close>, but for the budget, with result \<open>r\<close>.\<close>

definition runs :: "('p, 'x, 'z, 'r) txM \<Rightarrow> ('p, 'x, 'z) txState \<Rightarrow> Error + 'r \<Rightarrow> ('p, 'x, 'z) txState \<Rightarrow> bool" where
  "runs m s r s' \<longleftrightarrow> (\<forall>b. unlimited b \<longrightarrow> (\<exists>b'. unlimited b' \<and>
     m (fst s, (snd s)\<lparr>hbudget := b\<rparr>) = (r, (fst s', (snd s')\<lparr>hbudget := b'\<rparr>))))"

lemma runsE:
  assumes "runs m s r s'" "unlimited b"
  obtains b' where "unlimited b'" "m (fst s, (snd s)\<lparr>hbudget := b\<rparr>) = (r, (fst s', (snd s')\<lparr>hbudget := b'\<rparr>))"
  using assms unfolding runs_def by blast

lemma runsI:
  "(\<And>b. unlimited b \<Longrightarrow> \<exists>b'. unlimited b' \<and> m (fst s, (snd s)\<lparr>hbudget := b\<rparr>) = (r, (fst s', (snd s')\<lparr>hbudget := b'\<rparr>))) \<Longrightarrow>
   runs m s r s'"
  unfolding runs_def by blast

lemma runs_bind: "runs m s (Inr x) s1 \<Longrightarrow> runs (f x) s1 r s2 \<Longrightarrow> runs (bindM m f) s r s2"
  by (rule runsI, erule (1) runsE, erule (1) runsE) (auto simp: bindM_run)

lemma runs_err: "runs m s (Inl e) s' \<Longrightarrow> runs (bindM m f) s (Inl e) s'"
  by (rule runsI, erule (1) runsE) (auto simp: bindM_run_err)

lemma runs_simps: "runs (retM x) s (Inr x) s" "runs (throwM e) s (Inl e) s" "runs (onObj (retM x)) s (Inr x) s"
  by (auto simp: runs_def retM_def throwM_def onHost_run onObjects_ret [unfolded retM_def])

lemma runs_get: "(\<And>b. g (h\<lparr>hbudget := b\<rparr>) = v) \<Longrightarrow> runs (onHost (getM g)) (am, h) (Inr v) (am, h)"
  by (auto simp: runs_def onHost_run getM_def)

lemma runs_modify: "(\<And>b. g (h\<lparr>hbudget := b\<rparr>) = h'\<lparr>hbudget := b\<rparr>) \<Longrightarrow> runs (onHost (modifyM g)) (am, h) (Inr ()) (am, h')"
  by (auto simp: runs_def onHost_run modifyM_def)

lemma runs_charge: "totalM m \<Longrightarrow> always m x \<Longrightarrow> runs (onMeter m) s (Inr x) s"
  unfolding runs_def
proof (intro allI impI)
  fix b assume m: "totalM m" "always m x" and b: "unlimited b"
  obtain y b' where "m b = (Inr y, b')" "unlimited b'" using totalM_D [OF m(1) b] by blast
  then show "\<exists>b'. unlimited b' \<and> onMeter m (fst s, (snd s)\<lparr>hbudget := b\<rparr>) = (Inr x, (fst s, (snd s)\<lparr>hbudget := b'\<rparr>))"
    using alwaysD [OF m(2)] by (auto simp: onHost_run onB_def zoomM_def)
qed

lemma runs_try: "runs m s r s' \<Longrightarrow> runs (tryM m) s (Inr r) s'"
  by (rule runsI, erule (1) runsE) (auto simp: tryM_def)

lemma runs_auth: "m am = (r, am') \<Longrightarrow> runs (onAuth m) (am, h) r (am', h)"
  by (auto simp: runs_def onAuth_def zoomM_def)

lemma runs_clone: "total_type T \<Longrightarrow> runs (onMeter (metered_clone T x)) s (Inr x) s"
  by (rule runs_charge) (auto simp: always_def total_metered_clone dest: metered_clone_id)

lemma runs_sized: "runs (onMeter (clone_sized sz x)) s (Inr x) s"
  unfolding clone_sized_def by (rule runs_clone) simp

lemma runs_unit: "totalM m \<Longrightarrow> runs (onMeter m) s (Inr ()) s"
  by (rule runs_charge) (simp_all add: always_def)

lemma runs_vec: "runs (onMeter (vec_init_cpy sz n)) s (Inr ()) s"
  unfolding vec_init_cpy_def charge_bulk_init_cpy_def by (rule runs_unit) auto

section \<open>A call that fails\<close>

lemma calling_get: "runs (onHost (onStore (storage_get (key_cmp plain_env) instance_key))) (am, calling_host)
    (Inr instance_entry) (am, calling_host)"
proof (rule runsI)
  fix b assume b: "unlimited b"
  have "storage_keys (key_cmp plain_env) plain_rank" by (rule plain.storage_keys_axioms)
  from storage_keys.get_full_run [OF this calling_store _ b, of instance_key] obtain b' where
    "unlimited b'" "try_get_full (key_cmp plain_env) instance_key (hstorage calling_host, b) =
      (Inr (Some (instance_entry, Some 100)), (hstorage calling_host, b'))"
    by (auto simp: calling_host_def with_enforcing_footprint_and_map_def allowed_def instance_key_def)
  then show "\<exists>b'. unlimited b' \<and> onHost (onStore (storage_get (key_cmp plain_env) instance_key))
      (fst (am, calling_host), (snd (am, calling_host))\<lparr>hbudget := b\<rparr>) =
      (Inr instance_entry, (fst (am, calling_host), (snd (am, calling_host))\<lparr>hbudget := b'\<rparr>))"
    by (intro exI [of _ b']) (simp add: onHost_run onStore_def zoomM_def storage_get_def try_get_def bindM_run okOrM_def retM_def)
qed

lemma onHost_bind: "onHost (bindM m f) = bindM (onHost m) (\<lambda>x. onHost (f x))"
  by (intro ext) (auto simp: onHost_def zoomM_def bindM_def split: prod.splits sum.splits)

lemma onHost_simps: "onHost (retM x) = retM x" "onHost (throwM e) = throwM e"
  by (intro ext, auto simp: onHost_def zoomM_def m_defs)+

lemma calling_instance:
  "runs (onHost (contract_instance_ledger_key plain_env 9)) (am, calling_host) (Inr instance_key) (am, calling_host)"
  "runs (onHost (retrieve_contract_instance_from_storage plain_env instance_key)) (am, calling_host) (Inr asset_instance) (am, calling_host)"
proof -
  show "runs (onHost (contract_instance_ledger_key plain_env 9)) (am, calling_host) (Inr instance_key) (am, calling_host)"
    unfolding contract_instance_ledger_key_def onHost_bind onHost_simps
    by (rule runs_bind [OF runs_sized], rule runs_bind [OF runs_unit])
      (auto simp: plain.totalM_sized instance_key_def plain_env_def intro: runs_simps)
  have "data_content instance_entry = ContractData \<lparr>cd_contract = ContractAddr 9,
     cd_key = KeyInstance, cd_durability = Persistent, cd_val = ScInstance asset_instance\<rparr>"
    by (simp add: instance_entry_def)
  then show "runs (onHost (retrieve_contract_instance_from_storage plain_env instance_key)) (am, calling_host) (Inr asset_instance) (am, calling_host)"
    unfolding retrieve_contract_instance_from_storage_def onHost_bind
    by (intro runs_bind [OF calling_get]) (simp add: plain_env_def runs_sized)
qed

abbreviation calm_manager :: manager where
  "calm_manager \<equiv> new_enforcing_without_authorizations"

definition callee_frame :: "nat Frame" where
  "callee_frame = StellarAssetContractFrame 9 0 [] asset_instance"

lemma runs_direct: "(\<And>b. m (am, h\<lparr>hbudget := b\<rparr>) = (r, (am', h'\<lparr>hbudget := b\<rparr>))) \<Longrightarrow> runs m (am, h) r (am', h')"
  by (auto simp: runs_def)

definition callee_manager :: manager where
  "callee_manager = calm_manager\<lparr>call_stack := [FrameContract (plain_objects (ContractAddr 9)) 0]\<rparr>"

definition calm_snapshot :: "(Val, Val, CreateContractArgs) AuthorizationManagerSnapshot" where
  "calm_snapshot = \<lparr>account_trackers_snapshot = SnapEnforcing [], invoker_contract_tracker_root_snapshots = [], handles_snapshot = None\<rparr>"

definition callee_host :: "(int, nat, unit) HostState" where
  "callee_host = calling_host\<lparr>context_stack := context_stack calling_host @ [\<lparr>frame = callee_frame, ctx_storage = None\<rparr>]\<rparr>"

lemma base_fields:
  "init_cpy (base_host E) sz n = onB (vec_init_cpy sz n)"
  "contract_address_object (base_host E) i = bindM (onB (clone_sized 32 i)) (\<lambda>i. onObjects (address_obj E (ContractAddr i)))"
  by (simp_all add: base_host_def)

lemma calling_push_frame:
  "runs (push_frame (base_host (plain_frame g)) (Some (9, 0))) (calm_manager, calling_host) (Inr calm_snapshot) (callee_manager, calling_host)"
  unfolding push_frame_def option.case prod.case base_fields onHost_bind
proof (intro runs_bind [OF runs_bind [OF runs_sized]] runs_bind [OF runs_vec])
  show "runs (onObj (address_obj (plain_frame g) (ContractAddr 9))) (calm_manager, calling_host)
      (Inr (plain_objects (ContractAddr 9))) (calm_manager, calling_host)"
    by (simp add: plain_frame_def runs_simps)
  have cs: "runs (push_call_stack (FrameContract (plain_objects (ContractAddr 9)) 0)) (calm_manager, calling_host) (Inr ()) (callee_manager, calling_host)"
    by (rule runs_direct) (simp add: push_call_stack_def onTracker_run callee_manager_def new_enforcing_without_authorizations_def)
  have pt: "runs (push_tracker_frame (base_host (plain_frame g))) (callee_manager, calling_host) (Inr ()) (callee_manager, calling_host)"
    by (rule runs_direct) (simp add: push_tracker_frame_def callee_manager_def new_enforcing_without_authorizations_def bindM_def)
  have sn: "runs (manager_snapshot (base_host (plain_frame g))) (callee_manager, calling_host) (Inr calm_snapshot) (callee_manager, calling_host)"
    unfolding manager_snapshot_def base_fields
    by (rule runs_bind [where x = callee_manager], rule runs_direct, simp add: getM_def,
        simp add: callee_manager_def new_enforcing_without_authorizations_def onHost_simps calm_snapshot_def,
        rule runs_bind [OF runs_bind [OF runs_vec runs_simps(1)]], rule runs_bind [OF runs_vec], rule runs_simps)
  show "runs (thenM (push_call_stack (FrameContract (plain_objects (ContractAddr 9)) 0))
      (thenM (push_tracker_frame (base_host (plain_frame g))) (manager_snapshot (base_host (plain_frame g)))))
      (calm_manager, calling_host) (Inr calm_snapshot) (callee_manager, calling_host)"
    by (intro runs_bind [OF cs] runs_bind [OF pt] sn)
qed

lemma calling_push:
  "runs (push_context (base_host (plain_frame g)) \<lparr>frame = callee_frame, ctx_storage = None\<rparr>) (calm_manager, calling_host)
     (Inr \<lparr>rp_storage = smap (hstorage calling_host), rp_events = 0, rp_auth = calm_snapshot\<rparr>) (callee_manager, callee_host)"
proof -
  have ev: "hevents calling_host = []" by (simp add: calling_host_def plain_host_def)
  have t: "total_type storage_map_type" unfolding storage_map_type_def by (intro total_vec total_pair total_option total_shallow)
  have f: "auth_frame (frame \<lparr>frame = callee_frame, ctx_storage = None\<rparr>) = Some (9, 0)" by (simp add: callee_frame_def)
  show ?thesis unfolding push_context_def f
    by (rule runs_bind [OF calling_push_frame], rule runs_bind [where x = "smap (hstorage calling_host)"], rule runs_get, simp,
        rule runs_bind [OF runs_clone [OF t]], rule runs_bind [where x = 0], rule runs_get, simp add: ev,
        rule runs_bind [OF runs_vec], rule runs_bind [OF runs_modify [where h' = callee_host]])
      (simp_all add: callee_host_def runs_simps)
qed

lemma unknown_function:
  "runs (onHost (asset_op_of_call (plain_frame g) v args)) s (Inl (Err Value InvalidInput)) s"
proof -
  have l: "runs (onHost (symbol_index_loop (plain_frame g) v i None ns)) s (Inr None) s" for i ns
  proof (induction ns arbitrary: i)
    case (Cons n ns)
    show ?case unfolding symbol_index_loop.simps onHost_bind
      by (rule runs_bind [where x = False and ?s1.0 = s]) (use Cons in \<open>simp_all add: plain_frame_def plain_asset_def runs_simps\<close>)
  qed (simp add: onHost_simps runs_simps)
  show ?thesis unfolding asset_op_of_call_def symbol_index_in_strs_def onHost_bind
    by (rule runs_err, rule runs_bind [OF l]) (simp add: onHost_simps runs_simps)
qed

lemma calling_fails:
  "runs (call_n_internal (plain_frame (Trap (ContractErr 7))) (run_at (plain_frame (Trap (ContractErr 7))) 1) 9 0 [] Prohibited False)
     (calm_manager, calling_host) (Inl (Err Value InvalidInput)) (calm_manager, calling_host)"
proof -
  let ?E = "plain_frame (Trap (ContractErr 7))"
  have pop: "runs (pop_context ?E (Some \<lparr>rp_storage = smap (hstorage calling_host), rp_events = 0, rp_auth = calm_snapshot\<rparr>))
      (callee_manager, callee_host) (Inr \<lparr>frame = callee_frame, ctx_storage = None\<rparr>) (calm_manager, calling_host)"
    by (rule runs_direct) (simp add: pop_context_def callee_host_def calling_host_def plain_host_def bindM_def onHost_run getM_def
        modifyM_def retM_def onAuth_def zoomM_def pop_frame_def manager_rollback_def calm_snapshot_def callee_manager_def
        new_enforcing_without_authorizations_def events_rollback_def drop_out_of_scope_def)
  have frame: "runs (with_frame ?E (base_host ?E) callee_frame (run_at ?E 1 None 0 []))
      (calm_manager, calling_host) (Inl (Err Value InvalidInput)) (calm_manager, calling_host)"
  proof -
    have len: "length (context_stack calling_host) = 1" by (simp add: calling_host_def plain_host_def)
    have lim: "\<not> DEFAULT_HOST_DEPTH_LIMIT \<le> (of_nat 1 :: u32)" by (simp add: DEFAULT_HOST_DEPTH_LIMIT_def word_le_nat_alt)
    have body: "runs (tryM (run_at ?E 1 None 0 [])) (callee_manager, callee_host) (Inr (Inl (Err Value InvalidInput))) (callee_manager, callee_host)"
      by (rule runs_try) (simp only: One_nat_def run_at.simps contract_body_def option.case asset_call_def, rule runs_err, rule unknown_function)
    show ?thesis unfolding with_frame_def
      by (rule runs_bind [where x = 1], rule runs_get, simp add: len, subst if_not_P [OF lim], rule runs_bind [OF calling_push],
          rule runs_bind [OF body], rule runs_bind [where x = "Inl (Err Value InvalidInput)"], simp add: escalate_def, rule runs_simps,
          rule runs_bind, simp only: sum.case, rule pop, rule runs_bind [where x = 1], rule runs_get, simp add: len)
        (simp add: ofSum_def runs_simps)
  qed
  have name: "runs (bindM (onObj (symbol_string ?E 0)) (\<lambda>name.
         if take (length RESERVED_CONTRACT_FN_PREFIX) name = RESERVED_CONTRACT_FN_PREFIX
         then throwM (Err Context InvalidAction) else retM ())) (calm_manager, calling_host) (Inr ()) (calm_manager, calling_host)"
    by (rule runs_bind [where x = "''fn''" and ?s1.0 = "(calm_manager, calling_host)"]) (simp_all add: plain_frame_def plain_symbol_def RESERVED_CONTRACT_FN_PREFIX_def runs_simps)
  have re: "runs (bindM (onHost (getM context_stack)) (\<lambda>cs.
         if reentry_allowed Prohibited (position 9 (caller_ids cs)) then retM ()
         else throwM (Err Context InvalidAction))) (calm_manager, calling_host) (Inr ()) (calm_manager, calling_host)"
    by (rule runs_bind, rule runs_get, simp)
      (simp add: calling_host_def plain_host_def caller_ids_def map_filter_simps runs_simps)
  have E: "henv ?E = plain_env" "executable asset_instance = StellarAsset" by (simp_all add: plain_frame_def asset_instance_def)
  show ?thesis
    unfolding call_n_internal_def call_contract_fn_def if_False E
    by (rule runs_bind [OF name], simp only: ContractReentryMode.simps if_False, rule runs_bind [OF re],
        rule runs_bind [OF calling_instance(1)], rule runs_bind [OF calling_instance(2)], rule runs_bind [OF runs_vec])
      (simp only: E ContractExecutable.case, rule runs_bind [OF runs_sized], rule frame [unfolded callee_frame_def])
qed

end
