(* ===== verification/Call_Safety.thy ===== *)
theory Call_Safety
  imports Frame_Stack Auth_Mode Frame_Instance
begin

text \<open>
  What a contract call guarantees to its caller (\<^verbatim>\<open>host/frame.rs\<close>, \<^verbatim>\<open>auth.rs\<close>).

  \<open>respects_frames\<close> of \<open>Auth_Frames\<close> is shown for every host function and every program a contract may
  run, at every nesting depth: the contract of the locale \<open>auth_callbacks\<close> holds for the host's own
  authentication, which may call contracts. A call that fails with an error a caller may catch has
  no effect on the ledger, the context stack and the authorization manager, and its events are
  marked as failed. Calls nest at most a hundred deep, so the nesting index of \<open>run_at\<close> is no
  restriction, and no contract is entered again while it is active, but for a direct self-call in
  authentication.
\<close>

section \<open>Charges fail hard\<close>

definition hardM :: "('s, 'r) hm \<Rightarrow> bool" where
  "hardM m \<longleftrightarrow> (\<forall>s e s'. m s = (Inl e, s') \<longrightarrow> \<not> is_recoverable e)"

lemma hardM_D: "hardM m \<Longrightarrow> m s = (Inl e, s') \<Longrightarrow> \<not> is_recoverable e"
  unfolding hardM_def by blast

lemma hardM_simps [intro!, simp]: "hardM (retM x)" "hardM (getM f)" "hardM (modifyM g)"
  by (auto simp: hardM_def m_defs)

lemma hardM_bind [intro]: "hardM m \<Longrightarrow> (\<And>x. hardM (f x)) \<Longrightarrow> hardM (bindM m f)"
  unfolding hardM_def bindM_Inl by blast

lemma hardM_zoom [intro]: "hardM m \<Longrightarrow> hardM (zoomM g u m)"
  unfolding hardM_def zoomM_def by (auto split: prod.splits)

lemma hardM_charge: "hardM (charge ty input)"
proof -
  have "hardM (charge_track ty n i)" for n i
    by (auto simp: hardM_def charge_track_def track_inputs_def Let_def split: if_splits sum.splits option.splits)
  moreover have "hardM (charge_cpu ty n i)" "hardM (charge_mem ty n i)" for n i
    by (auto simp: hardM_def charge_cpu_def charge_mem_def check_budget_limit_def Let_def split: if_splits prod.splits)
  ultimately show ?thesis unfolding charge_def bulk_charge_def by (intro hardM_bind)
qed

lemma hardM_copies: "hardM (vec_init_cpy sz n)" "hardM (metered_clone storage_map_type m)"
  unfolding vec_init_cpy_def charge_bulk_init_cpy_def charge_shallow_copy_def charge_heap_alloc_def metered_clone_def
    storage_map_type_def vec_type_def bulk_charge_for_substructure_def pair_type_def option_type_def rc_type_def shallow_type_def
  by (auto intro!: hardM_charge)

lemma hardM_collect: "(\<And>m. m \<in> set ms \<Longrightarrow> hardM m) \<Longrightarrow> hardM (collectM ms)"
  by (induction ms) auto

lemma hardM_onHost [intro]: "hardM m \<Longrightarrow> hardM (onHost m)"
  unfolding onHost_def by (rule hardM_zoom)

lemma hardM_snapshot: "(\<And>sz n. hardM (chg sz n)) \<Longrightarrow> hardM (invocation_snapshot chg t)"
proof (induction t)
  case (Invocation f subs x)
  have "hardM (collectM (map (invocation_snapshot chg) subs))" by (rule hardM_collect) (use Invocation in auto)
  then show ?case using Invocation.prems by auto
qed

lemma push_cells_hard: "(\<And>sz n. hardM (chg sz n)) \<Longrightarrow> push_cells chg cs h = (Inl e, (cs', h')) \<Longrightarrow> \<not> is_recoverable e"
proof (induction cs arbitrary: h cs')
  case (Cons c cs)
  obtain r1 h1 where k: "chg 8 1 h = (r1, h1)" by (cases "chg 8 1 h")
  obtain r2 cs2 h2 where n: "push_cells chg cs h = (r2, (cs2, h2))" by (cases "push_cells chg cs h") auto
  obtain r3 cs3 h3 where m: "push_cells chg cs h1 = (r3, (cs3, h3))" by (cases "push_cells chg cs h1") auto
  show ?case using Cons.prems(2) Cons.IH [OF Cons.prems(1), of h cs2] Cons.IH [OF Cons.prems(1), of h1 cs3]
      hardM_D [OF Cons.prems(1), of 8 1 h] k n m
    by (cases c; cases r1) (auto simp: tracker_push_run)
qed simp

lemma push_invokers_hard: "(\<And>sz n. hardM (chg sz n)) \<Longrightarrow> push_invokers chg ts h = (Inl e, (ts', h')) \<Longrightarrow> \<not> is_recoverable e"
proof (induction ts arbitrary: h ts')
  case (Cons t ts)
  obtain r1 h1 where k: "chg 8 1 h = (r1, h1)" by (cases "chg 8 1 h")
  obtain r3 ts3 h3 where m: "push_invokers chg ts h1 = (r3, (ts3, h3))" by (cases "push_invokers chg ts h1") auto
  show ?case using Cons.prems(2) Cons.IH [OF Cons.prems(1), of h1 ts3] hardM_D [OF Cons.prems(1), of 8 1 h] k m
    by (cases r1) (auto simp: tracker_push_run)
qed simp

lemma base_charges_hard: "hardM (init_cpy (base_host E) sz n)"
  by (auto simp: base_host_def onB_def intro: hardM_copies)

lemma hard_push_tracker: "hardM (push_tracker_frame (base_host E))"
  unfolding push_tracker_frame_def
proof (rule hardM_bind)
  show "hardM (\<lambda>(am, h). case push_cells (init_cpy (base_host E)) (account_trackers am) h of
      (r, cs, h) \<Rightarrow> (r, am\<lparr>account_trackers := cs\<rparr>, h))"
    by (auto simp: hardM_def split: prod.splits dest!: push_cells_hard [OF base_charges_hard])
  show "hardM (\<lambda>(am, h). case push_invokers (init_cpy (base_host E)) (invoker_contract_trackers am) h of
      (r, ts, h) \<Rightarrow> (r, am\<lparr>invoker_contract_trackers := ts\<rparr>, h))"
    by (auto simp: hardM_def split: prod.splits dest!: push_invokers_hard [OF base_charges_hard])
qed

lemma hard_manager_snapshot: "hardM (manager_snapshot (base_host E))"
proof -
  have s: "hardM (tracker_snapshot (init_cpy (base_host E)) t)" for t :: "(Val, Val, CreateContractArgs) auth_tracker"
    unfolding tracker_snapshot_def by (rule hardM_snapshot) (rule base_charges_hard)
  have c: "hardM (snapshot_cell (base_host E) c)" for c by (cases c) (auto simp: s)
  show ?thesis unfolding manager_snapshot_def
    by (auto simp: c s simp del: getM_bind intro!: hardM_bind hardM_onHost hardM_collect base_charges_hard
        split: AuthorizationMode.split)
qed

text \<open>An error a caller may catch leaves the manager alone.\<close>

lemma push_frame_settled:
  assumes "push_frame (base_host E) (Some x) (am, h) = (Inl e, (am', h'))" "is_recoverable e"
  shows "am' = am"
proof -
  let ?rest = "\<lambda>f. thenM (push_call_stack f) (thenM (push_tracker_frame (base_host E)) (manager_snapshot (base_host E)))"
  have hard: "hardM (?rest f)" for f
    unfolding push_call_stack_def onTracker_def by (intro hardM_bind hardM_simps hard_push_tracker hard_manager_snapshot)
  obtain i n where x: "x = (i, n)" by (cases x)
  obtain r1 h1 where 1: "contract_address_object (base_host E) i h = (r1, h1)"
    by (cases "contract_address_object (base_host E) i h")
  show ?thesis
  proof (cases r1)
    case (Inr a)
    obtain r2 h2 where 2: "init_cpy (base_host E) 16 1 h1 = (r2, h2)" by (cases "init_cpy (base_host E) 16 1 h1")
    show ?thesis
    proof (cases r2)
      case r2: (Inr u)
      have "?rest (FrameContract a n) (am, h2) = (Inl e, (am', h'))"
        using assms(1) 1 2 Inr r2 unfolding push_frame_def x by (simp add: bindM_run onHost_run)
      then show ?thesis using hardM_D [OF hard] assms(2) by blast
    qed (use assms(1) 1 2 Inr in \<open>simp add: push_frame_def x bindM_def onHost_run\<close>)
  qed (use assms(1) 1 in \<open>simp add: push_frame_def x bindM_def onHost_run\<close>)
qed

lemma push_create_settled:
  assumes "push_create_contract_host_fn_frame (base_host E) c (am, h) = (Inl e, (am', h'))" "is_recoverable e"
  shows False
proof -
  have "hardM (push_create_contract_host_fn_frame (base_host E) c)"
    unfolding push_create_contract_host_fn_frame_def push_call_stack_def onTracker_def
    by (rule hardM_bind, rule hardM_onHost, rule base_charges_hard, rule hardM_bind, rule hardM_simps,
        rule hard_push_tracker)
  from hardM_D [OF this assms(1)] show False using assms(2) by simp
qed

lemma push_create_Inr:
  assumes "push_create_contract_host_fn_frame (base_host E) c (am, h) = (Inr u, (am', h'))"
  shows "am' = entered (FrameCreateContract c) am"
proof -
  obtain h1 where "push_tracker_frame (base_host E) (am\<lparr>call_stack := call_stack am @ [FrameCreateContract c]\<rparr>, h1) = (Inr u, (am', h'))"
  proof -
    obtain r1 h1 where k: "init_cpy (base_host E) 98 1 h = (r1, h1)" by (cases "init_cpy (base_host E) 98 1 h")
    then have "\<exists>v. r1 = Inr v"
      using assms by (cases r1) (simp_all add: push_create_contract_host_fn_frame_def bindM_def onHost_run)
    then show thesis
      using assms k that unfolding push_create_contract_host_fn_frame_def push_call_stack_def
      by (auto simp: bindM_run onHost_run onTracker_run)
  qed
  then show ?thesis unfolding push_tracker_frame_def bindM_Inr entered_def
    by (auto split: prod.splits dest!: push_cells_Inr push_invokers_Inr)
qed

lemma push_context_settled:
  assumes "push_context (base_host E) ctx (am, h) = (Inl e, (am', h'))" "is_recoverable e" "auth_frame (frame ctx) = Some x"
  shows "am' = am"
proof -
  have "hardM (bindM (onHost (getM (\<lambda>h. smap (hstorage h)))) (\<lambda>m.
     bindM (onMeter (metered_clone storage_map_type m)) (\<lambda>m.
     bindM (onHost (getM (\<lambda>h. length (hevents h)))) (\<lambda>n.
     thenM (onMeter (vec_init_cpy 512 1))
     (thenM (onHost (modifyM (\<lambda>h. h\<lparr>context_stack := context_stack h @ [ctx]\<rparr>)))
       (retM \<lparr>rp_storage = m, rp_events = n, rp_auth = sn\<rparr>))))))" for sn
    unfolding onB_def by (intro hardM_bind hardM_onHost hardM_zoom hardM_simps hardM_copies)
  note hard = hardM_D [OF this]
  obtain r1 am1 h1 where p: "push_frame (base_host E) (Some x) (am, h) = (r1, (am1, h1))"
    by (cases "push_frame (base_host E) (Some x) (am, h)") auto
  show ?thesis
  proof (cases r1)
    case (Inl e1)
    then have "e1 = e" "am1 = am'" using assms(1,3) p by (simp_all add: push_context_def bindM_def)
    then show ?thesis using push_frame_settled [OF p [unfolded Inl]] assms(2) by simp
  next
    case (Inr sn)
    then show ?thesis using assms p hard unfolding push_context_def by (simp add: bindM_run) blast
  qed
qed

section \<open>Leaving frames\<close>

lemma rollback_errors:
  fixes t t' :: "'f AuthorizedInvocation" and ts ts' :: "'f AuthorizedInvocation list"
  shows "invocation_rollback s t = (Inl e, t') \<Longrightarrow> e = auth_internal"
    and "rollback_subs ss ts = (Inl e, ts') \<Longrightarrow> e = auth_internal"
  by (induction s t and ss ts arbitrary: t' and ts' rule: invocation_rollback_rollback_subs.induct)
    (auto split: if_splits prod.splits sum.splits)

lemma tracker_rollback_error: "tracker_rollback s t = (Inl e, t') \<Longrightarrow> e = auth_internal"
  by (auto simp: tracker_rollback_def bindM_Inl zoomM_def modifyM_def split: prod.splits dest: rollback_errors)

lemma rollback_cells_error: "rollback_cells ss cs = (Inl e, cs') \<Longrightarrow> e = auth_internal"
  by (induction ss cs arbitrary: cs' rule: rollback_cells.induct)
    (auto split: prod.splits sum.splits dest: tracker_rollback_error)

lemma rollback_invokers_error: "rollback_invokers ss ts = (Inl e, ts') \<Longrightarrow> e = auth_internal"
  by (induction ss ts arbitrary: ts' rule: rollback_invokers.induct)
    (auto split: prod.splits sum.splits dest: tracker_rollback_error)

lemma pop_frame_error: "pop_frame sn am = (Inl e, am') \<Longrightarrow> e = auth_internal"
  by (auto simp: pop_frame_def manager_rollback_def bindM_Inl zoomM_def modifyM_def retM_def throwM_def getM_def
      split: option.splits AccountTrackersSnapshot.splits if_splits prod.splits
      dest!: rollback_cells_error rollback_invokers_error)

lemma manager_rel_drop: "manager_ok am \<Longrightarrow> manager_rel am (am\<lparr>invoker_contract_trackers := in_scope (invoker_contract_trackers am)\<rparr>) \<and>
    manager_ok (am\<lparr>invoker_contract_trackers := in_scope (invoker_contract_trackers am)\<rparr>)"
proof -
  have s: "scoped (in_scope ts) \<and> in_scope (in_scope ts) = in_scope ts" for ts :: "('a, 'b, 'c) InvokerContractAuthorizationTracker list"
    using scoped_all_in [of "in_scope ts"] by (auto simp: in_scope_def)
  then show "manager_ok am \<Longrightarrow> ?thesis" by (auto simp: manager_rel_def manager_ok_def list_all2_refl in_scope_def)
qed

lemma pop_after_entered:
  assumes ok: "manager_ok am" and rel: "manager_rel (entered f am) am2" "manager_ok am2"
    and pop: "pop_frame None am2 = (q, am3)"
  shows "q = Inr () \<and> manager_rel am am3 \<and> manager_ok am3"
proof -
  obtain am4 where 4: "pop_frame None am2 = (Inr (), am4)" "manager_rel am am4" "scoped (invoker_contract_trackers am4)"
    using pop_frame_respects [OF ok rel(1)] by blast
  have "manager_ok am4" using pop_frame_ok [OF _ _ 4(1,3)] rel(2) by (simp add: manager_ok_def)
  with 4 pop show ?thesis by simp
qed

section \<open>Contract code and the mode\<close>

lemma modal_onAuth_pop [simp]: "modal (onAuth (pop_frame sn))"
  by (auto simp: relM_def same_mode_def onAuth_def zoomM_def split: prod.splits dest: modal_pop)

lemma modal_try [intro!]: "modal m \<Longrightarrow> modal (tryM m)"
  by (auto simp: relM_def tryM_def same_mode_def split: prod.splits) (metis fst_conv snd_conv)

lemma modal_ofSum [intro!, simp]: "modal (ofSum z)"
  by (auto simp: relM_def same_mode_def ofSum_def m_defs split: sum.splits)

lemma modal_frame: "modal f \<Longrightarrow> modal (with_frame E H fr f)"
proof -
  have "modal (pop_context E orp)" for orp
    unfolding pop_context_def maybe_emulate_authentication_def
    by (auto simp del: getM_bind split: option.split AuthorizationMode.split)
  then show "modal f \<Longrightarrow> modal (with_frame E H fr f)"
    unfolding with_frame_def push_context_def
    by (auto simp: modal_push split: sum.split)
qed

abbreviation modal_runner :: "('p, 'x, 'z) runner \<Rightarrow> bool" where
  "modal_runner run \<equiv> (\<forall>code func args. modal (run code func args))"

lemma modal_call: "modal_runner run \<Longrightarrow> modal (call_n_internal E run i func args md internal)"
  unfolding call_n_internal_def call_contract_fn_def by (auto intro!: modal_frame split: calm_cases)

lemma modal_authenticate: "modal_runner run \<Longrightarrow> modal (authenticate_address E run a n sig root)"
  unfolding authenticate_address_def check_account_contract_auth_def
  by (auto intro!: modal_call split: calm_cases)

lemma modal_requires: "modal_runner run \<Longrightarrow> modal (require_auth (frame_host E run) void address args)"
  by (rule modal_require) (simp add: frame_host_def modal_authenticate)

lemma modal_create: "modal_runner run \<Longrightarrow> modal (create_contract_internal E run deployer args)"
  unfolding create_contract_internal_def create_contract_with_optional_auth_def
    maybe_initialize_stellar_asset_contract_def
  by (auto intro!: modal_requires modal_call modal_push split: calm_cases ContractIdPreimage.split)

lemma modal_host_fn: "modal_runner run \<Longrightarrow> modal (host_fn E run c)"
  by (cases c) (auto simp: require_auth_fn_def require_auth_for_args_def authorize_as_curr_contract_def call_fn_def
      try_call_fn_def create_contract_def create_asset_contract_def intro!: modal_requires modal_call modal_create
      modal_entries split: calm_cases)

lemma modal_exec: "modal_runner run \<Longrightarrow> modal (exec E run g)"
  by (induction g) (auto intro!: modal_host_fn)

lemma modal_authorized_step: "modal_runner run \<Longrightarrow> modal (authorized_step E run m f)"
  unfolding authorized_step_def require_auth_fn_def by (auto intro!: modal_requires)

lemma modal_contract_body: "modal_runner run \<Longrightarrow> modal (contract_body E run code func args)"
proof -
  assume run: "modal_runner run"
  have "modal (asset_function E run op)" for op
    by (cases op) (auto simp: approve_def transfer_def transfer_from_def burn_def burn_from_def clawback_def
        set_authorized_def mint_def set_admin_def amount_result_def intro!: modal_authorized_step run)
  then show ?thesis
    unfolding contract_body_def asset_call_def by (auto intro!: modal_exec run split: option.split)
qed

section \<open>One frame\<close>

text \<open>The manager as it was, except that entries prepared for the call may have been dropped.\<close>

definition undone :: "manager \<Rightarrow> manager \<Rightarrow> bool" where
  "undone am am' \<longleftrightarrow> am' = am \<or>
     am' = am\<lparr>invoker_contract_trackers := in_scope (invoker_contract_trackers am)\<rparr>"

text \<open>The host as it was, except for budget, objects and events that are marked as failed.\<close>

definition reverted :: "('p, 'x, 'z) HostState \<Rightarrow> ('p, 'x, 'z) HostState \<Rightarrow> bool" where
  "reverted h h' \<longleftrightarrow> smap (hstorage h') = smap (hstorage h) \<and> context_stack h' = context_stack h \<and>
     (\<exists>new. hevents h' = hevents h @ new \<and> (\<forall>e\<in>set new. snd e = FromFailedCall))"

lemma quiet_reverted: "quiet h h' \<Longrightarrow> reverted h h'"
  by (simp add: quiet_def reverted_def)

lemma with_frame_outcome:
  fixes E :: "('p, 'x, 'z, 'el, 'sg, 'bo) frame_env"
  assumes run: "with_frame E (base_host E) fr f (am, h) = (r, (am', h'))"
    and f: "calm f" "respects_frames f" "modal f" and fr: "auth_frame fr = Some (i, name)"
    and enf: "auth_mode am = AuthEnforcing" and ok: "manager_ok am" and st: "settled r"
  shows "manager_rel am am' \<and> manager_ok am' \<and> (\<forall>e. r = Inl e \<longrightarrow> undone am am' \<and> reverted h h')"
  using run f(1)
proof (cases rule: with_frame_cases)
  case depth
  then show ?thesis using ok by (simp add: undone_def quiet_reverted)
next
  case (push e)
  then have "am' = am" using push_context_settled [OF push(3)] st fr by simp
  then show ?thesis using ok push by (simp add: undone_def quiet_reverted)
next
  case (frame rp am1 h1 r1 am2 h2 p h3 res r4)
  from frame(2) obtain hp where pf: "push_frame (base_host E) (Some (i, name)) (am, h) = (Inr (rp_auth rp), (am1, hp))"
    and cs1: "context_stack h1 = context_stack h @ [\<lparr>frame = fr, ctx_storage = None\<rparr>]"
    and ev1: "hevents h1 = hevents h" and rp: "rp_storage rp = smap (hstorage h)" "rp_events rp = length (hevents h)"
    by (cases rule: push_context_cases) (simp_all add: fr)
  obtain address where am1: "am1 = entered (FrameContract address name) am" "rp_auth rp = snap_manager am1"
    using push_frame_Inr [OF enf pf] by blast
  obtain ctx where cs3: "context_stack h3 = context_stack h @ [ctx]"
    using frame(5) cs1 host_rel_length [OF frame(5)] unfolding host_rel_def
    by (metis append_butlast_last_id butlast_snoc length_0_conv snoc_eq_iff_butlast)
  obtain new where ev3: "hevents h3 = hevents h @ new" using frame(5) ev1 by (auto simp: host_rel_def)
  have enf1: "auth_mode am1 = AuthEnforcing" using am1(1) enf by (simp add: entered_def)
  have enf2: "auth_mode am2 = AuthEnforcing" by (rule modal_D [OF f(3) frame(3) enf1])
  let ?orp = "case res of Inl _ \<Rightarrow> Some rp | Inr _ \<Rightarrow> None"
  obtain q where q: "pop_frame (map_option rp_auth ?orp) am2 = (q, am')" "r4 = (case q of Inl e \<Rightarrow> Inl e | Inr _ \<Rightarrow> Inr ctx)"
    and h': "context_stack h' = context_stack h" "case ?orp of None \<Rightarrow> True | Some rp \<Rightarrow>
        hevents h' = events_rollback (rp_events rp) (hevents h3) \<and> smap (hstorage h') = rp_storage rp"
    using pop_context_run [OF frame(6) cs3] enf2 by (cases res) auto
  have q_ok: "q = Inr ()"
  proof (cases q)
    case (Inl e)
    then have "r = Inl auth_internal" using q frame(7) pop_frame_error by fastforce
    then show ?thesis using st by simp
  qed simp
  then have res: "r = res" using q(2) frame(7) by simp
  then have "settled r1" using frame(4) st by (cases r1) (auto simp: escalate_def)
  then have rel: "manager_rel am1 am2" "manager_ok am2"
    using respects_D [OF f(2) frame(3) enf1] entered_ok [OF ok] am1(1) by auto
  show ?thesis
  proof (cases res)
    case (Inr v)
    then show ?thesis using pop_after_entered [OF ok rel [unfolded am1(1)]] q(1) res by simp
  next
    case (Inl e)
    then have pop: "pop_frame (Some (snap_manager (entered (FrameContract address name) am))) am2 = (Inr (), am')"
      using q(1) q_ok am1 by simp
    then have "\<not> pending am2" using pop_frame_rollback(2) [OF ok rel(1) [unfolded am1(1)]] by fastforce
    then have "am' = am\<lparr>invoker_contract_trackers := in_scope (invoker_contract_trackers am)\<rparr>"
      using pop_frame_rollback(1) [OF ok rel(1) [unfolded am1(1)]] pop by simp
    moreover have "reverted h h'"
      using h' rp Inl ev3 unfolding reverted_def by (auto simp: events_rollback_def)
    ultimately show ?thesis using manager_rel_drop [OF ok] by (simp add: undone_def)
  qed
qed

section \<open>Contract code and the manager\<close>

abbreviation safe_runner :: "('p, 'x, 'z) runner \<Rightarrow> bool" where
  "safe_runner run \<equiv> (\<forall>code func args. calm (run code func args) \<and> modal (run code func args) \<and>
     respects_frames (run code func args))"

lemma safe_runnerD: "safe_runner run \<Longrightarrow> calm_runner run" "safe_runner run \<Longrightarrow> modal_runner run"
  by auto

lemma respects_with_frame:
  assumes "calm f" "respects_frames f" "modal f" "auth_frame fr = Some x"
  shows "respects_frames (with_frame E (base_host E) fr f)"
proof (rule respectsI)
  obtain i name where x: "x = (i, name)" by (cases x)
  fix am h r am' h'
  assume "with_frame E (base_host E) fr f (am, h) = (r, (am', h'))" "auth_mode am = AuthEnforcing" "manager_ok am" "settled r"
  then show "manager_rel am am' \<and> manager_ok am'"
    using with_frame_outcome [OF _ assms(1-3) assms(4) [unfolded x]] by blast
qed

lemma respects_call: "safe_runner run \<Longrightarrow> respects_frames (call_n_internal E run i func args md internal)"
  unfolding call_n_internal_def call_contract_fn_def
  by (auto intro!: respects_bind respects_with_frame split: ContractExecutable.split)

lemma respects_authenticate: "safe_runner run \<Longrightarrow> respects_frames (authenticate_address E run a n sig root)"
  unfolding authenticate_address_def check_account_contract_auth_def
  by (auto intro!: respects_bind respects_call split: ScAddress.split)

lemma frame_host_callbacks: "safe_runner run \<Longrightarrow> auth_callbacks (frame_host E run)"
  by unfold_locales (simp add: frame_host_def respects_authenticate)

lemma respects_require: "safe_runner run \<Longrightarrow> respects_frames (require_auth (frame_host E run) void address args)"
  by (rule auth_callbacks.require_auth_respects [OF frame_host_callbacks])

text \<open>Catching errors, when those a caller may not catch are passed on.\<close>

lemma respects_try:
  assumes m: "respects_frames m" and f: "\<And>r. respects_frames (f r)" "\<And>e. \<not> is_recoverable e \<Longrightarrow> f (Inl e) = throwM e"
  shows "respects_frames (bindM (tryM m) f)"
proof (rule respectsI)
  fix am h r am' h'
  assume run: "bindM (tryM m) f (am, h) = (r, (am', h'))" and pre: "auth_mode am = AuthEnforcing" "manager_ok am" "settled r"
  obtain r1 am1 h1 where 1: "m (am, h) = (r1, (am1, h1))" by (cases "m (am, h)") auto
  then have 2: "f r1 (am1, h1) = (r, (am', h'))" using run by (simp add: bindM_run tryM_def)
  then have "settled r1" using f(2) pre(3) by (cases r1) (auto simp: throwM_def, fastforce)
  then have rel: "manager_rel am am1" "manager_ok am1" using respects_D [OF m 1 pre(1,2)] by simp_all
  then have "auth_mode am1 = AuthEnforcing" using pre(1) manager_rel_mode by metis
  then show "manager_rel am am' \<and> manager_ok am'"
    using respects_D [OF f(1) 2 _ rel(2) pre(3)] manager_rel_trans [OF rel(1)] by blast
qed

lemma manager_ok_entries:
  assumes "manager_ok am" "\<forall>t\<in>set new. is_out_of_scope t \<and> tracker_ok (inv_tracker t)"
    and "am' = am\<lparr>invoker_contract_trackers := invoker_contract_trackers am @ new\<rparr>"
  shows "manager_rel am am' \<and> manager_ok am'"
proof -
  have rel: "manager_rel am am'" unfolding assms(3) by (rule manager_rel_new_entries) (use assms(2) in blast)
  then have "scoped (invoker_contract_trackers am')" using assms(1) by (simp add: manager_rel_def manager_ok_def)
  then show ?thesis using rel assms by (auto simp: manager_ok_def)
qed

lemma entry_root_ok:
  assumes "invoker_tracker_entry E e h = (Inr (a, root), h')"
  shows "tracker_ok (tracker_new root)"
proof -
  obtain i entry h1 h2 where "to_authorized_invocation E (ContractAddr i) entry h1 = (Inr root, h2)"
    using assms unfolding invoker_tracker_entry_def by (auto simp: bindM_Inr retM_def)
  then show ?thesis
    by (cases entry) (auto simp: bindM_Inr retM_def throwM_def tracker_new_ok split: ContractExecutable.splits)
qed

lemma add_entries_run:
  "add_invoker_entries (invoker_tracker_entry E) es (am, h) = (r, (am', h')) \<Longrightarrow>
   \<exists>new. am' = am\<lparr>invoker_contract_trackers := invoker_contract_trackers am @ new\<rparr> \<and>
     (\<forall>t\<in>set new. is_out_of_scope t \<and> tracker_ok (inv_tracker t))"
proof (induction es arbitrary: am h)
  case Nil
  then show ?case by (intro exI [of _ "[]"]) (simp add: retM_def)
next
  case (Cons e es)
  obtain r1 h1 where 1: "invoker_tracker_entry E e h = (r1, h1)" by (cases "invoker_tracker_entry E e h")
  show ?case
  proof (cases r1)
    case (Inl x)
    then show ?thesis using Cons.prems 1 by (intro exI [of _ "[]"]) (simp add: bindM_def onHost_run)
  next
    case (Inr p)
    obtain a root where p: "p = (a, root)" by (cases p)
    let ?t = "\<lparr>inv_contract_address = a, inv_tracker = tracker_new root\<rparr>"
    have "add_invoker_entries (invoker_tracker_entry E) es
        (am\<lparr>invoker_contract_trackers := invoker_contract_trackers am @ [?t]\<rparr>, h1) = (r, (am', h'))"
      using Cons.prems 1 Inr p by (simp add: bindM_run onHost_run onTracker_run)
    from Cons.IH [OF this] obtain new where
      "am' = am\<lparr>invoker_contract_trackers := invoker_contract_trackers am @ ?t # new\<rparr>"
      "\<forall>t\<in>set new. is_out_of_scope t \<and> tracker_ok (inv_tracker t)" by auto
    moreover have "is_out_of_scope ?t" by (simp add: is_out_of_scope_def tracker_is_empty_def tracker_new_def)
    moreover have "tracker_ok (inv_tracker ?t)" using entry_root_ok 1 Inr p by auto
    ultimately show ?thesis by (intro exI [of _ "?t # new"]) simp
  qed
qed

lemma respects_entries: "respects_frames (authorize_as_curr_contract E entries)"
proof -
  have "respects_frames (add_invoker_entries (invoker_tracker_entry E) es)" for es
    by (rule respectsI) (metis add_entries_run manager_ok_entries)
  then show ?thesis unfolding authorize_as_curr_contract_def add_invoker_contract_auth_def
    by (intro respects_bind respects_simps)
qed

lemma respects_create:
  assumes "safe_runner run"
  shows "respects_frames (create_contract_internal E run deployer args)"
proof -
  let ?body = "create_contract_with_optional_auth E run deployer args"
  have body: "respects_frames ?body"
    unfolding create_contract_with_optional_auth_def maybe_initialize_stellar_asset_contract_def
    by (auto intro!: respects_bind respects_require respects_call assms
        split: option.split ContractIdPreimage.split prod.split)
  have framed: "respects_frames (thenM (push_create_contract_host_fn_frame (base_host E) a)
      (bindM (tryM ?body) (\<lambda>res. thenM (onAuth (pop_frame None)) (ofSum res))))" (is "respects_frames ?m") for a
  proof (rule respectsI)
    fix am h r am' h'
    assume run: "?m (am, h) = (r, (am', h'))" and enf: "auth_mode am = AuthEnforcing" and ok: "manager_ok am" and st: "settled r"
    obtain q am1 h1 where p: "push_create_contract_host_fn_frame (base_host E) a (am, h) = (q, (am1, h1))"
      by (cases "push_create_contract_host_fn_frame (base_host E) a (am, h)") auto
    show "manager_rel am am' \<and> manager_ok am'"
    proof (cases q)
      case (Inl e)
      then have "r = Inl e" using run p by (simp add: bindM_def)
      then show ?thesis using push_create_settled [OF p [unfolded Inl]] st by simp
    next
      case (Inr u)
      obtain r1 am2 h2 where b: "?body (am1, h1) = (r1, (am2, h2))" by (cases "?body (am1, h1)") auto
      obtain q3 am3 where pop: "pop_frame None am2 = (q3, am3)" by (cases "pop_frame None am2")
      then have "q3 = Inr ()" by (auto simp: pop_frame_def modifyM_def)
      then have "r = r1" "am' = am3"
        using run p Inr b pop by (auto simp: bindM_run tryM_def onAuth_def zoomM_def ofSum_def retM_def throwM_def split: sum.splits)
      moreover have am1: "am1 = entered (FrameCreateContract a) am" using push_create_Inr p Inr by simp
      ultimately have "manager_rel am1 am2 \<and> manager_ok am2"
        using respects_D [OF body b] st enf entered_ok [OF ok] by (simp add: entered_def)
      then show ?thesis using pop_after_entered [OF ok _ _ pop] am1 \<open>am' = am3\<close> by blast
    qed
  qed
  have none: "respects_frames (bindM (tryM ?body) ofSum)"
    by (rule respects_try [OF body]) (auto simp: ofSum_def split: sum.split)
  show ?thesis
  proof (cases deployer)
    case None
    then show ?thesis using none by (simp add: create_contract_internal_def)
  next
    case (Some d)
    then have "create_contract_internal E run deployer args = bindM (onMeter (clone_create_args E args))
        (\<lambda>a. thenM (push_create_contract_host_fn_frame (base_host E) a)
          (bindM (tryM ?body) (\<lambda>res. thenM (onAuth (pop_frame None)) (ofSum res))))"
      by (simp add: create_contract_internal_def bindM_assoc)
    then show ?thesis using framed by auto
  qed
qed

lemma respects_host_fn: "safe_runner run \<Longrightarrow> respects_frames (host_fn E run c)"
proof -
  assume safe: "safe_runner run"
  have t: "respects_frames (try_call_fn E run contract func args)" for contract func args
    unfolding try_call_fn_def
    by (intro respects_bind respects_simps respects_try [OF respects_call [OF safe]]) (auto split: sum.split)
  show ?thesis
    by (cases c) (auto simp: t require_auth_fn_def require_auth_for_args_def call_fn_def create_contract_def
        create_asset_contract_def intro!: respects_bind respects_require respects_call respects_create respects_entries safe)
qed

lemma respects_exec: "safe_runner run \<Longrightarrow> respects_frames (exec E run g)"
  by (induction g) (auto intro!: respects_bind respects_host_fn)

lemma respects_authorized_step: "safe_runner run \<Longrightarrow> respects_frames (authorized_step E run m f)"
  unfolding authorized_step_def require_auth_fn_def by (auto intro!: respects_bind respects_require)

lemma respects_contract_body: "safe_runner run \<Longrightarrow> respects_frames (contract_body E run code func args)"
proof -
  assume run: "safe_runner run"
  have "respects_frames (asset_function E run op)" for op
    by (cases op) (auto simp: approve_def transfer_def transfer_from_def burn_def burn_from_def clawback_def
        set_authorized_def mint_def set_admin_def amount_result_def intro!: respects_bind respects_authorized_step run)
  then show ?thesis
    unfolding contract_body_def asset_call_def by (auto intro!: respects_bind respects_exec run split: option.split)
qed

lemma safe_run_at: "safe_runner (run_at E n)"
proof (induction n)
  case (Suc n)
  then show ?case by (auto intro!: respects_contract_body calm_contract_body modal_contract_body)
qed auto

interpretation host_auth: auth_callbacks "frame_host E (run_at E n)" for E :: "('p, 'x, 'z, 'el, 'sg, 'bo) frame_env" and n
  by (rule frame_host_callbacks) (rule safe_run_at)

section \<open>Reading before a frame is entered\<close>

text \<open>In enforcing mode, what a call reads to find the contract leaves the host as it is.\<close>

definition peek :: "('p, 'x, 'z) HostState \<Rightarrow> ('p, 'x, 'z) HostState \<Rightarrow> bool" where
  "peek h h' \<longleftrightarrow> (mode (hstorage h) = Enforcing \<longrightarrow> quiet h h')"

interpretation peeking: stable peek
  by unfold_locales (auto simp: reflp_def transp_def peek_def quiet_def)

lemma peek_bind [intro!]: "relM peek m \<Longrightarrow> (\<And>x. relM peek (f x)) \<Longrightarrow> relM peek (bindM m f)"
  by (rule peeking.stable_host_bind)

lemma peek_zooms [intro!, simp]: "relM peek (onB b)" "relM peek (onObjects q)"
  using quiet_zooms unfolding relM_def peek_def by blast+

definition reading :: "('p, 'e) store \<times> BudgetImpl \<Rightarrow> ('p, 'e) store \<times> BudgetImpl \<Rightarrow> bool" where
  "reading s s' \<longleftrightarrow> (mode (fst s) = Enforcing \<longrightarrow> fst s' = fst s)"

lemma reading_simps [intro!, simp]:
  "relM reading (retM x)" "relM reading (throwM e)" "relM reading (getM g)" "relM reading (okOrM y e)"
  "relM reading (onBudget m)"
  by (auto simp: relM_def reading_def onBudget_def m_defs split: option.split prod.split)

lemma reading_bind [intro!]: "relM reading m \<Longrightarrow> (\<And>x. relM reading (f x)) \<Longrightarrow> relM reading (bindM m f)"
  by (rule relM_bind) (auto simp: transp_def reading_def)

lemma reading_prepare: "relM reading (prepare_read_only_access kc k)"
  unfolding relM_def reading_def
proof (intro allI impI)
  fix st :: "('a, 'b) store \<times> BudgetImpl"
  assume "mode (fst st) = Enforcing"
  then have "prepare_read_only_access kc k st = enforce_access kc k ReadOnly st" by (simp add: prepare_read_only_access_def)
  then show "fst (snd (prepare_read_only_access kc k st)) = fst st" using sameM_enforce unfolding relM_def by metis
qed

lemma reading_get: "relM reading (storage_get kc k)"
  unfolding storage_get_def try_get_def try_get_full_def
  by (auto simp: check_supported_ledger_key_type_def simp del: getM_bind
      intro!: reading_prepare split: option.split)

lemma peek_get: "relM peek (onStore (storage_get kc k) :: ('p, 'x, 'z, _) hostM)"
  unfolding relM_def
proof
  fix h :: "('p, 'x, 'z) HostState"
  obtain r s b where g: "storage_get kc k (hstorage h, hbudget h) = (r, (s, b))"
    by (cases "storage_get kc k (hstorage h, hbudget h)") auto
  then have "mode (hstorage h) = Enforcing \<longrightarrow> s = hstorage h"
    using reading_get [of kc k] unfolding relM_def reading_def by (metis fst_conv snd_conv)
  then show "peek h (snd (onStore (storage_get kc k) h))"
    using g by (simp add: onStore_def zoomM_def peek_def quiet_def)
qed

lemma peek_instances:
  "relM peek (contract_instance_ledger_key E i)" "relM peek (retrieve_contract_instance_from_storage E k)"
  "relM peek (retrieve_wasm_from_storage E w)"
  unfolding contract_instance_ledger_key_def retrieve_contract_instance_from_storage_def retrieve_wasm_from_storage_def
    contract_code_ledger_key_def
  by (auto intro!: peek_get split: calm_cases)

section \<open>Failed calls\<close>

text \<open>Every step before the frame is quiet; the frame reverts what was done in it.\<close>

definition reverts :: "('p, 'x, 'z, 'r) txM \<Rightarrow> bool" where
  "reverts m \<longleftrightarrow> (\<forall>am h e am' h'. m (am, h) = (Inl e, (am', h')) \<longrightarrow> is_recoverable e \<longrightarrow> auth_mode am = AuthEnforcing \<longrightarrow>
     manager_ok am \<longrightarrow> mode (hstorage h) = Enforcing \<longrightarrow> undone am am' \<and> reverted h h')"

lemma reverts_simps [simp]: "reverts (retM x)" "reverts (throwM e)"
  by (auto simp: reverts_def m_defs undone_def reverted_def)

lemma quiet_reverts: "quiet h h1 \<Longrightarrow> reverted h1 h' \<Longrightarrow> reverted h h'"
  by (auto simp: quiet_def reverted_def)

lemma reverts_peek:
  assumes "relM peek m" "\<And>x. reverts (f x)"
  shows "reverts (bindM (onHost m) f)"
  unfolding reverts_def
proof (intro allI impI)
  fix am h e am' h'
  assume run: "bindM (onHost m) f (am, h) = (Inl e, (am', h'))" and pre: "is_recoverable e" "auth_mode am = AuthEnforcing"
    "manager_ok am" "mode (hstorage h) = Enforcing"
  obtain r1 h1 where m: "m h = (r1, h1)" by (cases "m h")
  have q: "quiet h h1" using assms(1) m pre(4) unfolding relM_def peek_def by (metis snd_conv)
  show "undone am am' \<and> reverted h h'"
  proof (cases r1)
    case (Inl x)
    then have "am' = am" "h' = h1" using run m by (simp_all add: bindM_def onHost_run)
    then show ?thesis using q by (simp add: undone_def quiet_reverted)
  next
    case (Inr x)
    have f: "f x (am, h1) = (Inl e, (am', h'))" using run m Inr by (simp add: bindM_def onHost_run)
    have "mode (hstorage h1) = Enforcing" using q pre(4) by (simp add: quiet_def)
    then have "undone am am' \<and> reverted h1 h'" using assms(2) f pre unfolding reverts_def by blast
    then show ?thesis using quiet_reverts [OF q] by blast
  qed
qed

lemma reverts_frame:
  assumes "calm f \<and> modal f \<and> respects_frames f" "auth_frame fr \<noteq> None"
  shows "reverts (with_frame E (base_host E) fr f)"
proof -
  obtain i name where "auth_frame fr = Some (i, name)" using assms(2) by auto
  then show ?thesis unfolding reverts_def
    using with_frame_outcome [of E fr f] assms(1) by (metis settled_simps(2))
qed

lemma reverts_call: "safe_runner run \<Longrightarrow> reverts (call_n_internal E run i func args md internal)"
proof -
  assume safe: "safe_runner run"
  have c: "reverts (call_contract_fn E run i func args)"
    unfolding call_contract_fn_def
    by (auto intro!: reverts_peek peek_instances reverts_frame safe [rule_format] split: ContractExecutable.split)
  have r: "reverts (thenM (if md = Allowed then retM ()
       else bindM (onHost (getM context_stack)) (\<lambda>cs.
         if reentry_allowed md (position i (caller_ids cs)) then retM () else throwM (Err Context InvalidAction)))
       (call_contract_fn E run i func args))"
    using c by (auto simp: bindM_assoc intro!: reverts_peek)
  show ?thesis unfolding call_n_internal_def using r by (auto simp: bindM_assoc intro!: reverts_peek)
qed

section \<open>The guarantees\<close>

text \<open>
  C3: a failed contract call leaves no trace. Whatever a called contract does (write storage, emit
  events, use up authorizations, call, create or update other contracts to any depth): when the
  call fails with an error the caller may catch, the ledger entries and the context stack are what
  they were before the call, the events emitted in it are marked as failed, and the authorization
  manager is as before, except that entries the caller had prepared for this call are dropped.
\<close>

theorem failed_call_leaves_no_trace:
  assumes "call_n_internal E (run_at E n) i func args md internal (am, h) = (Inl e, (am', h'))" and "is_recoverable e"
    and "auth_mode am = AuthEnforcing" and "manager_ok am" and "mode (hstorage h) = Enforcing"
  shows "undone am am' \<and> reverted h h'"
  using reverts_call [OF safe_run_at] assms unfolding reverts_def by blast

theorem failed_call_leaves_no_trace_witness:
  "\<exists>am' h'. call_n_internal (plain_frame (Trap (ContractErr 7))) (run_at (plain_frame (Trap (ContractErr 7))) 1) 9 0 []
      Prohibited False (calm_manager, calling_host) = (Inl (Err Value InvalidInput), (am', h')) \<and>
    undone calm_manager am' \<and> reverted calling_host h'"
proof -
  have b: "unlimited (hbudget calling_host)" by (simp add: calling_host_def plain_host_def unlimited_budget_unlimited)
  obtain h' where run: "call_n_internal (plain_frame (Trap (ContractErr 7))) (run_at (plain_frame (Trap (ContractErr 7))) 1) 9 0 []
      Prohibited False (calm_manager, calling_host) = (Inl (Err Value InvalidInput), (calm_manager, h'))"
    using runsE [OF calling_fails b] by auto
  have "manager_ok calm_manager" "auth_mode calm_manager = AuthEnforcing"
    by (simp_all add: new_enforcing_without_authorizations_def manager_ok_def scoped_def in_scope_def)
  with failed_call_leaves_no_trace [OF run _ _ _ calling_store(2)] run show ?thesis by auto
qed

text \<open>
  C5: contract code cannot make authorizations. Whatever program a contract runs, the built-in asset
  contract included, with calls nested to any depth, contracts created, and \<open>__check_auth\<close>
  functions of account contracts run in between: unless the transaction is aborted, the authorizations that are unused afterwards were
  unused before, the authorization call stack is that of the start, and the trackers are well
  formed. So the contract of authentication that \<open>authorization_is_consumed\<close> assumes holds for the
  host's own authentication.
\<close>

theorem contract_code_cannot_authorize:
  assumes "run_at E n code func args (am, h) = (r, (am', h'))" and "settled r" and "auth_mode am = AuthEnforcing" and "manager_ok am"
  shows "manager_ok am' \<and> manager_unused am' \<subseteq># manager_unused am \<and> call_stack am' = call_stack am \<and>
    auth_callbacks (frame_host E (run_at E n))"
proof -
  have s: "respects_frames (run_at E n code func args)" using safe_run_at [of E n] by simp
  from respects_D [OF s assms(1,3,4,2)] show ?thesis using manager_rel_unused host_auth.auth_callbacks_axioms by (auto simp: manager_rel_def)
qed

theorem contract_code_cannot_authorize_witness:
  "run_at (plain_frame (Do (CallObjects (retM 5)) Return)) 1 (Some []) 0 [] (calm_manager, calling_host) =
     (Inr 5, (calm_manager, calling_host)) \<and>
   manager_unused calm_manager \<subseteq># manager_unused (calm_manager :: manager)"
proof -
  have run: "run_at (plain_frame (Do (CallObjects (retM 5)) Return)) 1 (Some []) 0 [] (calm_manager, calling_host) =
      (Inr 5, (calm_manager, calling_host))"
    by (simp add: contract_body_def plain_frame_def bindM_def onHost_run onObjects_ret) (simp add: retM_def)
  have "manager_ok (calm_manager :: manager)" "auth_mode (calm_manager :: manager) = AuthEnforcing"
    by (simp_all add: new_enforcing_without_authorizations_def manager_ok_def scoped_def in_scope_def)
  with contract_code_cannot_authorize [OF run] run show ?thesis by simp
qed

end
