(* ===== verification/Asset_Instance.thy ===== *)
theory Asset_Instance
  imports Frame_Instance
begin

text \<open>
  A concrete run of the asset contract, for the witnesses. On \<open>token_host\<close> the contract of the native
  asset, contract 9, has been called; account 3 has a balance of 100. A transfer of 5 to the account
  and an approval by the calling contract succeed.
\<close>

section \<open>A host on which the asset contract runs\<close>

definition token_storage :: "(Val, Val) ord_map" where
  "token_storage = [(from_u32 4, from_void), (from_u32 5, from_void)]"

definition token_context :: "nat Context" where
  "token_context = \<lparr>frame = StellarAssetContractFrame 9 0 [] asset_instance,
     ctx_storage = Some \<lparr>is_map = token_storage, is_modified = False\<rparr>\<rparr>"

definition allowance_key :: "int LedgerKey" where
  "allowance_key = KContractData (plain_address (ContractAddr 9)) (plain_key (KeyVal (unat (from_u32 1)))) Temporary"

definition token_account :: "nat EntryData LedgerEntry" where
  "token_account = \<lparr>data_type = TAccount, data_content = AccountData (plain_account 1)\<rparr>"

definition token_host :: "(int, nat, unit) HostState" where
  "token_host = plain_host\<lparr>context_stack := context_stack plain_host @ [token_context],
     hstorage := with_enforcing_footprint_and_map
       [(KAccount 3, ReadWrite), (instance_key, ReadOnly), (allowance_key, ReadOnly)]
       [(KAccount 3, Some (token_account, None)), (instance_key, Some (instance_entry, Some 200000)), (allowance_key, None)]\<rparr>"

lemma token_keys: "instance_key \<noteq> allowance_key" "from_u32 4 \<noteq> from_u32 5" "from_u32 4 < from_u32 5"
  by (simp_all add: instance_key_def allowance_key_def) (code_simp, code_simp)

lemma token_store: "store_wf plain_rank (hstorage token_host)" "mode (hstorage token_host) = Enforcing"
proof -
  have "0 < 3 * uint w + 2" for w :: u64 by (simp add: add_nonneg_pos)
  then show "store_wf plain_rank (hstorage token_host)" "mode (hstorage token_host) = Enforcing"
    by (simp_all add: token_host_def with_enforcing_footprint_and_map_def instance_key_def allowance_key_def store_wf_def map_wf_def
        u32_MAX_def key_rank_def fixed_compares_def)
qed

lemma token_storage_wf: "map_wf (\<lambda>k. k) token_storage"
  using token_keys by (simp add: token_storage_def map_wf_def u32_MAX_def)

lemma token_facts: "context_stack token_host = context_stack plain_host @ [token_context]" "hledger token_host = Some plain_ledger"
  "hrest token_host = ()" "hevents token_host = []" "hbudget token_host = unlimited_budget"
  "last (context_stack token_host) = token_context"
  by (simp_all add: token_host_def plain_host_def)

lemma token_instance_read:
  assumes "map_of token_storage k = Some v"
  shows "runs (onHost (get_contract_data plain_env k InstanceStorage)) (am, token_host) (Inr v) (am, token_host)"
proof (rule runsI)
  fix b assume b: "unlimited b"
  obtain r b' where g: "map_get (fixed_ctx 8 (shallow_type 8)) token_storage k b = (Inr r, b')" "unlimited b'"
    using totalM_D [OF fixed.get_total [OF token_storage_wf] b] by blast
  have r: "r = Some v" using fixed.get_refines [OF token_storage_wf g(1)] assms by simp
  have "get_contract_data plain_env k InstanceStorage (token_host\<lparr>hbudget := b\<rparr>) = (Inr v, token_host\<lparr>hbudget := b'\<rparr>)"
    using g(1) r
    by (simp add: get_contract_data_def with_instance_storage_def with_current_context_mut_def token_facts token_context_def
      maybe_init_instance_storage_def bindM_run retM_def okOrM_def onHostOf_def onB_def zoomM_def plain_env_def getM_bind)
  then show "\<exists>b'. unlimited b' \<and> onHost (get_contract_data plain_env k InstanceStorage) (fst (am, token_host), snd (am, token_host)\<lparr>hbudget := b\<rparr>) =
      (Inr v, (fst (am, token_host), snd (am, token_host)\<lparr>hbudget := b'\<rparr>))"
    using g(2) by (auto simp: onHost_run)
qed


lemma plain_frame_env [simp]: "henv (plain_frame g) = plain_env" "aenv (plain_frame g) = plain_asset"
  by (simp_all add: plain_frame_def)

lemma token_asset_info: "runs (onHost (read_asset_info (plain_frame g))) (am, token_host) (Inr InfoNative) (am, token_host)"
proof -
  have "map_of token_storage (from_u32 4) = Some from_void" by (simp add: token_storage_def)
  note get = token_instance_read [OF this]
  show ?thesis unfolding read_asset_info_def onHost_bind
    by (rule runs_bind [where x = "from_u32 4" and ?s1.0 = "(am, token_host)"], simp add: plain_asset_def runs_simps, simp,
        rule runs_bind [OF get]) (simp add: plain_asset_def runs_simps)
qed

lemma token_asset: "runs (onHost (read_asset (plain_frame g))) (am, token_host) (Inr NativeAsset) (am, token_host)"
  unfolding read_asset_def onHost_bind
  by (rule runs_bind [OF token_asset_info]) (simp add: onHost_simps runs_simps)

lemma token_get:
  assumes "map_of (smap (hstorage token_host)) k = Some v" "k = KAccount 3 \<or> k = instance_key \<or> k = allowance_key"
  shows "runs (onHost (onStore (try_get_full (key_cmp plain_env) k))) (am, token_host) (Inr v) (am, token_host)"
proof (rule runsI)
  fix b assume b: "unlimited b"
  have "supported_key k" "allowed (map_of (footprint (hstorage token_host))) k ReadOnly"
    using assms(2) by (auto simp: token_host_def with_enforcing_footprint_and_map_def allowed_def instance_key_def allowance_key_def)
  then obtain b' where "unlimited b'" "try_get_full (key_cmp plain_env) k (hstorage token_host, b) = (Inr v, (hstorage token_host, b'))"
    using storage_keys.get_full_run [OF plain.storage_keys_axioms token_store _ b, of k] assms(1) by auto
  then show "\<exists>b'. unlimited b' \<and> onHost (onStore (try_get_full (key_cmp plain_env) k))
      (fst (am, token_host), (snd (am, token_host))\<lparr>hbudget := b\<rparr>) =
      (Inr v, (fst (am, token_host), (snd (am, token_host))\<lparr>hbudget := b'\<rparr>))"
    by (intro exI [of _ b']) (simp add: onHost_run onStore_def zoomM_def)
qed

lemma onStore_bind: "onStore (bindM m f) = bindM (onStore m) (\<lambda>x. onStore (f x))"
  and onStore_ret: "onStore (retM x) = retM x"
  by (intro ext; auto simp: onStore_def zoomM_def m_defs split: prod.splits sum.splits)+

lemma token_account_read:
  "runs (onHost (read_account_entry (plain_frame g) (KAccount 3))) (am, token_host) (Inr token_account) (am, token_host)"
proof -
  have "map_of (smap (hstorage token_host)) (KAccount 3) = Some (Some (token_account, None))"
    by (simp add: token_host_def with_enforcing_footprint_and_map_def)
  note get = token_get [OF this]
  have t: "runs (onHost (onStore (try_get (key_cmp plain_env) (KAccount 3)))) (am, token_host) (Inr (Some token_account)) (am, token_host)"
    unfolding try_get_def onStore_bind onHost_bind onStore_ret onHost_simps
    by (rule runs_bind [OF get]) (simp_all add: runs_simps)
  show ?thesis
  proof (rule runsI)
    fix b assume "unlimited b"
    then obtain b' where b': "unlimited b'" "onHost (onStore (try_get (key_cmp plain_env) (KAccount 3))) (am, token_host\<lparr>hbudget := b\<rparr>) =
        (Inr (Some token_account), (am, token_host\<lparr>hbudget := b'\<rparr>))" using runsE [OF t] by auto
    then have "onStore (try_get (key_cmp plain_env) (KAccount 3)) (token_host\<lparr>hbudget := b\<rparr>) =
        (Inr (Some token_account), token_host\<lparr>hbudget := b'\<rparr>)" by (simp add: onHost_run split: prod.splits)
    with b'(1) show "\<exists>b'. unlimited b' \<and> onHost (read_account_entry (plain_frame g) (KAccount 3))
      (fst (am, token_host), (snd (am, token_host))\<lparr>hbudget := b\<rparr>) =
      (Inr token_account, (fst (am, token_host), (snd (am, token_host))\<lparr>hbudget := b'\<rparr>))"
      by (intro exI [of _ b']) (simp add: onHost_run read_account_entry_def read_classic_entry_def)
  qed
qed

lemma token_put: "unlimited b \<Longrightarrow> \<exists>h'. onStore (storage_put (key_cmp plain_env) (KAccount 3) le None) (token_host\<lparr>hbudget := b\<rparr>) = (Inr (), h')"
  if "data_type le = TAccount"
proof -
  let ?s = "hstorage token_host"
  assume b: "unlimited b"
  have "a_put None (KAccount 3) (Some (le, None)) (abs_store ?s) =
      (Inr (), (map_of (footprint ?s), (map_of (smap ?s))(KAccount 3 \<mapsto> Some (le, None))))"
    using that by (simp add: a_put_def check_supported_ledger_key_type_def check_supported_ledger_entry_type_def abs_store_def token_host_def
        with_enforcing_footprint_and_map_def bindM_def a_access_run allowed_def modifyM_apply retM_apply)
  moreover have "small (map_of (footprint ?s), (map_of (smap ?s))(KAccount 3 \<mapsto> Some (le, None)))"
    using card_length [of "[KAccount 3, instance_key, allowance_key]"]
    by (simp add: small_def u32_MAX_def token_host_def with_enforcing_footprint_and_map_def)
  ultimately obtain s' b' where "put_opt (key_cmp plain_env) (KAccount 3) (Some (le, None)) (?s, b) = (Inr (), (s', b'))"
    using refM_D [OF storage_keys.refM_put [OF plain.storage_keys_axioms, of None] b token_store(1)] token_store(2)
    by (fastforce simp: mode_of_def)
  then show ?thesis by (simp add: storage_put_def onStore_def zoomM_def)
qed

text \<open>As \<open>runs\<close>, with some final state.\<close>

definition ends :: "('p, 'x, 'z, 'r) txM \<Rightarrow> ('p, 'x, 'z) txState \<Rightarrow> Error + 'r \<Rightarrow> bool" where
  "ends m s r \<longleftrightarrow> (\<forall>b. unlimited b \<longrightarrow> (\<exists>s'. m (fst s, (snd s)\<lparr>hbudget := b\<rparr>) = (r, s')))"

lemma ends_bind: "runs m s (Inr x) s1 \<Longrightarrow> ends (f x) s1 r \<Longrightarrow> ends (bindM m f) s r"
  unfolding ends_def by (intro allI impI, erule (1) runsE, drule spec, drule (1) mp) (auto simp: bindM_run)

lemma token_transfer: "\<exists>h'. transfer_classic_balance (plain_frame g) 3 5 token_host = (Inr (), h')"
proof -
  let ?E = "plain_frame g"
  let ?le = "token_account\<lparr>data_type := TAccount, data_content := AccountData (plain_account 1\<lparr>acc_balance := 105\<rparr>)\<rparr>"
  let ?am = "calm_manager"
  have key: "runs (onHost (to_account_key plain_env 3)) (?am, token_host) (Inr (KAccount 3)) (?am, token_host)"
    unfolding to_account_key_def onHost_bind onHost_simps
    by (rule runs_bind [OF runs_unit]) (auto simp: plain.totalM_sized plain_env_def intro: runs_simps)
  have acc: "runs (onHost (account_of_entry token_account)) (?am, token_host) (Inr (plain_account 1)) (?am, token_host)"
    by (simp add: account_of_entry_def token_account_def onHost_simps runs_simps)
  have clone: "runs (onHost (onB (clone_account plain_env (plain_account 1)))) (?am, token_host) (Inr (plain_account 1)) (?am, token_host)"
    by (simp add: plain_env_def runs_sized)
  have mm: "runs (onHost (get_min_max_account_balance (plain_account 1))) (?am, token_host) (Inr (2, i64_MAX)) (?am, token_host)"
    by (rule runs_direct) (simp add: get_min_max_account_balance_def plain_account_def onHost_run token_facts with_ledger_info_def
      account_min_max_def plain_ledger_def retM_def wrap_i64_def getM_def bindM_def)
  have mod: "runs (onHost (modify_ledger_entry_data token_account (AccountData (plain_account 1\<lparr>acc_balance := 105\<rparr>)))) (?am, token_host) (Inr ?le) (?am, token_host)"
    unfolding modify_ledger_entry_data_def onHost_bind onHost_simps
    by (rule runs_bind [OF runs_sized], rule runs_bind [OF runs_unit]) (auto simp: plain.totalM_sized intro: runs_simps)
  have put: "\<exists>h'. onHost (onStore (storage_put (key_cmp plain_env) (KAccount 3) ?le None)) (?am, token_host\<lparr>hbudget := b\<rparr>) = (Inr (), (?am, h'))"
    if "unlimited b" for b using token_put [OF _ that, of ?le] by (auto simp: onHost_run)
  have e: "ends (onHost (onStore (storage_put (key_cmp plain_env) (KAccount 3) ?le None))) (?am, token_host) (Inr ())"
    unfolding ends_def fst_conv snd_conv using put by blast
  have new: "acc_balance (plain_account 1) = 100" "checked_i64 105 = Some 105" "(105 :: int) \<le> i64_MAX"
    by (simp_all add: plain_account_def checked_i64_def i64_defs)
  have "ends (onHost (transfer_classic_balance ?E 3 5)) (?am, token_host) (Inr ())"
    unfolding transfer_classic_balance_def by_asset_def transfer_account_balance_def onHost_bind plain_frame_env
    by (rule ends_bind [OF token_asset])
      (simp only: Asset.case onHost_bind, rule ends_bind [OF key], rule ends_bind [OF token_account_read],
        rule ends_bind [OF acc], rule ends_bind [OF clone], rule ends_bind [OF mm],
        simp add: new onHost_bind, rule ends_bind [OF mod], rule e)
  then obtain s' where "onHost (transfer_classic_balance ?E 3 5) (?am, token_host\<lparr>hbudget := hbudget token_host\<rparr>) = (Inr (), s')"
    unfolding ends_def fst_conv snd_conv token_facts(5) using unlimited_budget_unlimited by blast
  then show ?thesis by (auto simp: onHost_run split: prod.splits)
qed


section \<open>An approval\<close>

definition token_manager :: manager where
  "token_manager = calm_manager\<lparr>call_stack := [FrameContract 5 0, FrameContract 19 0]\<rparr>"

lemma token_id: "runs (onHost get_current_contract_id_internal) (am, token_host) (Inr 9) (am, token_host)"
proof -
  have fr: "frame_contract_id (frame (last (context_stack token_host))) = Some 9"
    by (simp add: token_facts token_context_def)
  have "runs (onHost get_current_contract_id_opt_internal) (am, token_host) (Inr (Some 9)) (am, token_host)"
    unfolding get_current_contract_id_opt_internal_def with_current_frame_opt_def onHost_bind
    by (rule runs_bind [where x = "context_stack token_host"], rule runs_get, simp,
        simp add: token_facts(1) token_context_def onHost_bind, rule runs_bind [OF runs_sized])
      (simp add: onHost_simps runs_simps)
  then show ?thesis unfolding get_current_contract_id_internal_def onHost_bind
    by (rule runs_bind) (simp add: onHost_simps runs_simps)
qed

lemma token_instance_key: "runs (onHost (contract_instance_ledger_key plain_env 9)) (am, token_host) (Inr instance_key) (am, token_host)"
  unfolding contract_instance_ledger_key_def onHost_bind onHost_simps
  by (rule runs_bind [OF runs_sized], rule runs_bind [OF runs_unit])
    (auto simp: plain.totalM_sized instance_key_def plain_env_def intro: runs_simps)

lemma token_instance_get: "runs (onHost (onStore (get_with_live_until_ledger (key_cmp plain_env) instance_key))) (am, token_host)
    (Inr (instance_entry, Some 200000)) (am, token_host)"
proof -
  have "map_of (smap (hstorage token_host)) instance_key = Some (Some (instance_entry, Some 200000))"
    by (simp add: token_host_def with_enforcing_footprint_and_map_def instance_key_def)
  note get = token_get [OF this]
  show ?thesis unfolding get_with_live_until_ledger_def onStore_bind onHost_bind
    by (rule runs_bind [OF get]) (simp_all add: okOrM_def onStore_ret onHost_simps runs_simps)
qed

lemma token_extend: "runs (onHost (onStore (extend_ttl (key_cmp plain_env) (Some plain_ledger) instance_key
    INSTANCE_TTL_THRESHOLD INSTANCE_EXTEND_AMOUNT))) (am, token_host) (Inr ()) (am, token_host)"
proof -
  have c: "check_supported_ledger_key_type instance_key = retM ()"
    by (simp add: check_supported_ledger_key_type_def instance_key_def)
  have t: "\<not> INSTANCE_TTL_THRESHOLD > INSTANCE_EXTEND_AMOUNT"
    by (simp add: INSTANCE_TTL_THRESHOLD_def INSTANCE_EXTEND_AMOUNT_def DAY_IN_LEDGERS_def)
  have a: "a_ttl (Some plain_ledger) instance_key (Some 200000) INSTANCE_TTL_THRESHOLD INSTANCE_EXTEND_AMOUNT = retM None"
    by (simp add: a_ttl_def with_ledger_info_def plain_ledger_def max_live_until_ledger_def okOrM_def checked_add_def
      saturating_sub_def instance_key_def INSTANCE_TTL_THRESHOLD_def INSTANCE_EXTEND_AMOUNT_def DAY_IN_LEDGERS_def)
  show ?thesis unfolding extend_ttl_alt c retM_bind if_not_P [OF t] onStore_bind onHost_bind
    by (rule runs_bind [OF token_instance_get]) (simp add: a onStore_ret onHost_simps runs_simps)
qed

lemma token_retrieve: "runs (onHost (retrieve_contract_instance_from_storage plain_env instance_key)) (am, token_host)
    (Inr asset_instance) (am, token_host)"
proof -
  have "map_of (smap (hstorage token_host)) instance_key = Some (Some (instance_entry, Some 200000))"
    by (simp add: token_host_def with_enforcing_footprint_and_map_def instance_key_def)
  note get = token_get [OF this]
  have "runs (onHost (onStore (storage_get (key_cmp plain_env) instance_key))) (am, token_host) (Inr instance_entry) (am, token_host)"
    unfolding storage_get_def try_get_def onStore_bind onHost_bind
    by (rule runs_bind [where x = "Some instance_entry" and ?s1.0 = "(am, token_host)"], rule runs_bind [OF get])
      (simp_all add: okOrM_def onStore_ret onHost_simps runs_simps)
  then show ?thesis unfolding retrieve_contract_instance_from_storage_def onHost_bind
    by (rule runs_bind) (simp add: plain_env_def instance_entry_def runs_sized)
qed

lemma token_bump: "runs (onHost (extend_current_contract_instance_and_code_ttl plain_env INSTANCE_TTL_THRESHOLD INSTANCE_EXTEND_AMOUNT))
    (am, token_host) (Inr from_void) (am, token_host)"
  unfolding extend_current_contract_instance_and_code_ttl_def extend_contract_instance_and_code_ttl_from_contract_id_def onHost_bind
  by (rule runs_bind [OF token_id], rule runs_bind [where x = "()" and ?s1.0 = "(am, token_host)"], rule runs_bind [OF token_instance_key],
      rule runs_bind [where x = "Some plain_ledger"], rule runs_get, simp add: token_facts,
      rule runs_bind [OF runs_clone], simp, rule runs_bind [OF token_extend], rule runs_bind [OF token_retrieve])
    (simp_all add: asset_instance_def onHost_simps runs_simps)


lemma token_has: "runs (onHost (has_contract_data plain_env (from_u32 1) TemporaryStorage)) (am, token_host)
    (Inr (from_bool False)) (am, token_host)"
proof -
  have "map_of (smap (hstorage token_host)) allowance_key = Some None"
    by (simp add: token_host_def with_enforcing_footprint_and_map_def allowance_key_def instance_key_def)
  note get = token_get [OF this]
  have key: "runs (onHost (storage_key_from_val plain_env (from_u32 1) Temporary)) (am, token_host) (Inr allowance_key) (am, token_host)"
  proof -
    have o: "onObjects (scval_from_val plain_env v) = onB (clone_sized 64 (unat v))" for v
      by (intro ext) (auto simp: plain_env_def onObjects_def onB_def onBudgetOf_def zoomM_def split: prod.splits)
    show ?thesis
      unfolding storage_key_from_val_def storage_key_from_scval_def storage_key_for_address_def onHost_bind onHost_simps o
      by (intro runs_bind [OF runs_sized] runs_bind [OF token_id] runs_bind [OF runs_unit])
        (auto simp: plain.totalM_sized plain_env_def allowance_key_def intro: runs_simps)
  qed
  have d: "ofSum (durability_of TemporaryStorage) = retM Temporary" by (simp add: ofSum_def)
  show ?thesis unfolding has_contract_data_def onHost_bind StorageType.case d onHost_simps retM_bind storage_has_alt onStore_bind onStore_ret
    by (rule runs_bind [where x = False and ?s1.0 = "(am, token_host)"], rule runs_bind [OF key], rule runs_bind [OF get])
      (simp_all add: runs_simps)
qed

lemma token_stored_allowance: "runs (onHost (stored_allowance (plain_frame g) f s)) (am, token_host) (Inr None) (am, token_host)"
proof -
  have "from_bool False \<noteq> from_bool True" by code_simp
  then show ?thesis unfolding stored_allowance_def try_get_contract_data_def onHost_bind plain_frame_env
    by (intro runs_bind [where x = "from_u32 1" and ?s1.0 = "(am, token_host)"] runs_bind [OF token_has])
      (simp_all add: plain_asset_def onHost_bind onHost_simps runs_simps)
qed

lemma token_write_allowance: "runs (onHost (write_allowance (plain_frame g) f s 0 50)) (am, token_host) (Inr ()) (am, token_host)"
proof -
  have l: "runs (onHost (check_live_until 0 50)) (am, token_host) (Inr 10) (am, token_host)"
    by (rule runs_direct) (simp add: check_live_until_def onHost_run token_facts with_ledger_info_def max_live_until_ledger_def
      plain_ledger_def okOrM_def checked_add_def saturating_sub_def bindM_def getM_def retM_def)
  show ?thesis unfolding write_allowance_def onHost_bind
    by (rule runs_bind [OF l], rule runs_bind [OF token_stored_allowance]) (simp add: onHost_simps runs_simps)
qed

lemma token_name: "runs (onHost (read_name (plain_frame g))) (am, token_host) (Inr from_void) (am, token_host)"
proof -
  have "map_of token_storage (from_u32 5) = Some from_void" using token_keys by (simp add: token_storage_def)
  note get = token_instance_read [OF this]
  show ?thesis unfolding read_name_def read_metadata_def onHost_bind plain_frame_env
    by (rule runs_bind [where x = "\<lparr>md_decimal = DECIMAL, md_name = from_void, md_symbol = from_void\<rparr>" and ?s1.0 = "(am, token_host)"],
        rule runs_bind [where x = "from_u32 5" and ?s1.0 = "(am, token_host)"], simp add: plain_asset_def runs_simps,
        rule runs_bind [OF get])
      (simp_all add: plain_asset_def onHost_simps runs_simps)
qed

lemma token_record: "ends (onHost (record_contract_event (plain_frame g) ty topics data)) (am, token_host) (Inr ())"
proof -
  have i: "runs (onHost (bytesobj_from_internal_contract_id (plain_frame g))) (am, token_host) (Inr (Some 9)) (am, token_host)"
  proof -
    have "runs (onHost get_current_contract_id_opt_internal) (am, token_host) (Inr (Some 9)) (am, token_host)"
      unfolding get_current_contract_id_opt_internal_def with_current_frame_opt_def onHost_bind
      by (rule runs_bind [where x = "context_stack token_host"], rule runs_get, simp,
          simp add: token_facts(1) token_context_def onHost_bind, rule runs_bind [OF runs_sized])
        (simp add: onHost_simps runs_simps)
    then show ?thesis unfolding bytesobj_from_internal_contract_id_def onHost_bind
      by (rule runs_bind) (simp add: onHost_bind, rule runs_bind [where x = 9 and ?s1.0 = "(am, token_host)"],
          simp_all add: plain_frame_def onHost_simps runs_simps)
  qed
  have "ends (onHost (onEvents (events_record NoDiagnostics (ContractEv c)))) (am, token_host) (Inr ())" for c
    unfolding ends_def
  proof (intro allI impI)
    fix b assume b: "unlimited b"
    have "totalM (vec_init_cpy 49 1)" unfolding vec_init_cpy_def charge_bulk_init_cpy_def by auto
    then obtain b' where "vec_init_cpy 49 1 b = (Inr (), b')" using totalM_D b by fastforce
    then show "\<exists>s'. onHost (onEvents (events_record NoDiagnostics (ContractEv c))) (fst (am, token_host), (snd (am, token_host))\<lparr>hbudget := b\<rparr>) = (Inr (), s')"
      by (simp add: onHost_run onEvents_def zoomM_def metered_internal_event_push_def on_budget_def bindM_def modifyM_def)
  qed
  then show ?thesis unfolding record_contract_event_def onHost_bind by (rule ends_bind [OF i])
qed

lemma token_auth: "runs (require_auth_fn (plain_frame g) run 5) (token_manager, token_host) (Inr from_void) (token_manager, token_host)"
proof -
  let ?H = "frame_host (plain_frame g) run"
  have H: "clone_symbol ?H = (\<lambda>v. onB (clone_sized 8 v))" "cmp_address ?H = (\<lambda>a b. onObjects (retM (cmp_of a b)))"
    by (simp_all add: frame_host_def base_host_def plain_frame_def)
  have cs: "call_stack token_manager = [FrameContract 5 0, FrameContract 19 0]" by (simp add: token_manager_def)
  have a: "runs (onHost (with_current_frame (\<lambda>f. case f of
         ContractVM _ _ args _ _ \<Rightarrow> onB (metered_clone (vec_type (shallow_type 8)) args)
       | HostFunctionFrame _ \<Rightarrow> throwM context_internal
       | StellarAssetContractFrame _ _ args _ \<Rightarrow> onB (metered_clone (vec_type (shallow_type 8)) args))))
      (token_manager, token_host) (Inr []) (token_manager, token_host)"
    unfolding with_current_frame_def onHost_bind
    by (rule runs_bind [where x = "context_stack token_host"], rule runs_get, simp,
        simp add: token_facts(1) token_context_def, rule runs_clone) (intro total_vec total_shallow)
  have g: "runs (getM (\<lambda>st. call_stack (fst st))) (token_manager, token_host) (Inr (call_stack token_manager)) (token_manager, token_host)"
    by (rule runs_direct) (simp add: getM_def)
  have f: "runs (onHost (to_authorized_function ?H (FrameContract 19 0) [])) (token_manager, token_host)
      (Inr (ContractFn \<lparr>cf_address = 19, cf_name = 0, cf_args = []\<rparr>)) (token_manager, token_host)"
    unfolding to_authorized_function.simps H onHost_bind onHost_simps by (intro runs_bind [OF runs_sized] runs_simps)
  have d: "runs (bindM (onHost (cmp_address ?H 5 5)) (\<lambda>ord. retM (ord = Equal))) (token_manager, token_host) (Inr True) (token_manager, token_host)"
    unfolding H by (rule runs_bind [OF runs_simps(3)]) (simp add: cmp_of_def runs_simps)
  have m: "runs (maybe_check_invoker_contract_auth ?H 5 fn) (token_manager, token_host) (Inr True) (token_manager, token_host)" for fn
    unfolding maybe_check_invoker_contract_auth_def
    by (rule runs_bind [OF g], simp add: cs, rule runs_bind [OF d]) (simp add: runs_simps)
  have r: "runs (require_auth ?H from_void 5 []) (token_manager, token_host) (Inr ()) (token_manager, token_host)"
    unfolding require_auth_def require_auth_internal_def
    by (rule runs_bind [OF g], simp add: cs del: to_authorized_function.simps, rule runs_bind [OF f], rule runs_bind [OF m])
      (simp add: runs_simps)
  show ?thesis unfolding require_auth_fn_def by (rule runs_bind [OF a], rule runs_bind [OF r], rule runs_simps)
qed


lemma ends_then: "ends m s (Inr x) \<Longrightarrow> ends (thenM m (retM y)) s (Inr y)"
  unfolding ends_def by (intro allI impI, drule spec, drule (1) mp) (auto simp: bindM_run retM_def)

lemma token_approve: "ends (asset_function (plain_frame g) run (Approve 5 7 0 50)) (token_manager, token_host) (Inr from_void)"
proof -
  let ?s = "(token_manager, token_host)"
  have t: "runs (onHost (event_topics (plain_frame g) n as)) ?s (Inr from_void) ?s" for n as
    unfolding event_topics_def onHost_bind plain_frame_env
    by (rule runs_bind [where x = from_void and ?s1.0 = ?s], simp add: plain_asset_def runs_simps, rule runs_bind [OF token_name])
      (simp add: plain_asset_def runs_simps)
  have e: "ends (onHost (event_approve (plain_frame g) 5 7 0 50)) ?s (Inr ())"
    unfolding event_approve_def onHost_bind plain_frame_env
    by (rule ends_bind [OF t], rule ends_bind [where x = "from_u32 0" and ?s1.0 = ?s], simp add: plain_asset_def runs_simps,
        rule ends_bind [where x = from_void and ?s1.0 = ?s], simp add: plain_asset_def runs_simps, rule token_record)
  have n: "runs (onHost (thenM (check_nonnegative_amount 0) (retM 5))) ?s (Inr 5) ?s"
    by (simp add: check_nonnegative_amount_def onHost_simps runs_simps)
  show ?thesis
    unfolding asset_function.simps approve_def authorized_step_def onHost_bind plain_frame_env
    by (rule ends_then, rule ends_bind [OF n [unfolded onHost_bind]], rule ends_bind [OF token_auth], rule ends_bind [OF token_bump],
        rule ends_bind [OF runs_sized], rule ends_bind [OF runs_sized], rule ends_bind [OF token_write_allowance], rule e)
qed

end
