(* ===== verification/Asset_Safety.thy ===== *)
theory Asset_Safety
  imports Call_Safety Asset_Instance
begin

text \<open>
  Guarantees of the built-in asset contract: nothing is changed in the name of an address that did
  not authorize it, a classic balance changes by exactly the amount of a transfer and nothing else
  does, and the name of the contract determines the asset.
\<close>

section \<open>Asset names\<close>

lemma code_loop_zero: "asset_code_loop True m cs = Inr n \<Longrightarrow> cs = replicate (length cs) 0 \<and> n = m"
  by (induction cs) (auto split: if_splits)

lemma code_loop_shape:
  "asset_code_loop False m cs = Inr n \<Longrightarrow>
   \<exists>w k. cs = w @ replicate k 0 \<and> n = m + length w \<and> (\<forall>c\<in>set w. is_ascii_alphanumeric c)"
proof (induction cs arbitrary: m)
  case (Cons c cs)
  show ?case
  proof (cases "c = 0")
    case True
    then have "asset_code_loop True m cs = Inr n" using Cons.prems by simp
    from code_loop_zero [OF this] show ?thesis
      using True by (intro exI [of _ "[]"] exI [of _ "Suc (length cs)"]) simp
  next
    case False
    then have c: "is_ascii_alphanumeric c" and "asset_code_loop False (m + 1) cs = Inr n"
      using Cons.prems by (auto split: if_splits)
    from Cons.IH [OF this(2)] obtain w k where
      "cs = w @ replicate k 0" "n = m + 1 + length w" "\<forall>c\<in>set w. is_ascii_alphanumeric c" by blast
    then show ?thesis using c by (intro exI [of _ "c # w"] exI [of _ k]) simp
  qed
qed auto

lemma valid_code_shape:
  assumes "validate_asset_code code = Inr ()"
  obtains w k where "code = w @ replicate k 0" "\<forall>c\<in>set w. is_ascii_alphanumeric c" "w \<noteq> []"
    "length code > 4 \<longrightarrow> length w > 4"
proof -
  from assms obtain n where n: "asset_code_loop False 0 code = Inr n" "n \<noteq> 0" "\<not> (n \<le> 4 \<and> length code > 4)"
    by (auto simp: validate_asset_code_def split: sum.splits if_splits)
  from code_loop_shape [OF n(1)] n(2,3) that show thesis by fastforce
qed

lemma alphanumeric_plain: "is_ascii_alphanumeric c \<Longrightarrow> c \<noteq> 0 \<and> c \<noteq> 58 \<and> \<not> must_escape c"
  by (auto simp: is_ascii_alphanumeric_def must_escape_def word_le_nat_alt)

lemma render_alphanumeric:
  "\<forall>c\<in>set w. is_ascii_alphanumeric c \<Longrightarrow> n = 4 \<or> n = 12 \<and> (4 < i + length w \<or> k = 0) \<Longrightarrow>
   render_code_loop n i (w @ replicate k 0) = w"
proof (induction w arbitrary: i)
  case Nil
  then show ?case by (cases k) auto
next
  case (Cons c w)
  then show ?case using alphanumeric_plain [of c] by auto
qed

lemma render_valid:
  assumes "validate_asset_code code = Inr ()" "length code = 4 \<or> length code = 12"
  obtains w where "render_sep0011_asset_code code = Inr w" "58 \<notin> set w" "code = w @ replicate (length code - length w) 0"
    "length code = 12 \<longleftrightarrow> length w > 4"
proof -
  obtain w k where c: "code = w @ replicate k 0" "\<forall>c\<in>set w. is_ascii_alphanumeric c" "w \<noteq> []" "length code > 4 \<longrightarrow> length w > 4"
    using valid_code_shape [OF assms(1)] .
  have "render_code_loop (length code) 0 (w @ replicate k 0) = w"
    by (rule render_alphanumeric) (use assms(2) c in auto)
  then have "render_sep0011_asset_code code = Inr w" using assms(2) c(1) by (auto simp: render_sep0011_asset_code_def)
  then show thesis using that c assms(2) alphanumeric_plain by fastforce
qed

text \<open>
  C35: names are unambiguous. The code of every valid asset has a rendering for the contract's name; it has
  no colon, which separates the code from the issuer in the name, and no other valid code is
  rendered the same, be it of the short or of the long kind.
\<close>

theorem asset_name_unambiguous:
  assumes "length code = 4 \<or> length code = 12" and "validate_asset_code code = Inr ()"
  shows "\<exists>s. render_sep0011_asset_code code = Inr s \<and> 58 \<notin> set s \<and>
    (\<forall>other. (length other = 4 \<or> length other = 12) \<and> validate_asset_code other = Inr () \<and>
       render_sep0011_asset_code other = Inr s \<longrightarrow> other = code)"
proof -
  obtain w where w: "render_sep0011_asset_code code = Inr w" "58 \<notin> set w"
    "code = w @ replicate (length code - length w) 0" "length code = 12 \<longleftrightarrow> length w > 4"
    using render_valid [OF assms(2,1)] .
  moreover have "other = code" if o: "(length other = 4 \<or> length other = 12) \<and> validate_asset_code other = Inr () \<and>
       render_sep0011_asset_code other = Inr w" for other
  proof -
    from o obtain v where v: "render_sep0011_asset_code other = Inr v"
      "other = v @ replicate (length other - length v) 0" "length other = 12 \<longleftrightarrow> length v > 4"
      using render_valid [of other] by blast
    then have "v = w" using o by simp
    then have "length other = length code" using v(3) w(4) o assms(1) by auto
    then show ?thesis using v(2) w(3) \<open>v = w\<close> by metis
  qed
  ultimately show ?thesis by blast
qed

theorem asset_name_unambiguous_witness:
  "validate_asset_code [85, 83, 68, 0] = Inr () \<and> render_sep0011_asset_code [85, 83, 68, 0] = Inr [85, 83, 68] \<and>
   validate_asset_code [85, 83, 68, 67, 50, 0, 0, 0, 0, 0, 0, 0] = Inr () \<and>
   render_sep0011_asset_code [85, 83, 68, 67, 50, 0, 0, 0, 0, 0, 0, 0] \<noteq> Inr [85, 83, 68]"
proof -
  have v: "validate_asset_code [85, 83, 68, 0] = Inr ()" "validate_asset_code [85, 83, 68, 67, 50, 0, 0, 0, 0, 0, 0, 0] = Inr ()"
    by (simp_all add: validate_asset_code_def is_ascii_alphanumeric_def)
  have r: "render_sep0011_asset_code [85, 83, 68, 0] = Inr [85, 83, 68]"
    by (simp add: render_sep0011_asset_code_def must_escape_def)
  have "render_sep0011_asset_code [85, 83, 68, 67, 50, 0, 0, 0, 0, 0, 0, 0] \<noteq> Inr [85, 83, 68]"
  proof
    assume o: "render_sep0011_asset_code [85, 83, 68, 67, 50, 0, 0, 0, 0, 0, 0, 0] = Inr [85, 83, 68]"
    obtain s where s: "render_sep0011_asset_code [85, 83, 68, 0] = Inr s" "\<forall>other. (length other = 4 \<or> length other = 12) \<and>
        validate_asset_code other = Inr () \<and> render_sep0011_asset_code other = Inr s \<longrightarrow> other = [85, 83, 68, 0]"
      using asset_name_unambiguous [OF _ v(1)] by auto
    have "[85, 83, 68, 67, 50, 0, 0, 0, 0, 0, 0, 0] = [85, 83, 68, 0 :: u8]"
      by (rule s(2) [rule_format]) (use o v(2) r s(1) in simp)
    then show False by simp
  qed
  with v r show ?thesis by blast
qed

section \<open>Reading\<close>

text \<open>
  In enforcing mode a read leaves the ledger as it is; it may load the instance storage of the
  current contract into its context, once.
\<close>

definition reads_only :: "('p, 'x, 'z) HostState \<Rightarrow> ('p, 'x, 'z) HostState \<Rightarrow> bool" where
  "reads_only h h' \<longleftrightarrow> host_rel h h' \<and> (mode (hstorage h) = Enforcing \<longrightarrow> hstorage h' = hstorage h) \<and>
     (context_stack h \<noteq> [] \<and> ctx_storage (last (context_stack h)) \<noteq> None \<longrightarrow> context_stack h' = context_stack h)"

lemma reads_only_refl [simp]: "reads_only h h"
  by (simp add: reads_only_def)

lemma reads_only_trans: "reads_only h1 h2 \<Longrightarrow> reads_only h2 h3 \<Longrightarrow> reads_only h1 h3"
  by (auto simp: reads_only_def intro: host_rel_trans)

interpretation reads: stable reads_only
  by unfold_locales (auto simp: reflp_def transp_def intro: reads_only_trans)

abbreviation readsH :: "('p, 'x, 'z, 'r) hostM \<Rightarrow> bool" where
  "readsH \<equiv> relM reads_only"

lemma readsH_bind [intro!]: "readsH m \<Longrightarrow> (\<And>x. readsH (f x)) \<Longrightarrow> readsH (bindM m f)"
  by (rule reads.stable_host_bind)

lemma readsH_D: "readsH m \<Longrightarrow> m h = (r, h') \<Longrightarrow> reads_only h h'"
  unfolding relM_def by (metis snd_conv)

lemma readsH_zooms [intro!, simp]: "readsH (onB b)" "readsH (onObjects q)" "readsH (ofSum z)" "readsH (throwC e)"
  by (auto simp: relM_def onB_def onObjects_def zoomM_def reads_only_def host_rel_def ofSum_def m_defs throwC_def
      split: prod.splits sum.splits)

lemma readsH_store:
  assumes "relM reading m"
  shows "readsH (onStore m :: ('p, 'x, 'z, 'r) hostM)"
  unfolding relM_def
proof
  fix h :: "('p, 'x, 'z) HostState"
  obtain r s b where g: "m (hstorage h, hbudget h) = (r, (s, b))" by (cases "m (hstorage h, hbudget h)") auto
  then have "mode (hstorage h) = Enforcing \<longrightarrow> s = hstorage h"
    using assms unfolding relM_def reading_def by (metis fst_conv snd_conv)
  then show "reads_only h (snd (onStore m h))"
    using g by (simp add: onStore_def zoomM_def reads_only_def host_rel_def)
qed

lemma reading_reads: "relM reading (try_get kc k)" "relM reading (storage_has kc k)"
  unfolding storage_has_def try_get_def try_get_full_def
  by (auto simp: check_supported_ledger_key_type_def simp del: getM_bind intro!: reading_prepare split: option.split)

lemma readsH_gets [intro!, simp]:
  "readsH (onStore (try_get kc k))" "readsH (onStore (storage_has kc k))" "readsH (onStore (storage_get kc k))"
  by (rule readsH_store, rule reading_reads reading_get)+

lemma readsH_context:
  fixes f :: "('x Context \<times> ('p, 'x, 'z) HostState, 'r) hm"
  assumes "relM ctx_rel f" "\<And>ctx h r ctx' h'. f (ctx, h) = (r, (ctx', h')) \<Longrightarrow> ctx_storage ctx \<noteq> None \<Longrightarrow> ctx' = ctx"
  shows "readsH (with_current_context_mut f)"
  unfolding relM_def
proof
  fix h :: "('p, 'x, 'z) HostState"
  obtain r ctx h' where run: "f (last (context_stack h), h) = (r, (ctx, h'))"
    by (cases "f (last (context_stack h), h)") auto
  have rel: "ctx_rel (last (context_stack h), h) (ctx, h')" using assms(1) run unfolding relM_def by (metis snd_conv)
  have "host_rel h (snd (with_current_context_mut f h))" using calmH_context [OF assms(1)] unfolding relM_def by blast
  then show "reads_only h (snd (with_current_context_mut f h))"
    using run rel assms(2) [OF run] by (auto simp: with_current_context_mut_def reads_only_def ctx_rel_def)
qed

lemma readsH_instance_storage: "readsH (with_instance_storage E f)" for E :: "('p, 'x, 'z) host_env"
proof -
  let ?init = "maybe_init_instance_storage E :: ('x Context \<times> ('p, 'x, 'z) HostState, unit) hm"
  let ?rest = "bindM (getM (\<lambda>st. ctx_storage (fst st))) (\<lambda>s. bindM (okOrM s context_internal) (\<lambda>s.
      bindM (getM (\<lambda>st. hrest (snd st))) (\<lambda>z. onHostOf (onB (f (is_map s) z)))))"
  have init: "?init (ctx, h) = (Inr (), (ctx, h))" if "ctx_storage ctx \<noteq> None" for ctx h
    using that by (simp add: maybe_init_instance_storage_def retM_def)
  have rest: "\<exists>r h'. ?rest (ctx, h) = (r, (ctx, h'))" for ctx and h :: "('p, 'x, 'z) HostState"
    by (cases "ctx_storage ctx") (auto simp: okOrM_def throwM_def bindM_def onHostOf_def zoomM_def getM_def retM_def
        split: prod.split)
  show ?thesis unfolding with_instance_storage_def
  proof (rule readsH_context)
    show "relM ctx_rel (thenM ?init ?rest)" by (auto simp del: getM_bind intro!: ctxM_bind ctxM_init)
    show "ctx' = ctx" if "thenM ?init ?rest (ctx, h) = (r, (ctx', h'))" "ctx_storage ctx \<noteq> None" for ctx h r ctx' h'
      using that rest [of ctx h] init [of ctx h] by (auto simp: bindM_run simp del: getM_bind)
  qed
qed

lemma readsH_ids: "readsH get_current_contract_id_opt_internal" "readsH get_current_contract_id_internal"
proof -
  show 1: "readsH get_current_contract_id_opt_internal"
    unfolding get_current_contract_id_opt_internal_def with_current_frame_opt_def
    by (auto simp del: getM_bind split: calm_cases)
  show "readsH get_current_contract_id_internal"
    unfolding get_current_contract_id_internal_def using 1 by (auto split: calm_cases)
qed

lemma readsH_data_keys:
  "readsH (storage_key_for_address E a k d)" "readsH (storage_key_from_scval E x d)" "readsH (storage_key_from_val E v d)"
  unfolding storage_key_from_val_def storage_key_from_scval_def storage_key_for_address_def
  by (auto intro!: readsH_ids)

lemma readsH_data: "readsH (has_contract_data E k t)" "readsH (get_contract_data E k t)" "readsH (try_get_contract_data E k t)"
proof -
  show 1: "readsH (has_contract_data E k t)" "readsH (get_contract_data E k t)"
    unfolding has_contract_data_def get_contract_data_def
    by (auto intro!: readsH_data_keys readsH_instance_storage split: calm_cases)
  then show "readsH (try_get_contract_data E k t)" by (auto simp: try_get_contract_data_def)
qed

lemma readsH_asset_info:
  "readsH (read_asset_info E)" "readsH (asset_of_info E info)" "readsH (read_asset E)" "readsH (read_administrator E)"
proof -
  show 1: "readsH (read_asset_info E)" unfolding read_asset_info_def by (auto intro!: readsH_data)
  show 2: "readsH (asset_of_info E info)" for info by (cases info) auto
  show "readsH (read_asset E)" unfolding read_asset_def using 1 2 by auto
  show "readsH (read_administrator E)" unfolding read_administrator_def address_from_val_def by (auto intro!: readsH_data)
qed

lemma readsH_read_entry: "readsH (read_classic_entry E ce lk)" for E :: "('p, 'x, 'z, 'el, 'sg, 'bo) frame_env"
  unfolding relM_def
proof
  fix h :: "('p, 'x, 'z) HostState"
  obtain r h1 where g: "onStore (try_get (key_cmp (henv E)) lk) h = (r, h1)"
    by (cases "onStore (try_get (key_cmp (henv E)) lk) h")
  have 1: "reads_only h h1" by (rule readsH_D [OF readsH_gets(1) g])
  have "reads_only h (snd (bindM (onObjects q) f h1))" if "\<And>x. readsH (f x)"
    for q and f :: "Val \<Rightarrow> ('p, 'x, 'z, 'x EntryData LedgerEntry) hostM"
  proof -
    have "readsH (bindM (onObjects q) f)" using that by auto
    then show ?thesis using reads_only_trans [OF 1] unfolding relM_def by blast
  qed
  then show "reads_only h (snd (read_classic_entry E ce lk h))"
    using g 1 by (auto simp: read_classic_entry_def split: sum.split option.split)
qed

lemma readsH_classic:
  "readsH (to_trustline_key E acc a)" "readsH (trustline_of_entry le)" "readsH (account_of_entry le)"
  "readsH (get_min_max_account_balance ae)" "readsH (get_min_max_trustline_balance ln)" "readsH (to_account_key HE acc)"
  "readsH (modify_ledger_entry_data le d)"
  unfolding to_trustline_key_def trustline_of_entry_def account_of_entry_def to_account_key_def modify_ledger_entry_data_def
    get_min_max_account_balance_def get_min_max_trustline_balance_def with_ledger_info_def
  by (auto simp del: getM_bind split: EntryData.split option.split)

lemma readsH_flags: "readsH (get_trustline_flags E acc a)" "readsH (load_account HE acc)" "readsH (is_asset_issuer_flag_set E fl)"
proof -
  show "readsH (get_trustline_flags E acc a)"
    unfolding get_trustline_flags_def read_trustline_entry_def by (auto intro!: readsH_classic readsH_read_entry)
  show l: "readsH (load_account HE acc)" for HE acc
    unfolding load_account_def by (auto intro!: readsH_classic split: EntryData.split)
  show "readsH (is_asset_issuer_flag_set E fl)"
    unfolding is_asset_issuer_flag_set_def is_issuer_flag_set_def
    by (auto intro!: readsH_asset_info l split: AssetInfo.split)
qed

lemma readsH_by_asset: "readsH m \<Longrightarrow> (\<And>a i. readsH (f a i)) \<Longrightarrow> readsH (by_asset E m f)"
  unfolding by_asset_def by (auto intro!: readsH_asset_info split: Asset.split)

lemma readsH_stored: "readsH (stored_balance E a)"
  unfolding stored_balance_def by (auto intro!: readsH_data)

lemma readsH_checks:
  "readsH (is_authorized E a)" "readsH (check_authorized E a)" "readsH (check_clawbackable E a)"
  "readsH (check_nonnegative_amount n)" "readsH (check_non_native E)" "readsH (check_not_issuer E a)"
proof -
  show 1: "readsH (is_authorized E a)" for a
    unfolding is_authorized_def is_account_authorized_def is_trustline_authorized_def is_asset_auth_required_def
    by (auto intro!: readsH_by_asset readsH_stored readsH_flags split: ScAddress.split option.split)
  then show "readsH (check_authorized E a)" unfolding check_authorized_def by auto
  show "readsH (check_clawbackable E a)" unfolding check_clawbackable_def
    by (auto intro!: readsH_by_asset readsH_stored readsH_flags split: ScAddress.split option.split)
  show "readsH (check_nonnegative_amount n)" "readsH (check_non_native E)" "readsH (check_not_issuer E a)"
    unfolding check_nonnegative_amount_def check_non_native_def check_not_issuer_def issuer_check_def address_from_account_def
    by (auto intro!: readsH_asset_info split: AssetInfo.split)
qed

section \<open>Authorization\<close>

text \<open>Who must authorize a call of the asset contract.\<close>

datatype authority = Nobody | Holder Val | Administrator

fun asset_authority :: "asset_op \<Rightarrow> authority" where
  "asset_authority (Approve from _ _ _) = Holder from"
| "asset_authority (Transfer from _ _) = Holder from"
| "asset_authority (TransferFrom spender _ _ _) = Holder spender"
| "asset_authority (Burn from _) = Holder from"
| "asset_authority (BurnFrom spender _ _) = Holder spender"
| "asset_authority (Clawback _ _) = Administrator"
| "asset_authority (SetAuthorized _ _) = Administrator"
| "asset_authority (Mint _ _) = Administrator"
| "asset_authority (SetAdmin _) = Administrator"
| "asset_authority _ = Nobody"

fun frame_args :: "'x Frame \<Rightarrow> Val list option" where
  "frame_args (ContractVM _ _ args _ _) = Some args"
| "frame_args (HostFunctionFrame _) = None"
| "frame_args (StellarAssetContractFrame _ _ args _) = Some args"

text \<open>
  The address is the contract that directly invoked the current one, or an unused authorization of
  the address for the current frame's function and arguments is gone.
\<close>

definition authorized_by ::
  "('p, 'x, 'z, 'el, 'sg, 'bo) frame_env \<Rightarrow> ('p, 'x, 'z) runner \<Rightarrow> manager \<Rightarrow> ('p, 'x, 'z) HostState \<Rightarrow> Val \<Rightarrow> manager \<Rightarrow> bool" where
  "authorized_by E run am h address am' \<longleftrightarrow> (\<exists>args function h1 h2.
     context_stack h \<noteq> [] \<and> frame_args (frame (last (context_stack h))) = Some args \<and> call_stack am \<noteq> [] \<and>
     to_authorized_function (frame_host E run) (last (call_stack am)) args h1 = (Inr function, h2) \<and>
     (is_direct_invoker (frame_host E run) am address \<or> consumed (frame_host E run) address function am am'))"

lemma onHost_result: "onHost m (t, h) = (Inr y, s) \<longleftrightarrow> (\<exists>h'. m h = (Inr y, h') \<and> s = (t, h'))"
  by (auto simp: onHost_run split: prod.splits)

lemma require_auth_fn_authorized:
  assumes run: "require_auth_fn E (run_at E n) address (am, h) = (Inr v, (am', h'))"
    and am: "auth_mode am = AuthEnforcing" "manager_ok am"
  shows "authorized_by E (run_at E n) am h address am'"
proof -
  from run obtain args h1 h2 where a: "frame_args (frame (last (context_stack h))) = Some args" "context_stack h \<noteq> []"
    and r: "require_auth (frame_host E (run_at E n)) from_void address args (am, h1) = (Inr (), (am', h2))"
    unfolding require_auth_fn_def
    by (auto simp: bindM_Inr onHost_run with_current_frame_def onB_def zoomM_Inr retM_def throwM_def
        split: prod.splits if_splits Frame.splits dest!: metered_clone_id)
  from host_auth.require_auth_cases [OF r am] a show ?thesis unfolding authorized_by_def by auto
qed

lemma authorized_step_authorized:
  assumes run: "authorized_step E (run_at E n) m f (am, h) = (Inr v, (am', h'))"
    and am: "auth_mode am = AuthEnforcing" "manager_ok am" and calm: "calmH m"
  shows "\<exists>address h1. m h = (Inr address, h1) \<and> authorized_by E (run_at E n) am h address am'"
proof -
  from run obtain address h1 u h2 where m: "m h = (Inr address, h1)"
    and r: "require_auth_fn E (run_at E n) address (am, h1) = (Inr u, (am', h2))"
    unfolding authorized_step_def by (auto simp: bindM_Inr onHost_result)
  have rel: "host_rel h h1" by (rule calmH_D [OF calm m])
  then have "context_stack h1 \<noteq> [] \<Longrightarrow> frame (last (context_stack h1)) = frame (last (context_stack h)) \<and> context_stack h \<noteq> []"
    unfolding host_rel_def by (metis last_map list.map_disc_iff)
  with require_auth_fn_authorized [OF r am] m show ?thesis unfolding authorized_by_def by metis
qed


lemma always_then [intro!]: "always m x \<Longrightarrow> always (bindM n (\<lambda>_. m)) x"
  by (auto simp: always_def bindM_Inr)

lemma always_ret [simp]: "always (retM x) x"
  by (simp add: always_def retM_def)

lemma holder_step:
  assumes "unitM (authorized_step E (run_at E n) m f) (am, h) = (Inr v, (am', h'))"
    and "auth_mode am = AuthEnforcing" "manager_ok am" "calmH m" "always m a"
  shows "authorized_by E (run_at E n) am h a am'"
  using assms by (auto simp: bindM_Inr retM_def dest: alwaysD dest!: authorized_step_authorized)

text \<open>
  The administrator authorized: the address that the contract's instance storage names, read with
  nothing but reads before it.
\<close>

definition authorized_by_admin ::
  "('p, 'x, 'z, 'el, 'sg, 'bo) frame_env \<Rightarrow> ('p, 'x, 'z) runner \<Rightarrow> manager \<Rightarrow> ('p, 'x, 'z) HostState \<Rightarrow> manager \<Rightarrow> bool" where
  "authorized_by_admin E run am h am' \<longleftrightarrow> (\<exists>admin h1 h2. reads_only h h1 \<and>
     read_administrator E h1 = (Inr admin, h2) \<and> authorized_by E run am h admin am')"

definition reads_admin :: "('p, 'x, 'z, 'el, 'sg, 'bo) frame_env \<Rightarrow> ('p, 'x, 'z, Val) hostM \<Rightarrow> bool" where
  "reads_admin E m \<longleftrightarrow> (\<forall>h a h'. m h = (Inr a, h') \<longrightarrow> (\<exists>h1 h2. reads_only h h1 \<and> read_administrator E h1 = (Inr a, h2)))"

lemma reads_admin_simps [intro!]: "reads_admin E (read_administrator E)"
  "readsH m \<Longrightarrow> (\<And>x. reads_admin E (f x)) \<Longrightarrow> reads_admin E (bindM m f)"
proof -
  show "reads_admin E (read_administrator E)" unfolding reads_admin_def using reads_only_refl by blast
  show "reads_admin E (bindM m f)" if "readsH m" "\<And>x. reads_admin E (f x)"
    using that unfolding reads_admin_def bindM_Inr by (meson readsH_D reads_only_trans)
qed

lemma admin_step:
  assumes "unitM (authorized_step E (run_at E n) m f) (am, h) = (Inr v, (am', h'))"
    and "auth_mode am = AuthEnforcing" "manager_ok am" "calmH m" "reads_admin E m"
  shows "authorized_by_admin E (run_at E n) am h am'"
proof -
  obtain a h1 where "m h = (Inr a, h1)" "authorized_by E (run_at E n) am h a am'"
    using assms(1-4) by (auto simp: bindM_Inr retM_def dest!: authorized_step_authorized)
  then show ?thesis using assms(5) unfolding reads_admin_def authorized_by_admin_def by blast
qed

text \<open>
  C8: nothing is done in someone's name without authorization. When a function of the asset contract
  succeeds in enforcing mode that approves, transfers or burns, the holder (the spender of an
  allowance) is the contract that directly invoked the asset contract, or an unused authorization of
  the holder for this very function and these arguments has been used up; for minting, clawing
  back, changing authorization and the administrator it is the stored administrator. All other
  functions leave the authorization manager alone.
\<close>

theorem asset_change_is_authorized:
  assumes run: "asset_function E (run_at E n) op (am, h) = (Inr v, (am', h'))"
    and am: "auth_mode am = AuthEnforcing" "manager_ok am"
  shows "case asset_authority op of
      Nobody \<Rightarrow> am' = am
    | Holder address \<Rightarrow> authorized_by E (run_at E n) am h address am'
    | Administrator \<Rightarrow> authorized_by_admin E (run_at E n) am h am'"
proof (cases "asset_authority op")
  case Nobody
  then show ?thesis using run by (cases op) (auto simp: onHost_result amount_result_def retM_def)
next
  case (Holder a)
  then show ?thesis using run
    by (cases op) (auto simp: approve_def transfer_def transfer_from_def burn_def burn_from_def
        intro!: holder_step [OF _ am] calmH_checks)
next
  case Administrator
  then show ?thesis using run
    by (cases op) (auto simp: clawback_def mint_def set_authorized_def set_admin_def
        intro!: admin_step [OF _ am] calmH_checks calmH_balances calmH_asset_info readsH_checks)
qed


theorem asset_change_is_authorized_witness:
  "\<exists>am' h'. asset_function (plain_frame (Trap (ContractErr 7))) (run_at (plain_frame (Trap (ContractErr 7))) 1) (Approve 5 7 0 50)
      (token_manager, token_host) = (Inr from_void, (am', h')) \<and>
    authorized_by (plain_frame (Trap (ContractErr 7))) (run_at (plain_frame (Trap (ContractErr 7))) 1) token_manager token_host 5 am'"
proof -
  let ?E = "plain_frame (Trap (ContractErr 7))"
  obtain am' h' where run: "asset_function ?E (run_at ?E 1) (Approve 5 7 0 50) (token_manager, token_host\<lparr>hbudget := hbudget token_host\<rparr>) =
      (Inr from_void, (am', h'))"
    using token_approve [of "Trap (ContractErr 7)" "run_at ?E 1"] unfolding ends_def fst_conv snd_conv token_facts(5)
    by (metis unlimited_budget_unlimited prod.exhaust)
  have "manager_ok token_manager" "auth_mode token_manager = AuthEnforcing"
    by (simp_all add: token_manager_def new_enforcing_without_authorizations_def manager_ok_def scoped_def in_scope_def)
  with asset_change_is_authorized [OF run] run show ?thesis by auto
qed

section \<open>Classic balances\<close>

text \<open>Where the balance of an account is kept, and what the balance of an entry is.\<close>

fun holding_key :: "('p, 'x, 'z, 'el, 'sg, 'bo) frame_env \<Rightarrow> Asset \<Rightarrow> u256 \<Rightarrow> 'p LedgerKey" where
  "holding_key E NativeAsset acc = KAccount (p_account (henv E) acc)"
| "holding_key E asset acc = KTrustline (p_trustline (aenv E) acc asset)"

fun issuer_of :: "Asset \<Rightarrow> u256 option" where
  "issuer_of NativeAsset = None"
| "issuer_of (CreditAlphanum4 _ issuer) = Some issuer"
| "issuer_of (CreditAlphanum12 _ issuer) = Some issuer"

fun holding :: "'x EntryData \<Rightarrow> int option" where
  "holding (AccountData ae) = Some (acc_balance ae)"
| "holding (TrustLineData t) = Some (tl_balance t)"
| "holding _ = None"

fun with_holding :: "int \<Rightarrow> 'x EntryData \<Rightarrow> 'x EntryData" where
  "with_holding n (AccountData ae) = AccountData (ae\<lparr>acc_balance := n\<rparr>)"
| "with_holding n (TrustLineData t) = TrustLineData (t\<lparr>tl_balance := n\<rparr>)"
| "with_holding n d = d"

text \<open>
  An account keeps the base reserve for itself twice, for each of its sub-entries and for the
  entries it sponsors less those sponsored by others; what it has offered for sale it must hold,
  and what it has offered to buy must fit.
\<close>

definition reserved_entries :: "AccountEntry \<Rightarrow> int" where
  "reserved_entries ae = 2 + uint (num_sub_entries ae) + (case acc_ext ae of
     AccExtV1 _ (Some (sponsored, sponsoring)) \<Rightarrow> uint sponsoring - uint sponsored | _ \<Rightarrow> 0)"

definition account_liabilities :: "AccountEntry \<Rightarrow> int \<times> int" where
  "account_liabilities ae = (case acc_ext ae of AccExtV1 l _ \<Rightarrow> (selling l, buying l) | AccExtV0 \<Rightarrow> (0, 0))"

fun holding_limits :: "LedgerInfo option \<Rightarrow> 'x EntryData \<Rightarrow> (int \<times> int) option" where
  "holding_limits li (AccountData ae) = map_option (\<lambda>l.
     (wrap_i64 (reserved_entries ae * uint (base_reserve l) + fst (account_liabilities ae)),
      wrap_i64 (i64_MAX - snd (account_liabilities ae)))) li"
| "holding_limits li (TrustLineData t) = (case tl_liabilities t of
     Some liabilities \<Rightarrow> Some (selling liabilities, wrap_i64 (tl_limit t - buying liabilities))
   | None \<Rightarrow> Some (0, tl_limit t))"
| "holding_limits li _ = None"

text \<open>The store after the balance at a key has changed by an amount, and nothing else has.\<close>

definition balance_moved :: "('p, 'x, 'z) HostState \<Rightarrow> 'p LedgerKey \<Rightarrow> int \<Rightarrow> ('p, 'x, 'z) HostState \<Rightarrow> bool" where
  "balance_moved h k n h' \<longleftrightarrow> (\<exists>entry live x mn mx.
     map_of (smap (hstorage h)) k = Some (Some (entry, live)) \<and> holding (data_content entry) = Some x \<and> 0 \<le> x \<and>
     holding_limits (hledger h) (data_content entry) = Some (mn, mx) \<and> mn \<le> x + n \<and> x + n \<le> mx \<and> in_i64 (x + n) \<and>
     map_of (smap (hstorage h')) = (map_of (smap (hstorage h)))(k \<mapsto>
       Some (entry\<lparr>data_type := entry_data_type (data_content entry), data_content := with_holding (x + n) (data_content entry)\<rparr>, None)))"

lemma balance_moved_reads:
  "reads_only h h1 \<Longrightarrow> mode (hstorage h) = Enforcing \<Longrightarrow> balance_moved h1 k n h' \<Longrightarrow> balance_moved h k n h'"
  by (auto simp: balance_moved_def reads_only_def host_rel_def)

lemma read_classic_entry_Inr:
  assumes "read_classic_entry E ce k h = (Inr entry, h')" "storage_keys (key_cmp (henv E)) g"
    "store_wf g (hstorage h)" "mode (hstorage h) = Enforcing"
  shows "\<exists>live. map_of (smap (hstorage h)) k = Some (Some (entry, live))"
proof -
  from assms(1) have "onStore (try_get (key_cmp (henv E)) k) h = (Inr (Some entry), h')"
    by (auto simp: read_classic_entry_def bindM_Inr throwM_def throwC_def split: prod.splits sum.splits option.splits if_splits)
  then obtain s b v where "try_get_full (key_cmp (henv E)) k (hstorage h, hbudget h) = (Inr v, (s, b))"
    and v: "map_option fst v = Some entry"
    by (auto simp: onStore_def zoomM_Inr try_get_def bindM_Inr retM_def)
  then have "map_of (smap (hstorage h)) k = Some v"
    using storage_keys.get_full_enforcing(2) [OF assms(2-4)] by blast
  with v show ?thesis by (cases v) auto
qed

lemma put_balance_moved:
  assumes put: "onStore (storage_put (key_cmp (henv E)) k entry' None) h = (Inr (), h')"
    and pre: "storage_keys (key_cmp (henv E)) g" "store_wf g (hstorage h)" "mode (hstorage h) = Enforcing"
  shows "map_of (smap (hstorage h')) = (map_of (smap (hstorage h)))(k \<mapsto> Some (entry', None))"
proof -
  from put obtain s b where "put_opt (key_cmp (henv E)) k (Some (entry', None)) (hstorage h, hbudget h) = (Inr (), (s, b))"
    and "hstorage h' = s"
    by (auto simp: onStore_def zoomM_Inr storage_put_def)
  then show ?thesis using storage_keys.put_success(3) [OF pre] by blast
qed


lemma reads_only_store: "reads_only h h1 \<Longrightarrow> mode (hstorage h) = Enforcing \<Longrightarrow> hstorage h1 = hstorage h \<and> hledger h1 = hledger h"
  by (simp add: reads_only_def host_rel_def)

lemma wrap_i64_absorb: "wrap_i64 (wrap_i64 x + y) = wrap_i64 (x + y)"
proof -
  have "(((x + 2 ^ 63) mod 2 ^ 64 - 2 ^ 63) + y + 2 ^ 63) mod 2 ^ 64 = (x + y + 2 ^ 63) mod (2 ^ 64 :: int)"
    using mod_add_left_eq [of "x + 2 ^ 63" "2 ^ 64" y] by (simp add: algebra_simps)
  then show ?thesis by (simp add: wrap_i64_def)
qed

lemma account_min_max_limits:
  "account_min_max (uint (base_reserve l)) ae =
    (wrap_i64 (reserved_entries ae * uint (base_reserve l) + fst (account_liabilities ae)),
     wrap_i64 (i64_MAX - snd (account_liabilities ae)))"
proof -
  have "wrap_i64 i64_MAX = i64_MAX" by (simp add: wrap_i64_def i64_MAX_def)
  then show ?thesis
    by (simp add: account_min_max_def reserved_entries_def account_liabilities_def Let_def wrap_i64_absorb
        add_diff_eq split: AccountEntryExt.split option.split prod.split)
qed

lemma min_max_account_Inr:
  "get_min_max_account_balance ae h = (Inr (mn, mx), h') \<Longrightarrow> 0 \<le> acc_balance ae \<and> holding_limits (hledger h) (AccountData ae) = Some (mn, mx)"
  by (auto simp: get_min_max_account_balance_def with_ledger_info_def throwC_def m_simps getM_bind retM_def throwM_def
      account_min_max_limits split: if_splits option.splits)

lemma min_max_trustline_Inr:
  "get_min_max_trustline_balance t h = (Inr (mn, mx), h') \<Longrightarrow> 0 \<le> tl_balance t \<and> holding_limits li (TrustLineData t) = Some (mn, mx)"
  by (auto simp: get_min_max_trustline_balance_def throwC_def retM_def throwM_def split: if_splits option.splits)

text \<open>The common end of both transfers.\<close>

lemma balance_written:
  assumes pre: "storage_keys (key_cmp (henv E)) g" "store_wf g (hstorage h)" "mode (hstorage h) = Enforcing"
    and read: "read_classic_entry E ce k h1 = (Inr entry, h2)" "reads_only h h1"
    and lim: "reads_only h2 h3" "holding_limits (hledger h3) (data_content entry) = Some (mn, mx)"
    and x: "holding (data_content entry) = Some x" "0 \<le> x" "mn \<le> x + n" "x + n \<le> mx" "in_i64 (x + n)"
    and put: "bindM (modify_ledger_entry_data entry (with_holding (x + n) (data_content entry))) (\<lambda>le.
        onStore (storage_put (key_cmp (henv E)) k le None)) h3 = (Inr (), h')"
  shows "balance_moved h k n h'"
proof -
  obtain h4 where m: "modify_ledger_entry_data entry (with_holding (x + n) (data_content entry)) h3 =
      (Inr (entry\<lparr>data_type := entry_data_type (data_content entry), data_content := with_holding (x + n) (data_content entry)\<rparr>), h4)"
    and p: "onStore (storage_put (key_cmp (henv E)) k (entry\<lparr>data_type := entry_data_type (data_content entry),
        data_content := with_holding (x + n) (data_content entry)\<rparr>) None) h4 = (Inr (), h')"
    using put x(1) unfolding modify_ledger_entry_data_def
    by (cases "data_content entry") (auto simp: bindM_Inr retM_def)
  have s1: "hstorage h1 = hstorage h" "hledger h1 = hledger h" using reads_only_store [OF read(2) pre(3)] by auto
  have "reads_only h1 h2" by (rule readsH_D [OF readsH_read_entry read(1)])
  then have s2: "hstorage h2 = hstorage h" "hledger h2 = hledger h" using reads_only_store s1 pre(3) by metis+
  then have s3: "hstorage h3 = hstorage h" "hledger h3 = hledger h" using reads_only_store [OF lim(1)] pre(3) by metis+
  have "reads_only h3 h4" by (rule readsH_D [OF readsH_classic(7) m])
  then have s4: "hstorage h4 = hstorage h" using reads_only_store s3 pre(3) by metis
  obtain live where "map_of (smap (hstorage h)) k = Some (Some (entry, live))"
    using read_classic_entry_Inr [OF read(1) pre(1)] pre(2,3) s1 by auto
  moreover have "map_of (smap (hstorage h')) = (map_of (smap (hstorage h)))(k \<mapsto> Some (entry\<lparr>data_type :=
      entry_data_type (data_content entry), data_content := with_holding (x + n) (data_content entry)\<rparr>, None))"
    using put_balance_moved [OF p pre(1)] pre(2,3) s4 by metis
  ultimately show ?thesis using x lim(2) s3(2) unfolding balance_moved_def by metis
qed

lemma transfer_account_moved:
  assumes pre: "storage_keys (key_cmp (henv E)) g" "store_wf g (hstorage h)" "mode (hstorage h) = Enforcing"
    and clone: "\<And>ae. always (clone_account (henv E) ae) ae"
    and run: "transfer_account_balance E acc n h = (Inr (), h')"
  shows "balance_moved h (KAccount (p_account (henv E) acc)) n h'"
proof -
  let ?k = "KAccount (p_account (henv E) acc)"
  from run obtain h1 le h2 ae h3 ae' h4 mn mx h5 new where 1: "to_account_key (henv E) acc h = (Inr ?k, h1)"
    and 2: "read_classic_entry E AccountMissingError ?k h1 = (Inr le, h2)"
    and 3: "account_of_entry le h2 = (Inr ae, h3)" and 4: "onB (clone_account (henv E) ae) h3 = (Inr ae', h4)"
    and 5: "get_min_max_account_balance ae' h4 = (Inr (mn, mx), h5)" and new: "checked_i64 (acc_balance ae' + n) = Some new"
      "mn \<le> new" "new \<le> mx"
    and 6: "bindM (modify_ledger_entry_data le (AccountData (ae'\<lparr>acc_balance := new\<rparr>))) (\<lambda>le.
        onStore (storage_put (key_cmp (henv E)) ?k le None)) h5 = (Inr (), h')"
    unfolding transfer_account_balance_def read_account_entry_def to_account_key_def
    by (auto simp: bindM_Inr retM_Inr throwC_def throwM_def split: option.splits if_splits)
  have ae: "ae' = ae" using alwaysD [OF clone] 4 by (auto simp: onB_def zoomM_Inr)
  have d: "data_content le = AccountData ae" using 3 by (auto simp: account_of_entry_def throwC_def m_simps split: EntryData.splits)
  have r: "reads_only h h1" "reads_only h2 h3" "reads_only h3 h4" "reads_only h4 h5"
    using readsH_D [OF readsH_classic(6) 1] readsH_D [OF readsH_classic(3) 3] readsH_D [OF readsH_zooms(1) 4]
      readsH_D [OF readsH_classic(4) 5] by simp_all
  have "hledger h5 = hledger h4" using r(4) by (simp add: reads_only_def host_rel_def)
  then show ?thesis
    using balance_written [OF pre 2 r(1) reads_only_trans [OF reads_only_trans [OF r(2,3)] r(4)], of mn mx "acc_balance ae" n h']
      min_max_account_Inr [OF 5] new 6 d ae by (auto simp: sat_simps)
qed

lemma transfer_trustline_moved:
  assumes pre: "storage_keys (key_cmp (henv E)) g" "store_wf g (hstorage h)" "mode (hstorage h) = Enforcing"
    and clone: "\<And>t. always (clone_trustline (aenv E) t) t"
    and run: "transfer_trustline_balance E acc a n h = (Inr (), h')"
  shows "balance_moved h (KTrustline (p_trustline (aenv E) acc a)) n h'"
proof -
  let ?k = "KTrustline (p_trustline (aenv E) acc a)"
  from run obtain h1 le h2 t h3 t' h4 mn mx h5 new where 1: "to_trustline_key E acc a h = (Inr ?k, h1)"
    and 2: "read_classic_entry E TrustlineMissingError ?k h1 = (Inr le, h2)"
    and 3: "trustline_of_entry le h2 = (Inr t, h3)" and 4: "onB (clone_trustline (aenv E) t) h3 = (Inr t', h4)"
    and 5: "get_min_max_trustline_balance t' h4 = (Inr (mn, mx), h5)" and new: "checked_i64 (tl_balance t' + n) = Some new"
      "mn \<le> new" "new \<le> mx"
    and 6: "bindM (modify_ledger_entry_data le (TrustLineData (t'\<lparr>tl_balance := new\<rparr>))) (\<lambda>le.
        onStore (storage_put (key_cmp (henv E)) ?k le None)) h5 = (Inr (), h')"
    unfolding transfer_trustline_balance_def read_trustline_entry_def to_trustline_key_def
    by (auto simp: bindM_Inr retM_Inr throwC_def throwM_def split: option.splits if_splits)
  have t: "t' = t" using alwaysD [OF clone] 4 by (auto simp: onB_def zoomM_Inr)
  have d: "data_content le = TrustLineData t" using 3 by (auto simp: trustline_of_entry_def throwC_def m_simps split: EntryData.splits)
  have r: "reads_only h h1" "reads_only h2 h3" "reads_only h3 h4" "reads_only h4 h5"
    using readsH_D [OF readsH_classic(1) 1] readsH_D [OF readsH_classic(2) 3] readsH_D [OF readsH_zooms(1) 4]
      readsH_D [OF readsH_classic(5) 5] by simp_all
  show ?thesis
    using balance_written [OF pre 2 r(1) reads_only_trans [OF reads_only_trans [OF r(2,3)] r(4)], of mn mx "tl_balance t" n h']
      min_max_trustline_Inr [OF 5] new 6 d t by (auto simp: sat_simps)
qed

text \<open>
  C9: transfers are exact. When a change of an account's balance by an amount succeeds, the asset
  contract has read its asset, and unless the account is the issuer, which holds no balance and is
  left alone, exactly one ledger entry has changed: the account entry for the native asset, the
  trustline of the account otherwise. Its balance was not negative, the new balance is the old one plus the amount
  and within the reserve, limit and liabilities of the entry, and nothing else of the entry changed.
  (Cloning an entry gives the same entry.)
\<close>

theorem classic_transfer_exact:
  assumes "storage_keys (key_cmp (henv E)) g" and "store_wf g (hstorage h)" and "mode (hstorage h) = Enforcing"
    and "\<And>ae. always (clone_account (henv E) ae) ae" and "\<And>t. always (clone_trustline (aenv E) t) t"
    and run: "transfer_classic_balance E acc n h = (Inr (), h')"
  shows "\<exists>asset h1. read_asset E h = (Inr asset, h1) \<and>
    (if issuer_of asset = Some acc then hstorage h' = hstorage h else balance_moved h (holding_key E asset acc) n h')"
proof -
  from run obtain asset h1 where a: "read_asset E h = (Inr asset, h1)"
    and t: "(case asset of NativeAsset \<Rightarrow> transfer_account_balance E acc n
      | CreditAlphanum4 code issuer \<Rightarrow> bindM (onB (clone_sized 32 issuer)) (\<lambda>i.
          if i = acc then retM () else transfer_trustline_balance E acc (CreditAlphanum4 code issuer) n)
      | CreditAlphanum12 code issuer \<Rightarrow> bindM (onB (clone_sized 32 issuer)) (\<lambda>i.
          if i = acc then retM () else transfer_trustline_balance E acc (CreditAlphanum12 code issuer) n)) h1 = (Inr (), h')"
    unfolding transfer_classic_balance_def by_asset_def by (auto simp: bindM_Inr)
  have r1: "reads_only h h1" by (rule readsH_D [OF readsH_asset_info(3) a])
  note s1 = reads_only_store [OF r1 assms(3)]
  have credit: "if issuer = acc then hstorage h' = hstorage h
      else balance_moved h (KTrustline (p_trustline (aenv E) acc b)) n h'"
    if q: "bindM (onB (clone_sized 32 issuer)) (\<lambda>i. if i = acc then retM () else transfer_trustline_balance E acc b n) h1 = (Inr (), h')"
    for issuer b
  proof -
    from q obtain i h2 where c: "onB (clone_sized 32 issuer) h1 = (Inr i, h2)"
      and u: "(if i = acc then retM () else transfer_trustline_balance E acc b n) h2 = (Inr (), h')" by (auto simp: bindM_Inr)
    have i: "i = issuer" using c by (auto simp: onB_def zoomM_Inr clone_sized_def dest: metered_clone_id)
    have r2: "reads_only h h2" using readsH_D [OF readsH_zooms(1) c] reads_only_trans [OF r1] by blast
    note s2 = reads_only_store [OF r2 assms(3)]
    have "balance_moved h2 (KTrustline (p_trustline (aenv E) acc b)) n h'" if "issuer \<noteq> acc"
      by (rule transfer_trustline_moved [OF assms(1) _ _ assms(5)]) (use that u i s2 assms(2,3) in auto)
    then show ?thesis using u i s2 balance_moved_reads [OF r2 assms(3)] by (auto simp: retM_def)
  qed
  show ?thesis
  proof (cases asset)
    case NativeAsset
    have "balance_moved h1 (KAccount (p_account (henv E) acc)) n h'"
      by (rule transfer_account_moved [OF assms(1) _ _ assms(4)]) (use t NativeAsset s1 assms(2,3) in auto)
    then show ?thesis using a NativeAsset balance_moved_reads [OF r1 assms(3)] by auto
  next
    case (CreditAlphanum4 code issuer)
    then show ?thesis using credit [of issuer asset] t a by auto
  next
    case (CreditAlphanum12 code issuer)
    then show ?thesis using credit [of issuer asset] t a by auto
  qed
qed


theorem classic_transfer_exact_witness:
  "\<exists>h'. transfer_classic_balance (plain_frame (Trap (ContractErr 7))) 3 5 token_host = (Inr (), h') \<and>
    balance_moved token_host (KAccount 3) 5 h'"
proof -
  let ?E = "plain_frame (Trap (ContractErr 7))"
  obtain h' where run: "transfer_classic_balance ?E 3 5 token_host = (Inr (), h')" using token_transfer by blast
  have k: "storage_keys (key_cmp (henv ?E)) plain_rank" using plain.storage_keys_axioms by simp
  have c: "always (clone_account (henv ?E) ae) ae" "always (clone_trustline (aenv ?E) t) t" for ae t
    using plain_clone_account(2) by (auto simp: plain_asset_def always_def clone_sized_def dest!: metered_clone_id)
  obtain asset h1 where a: "read_asset ?E token_host = (Inr asset, h1)"
    "if issuer_of asset = Some 3 then hstorage h' = hstorage token_host else balance_moved token_host (holding_key ?E asset 3) 5 h'"
    using classic_transfer_exact [OF k token_store c run] by blast
  have "asset = NativeAsset"
  proof -
    obtain b' where "onHost (read_asset ?E) (calm_manager, token_host\<lparr>hbudget := hbudget token_host\<rparr>) =
        (Inr NativeAsset, (calm_manager, token_host\<lparr>hbudget := b'\<rparr>))"
      using runsE [OF token_asset [of "Trap (ContractErr 7)" calm_manager], of "hbudget token_host"] by (auto simp: token_facts(5))
    then show ?thesis using a(1) by (simp add: onHost_run)
  qed
  then show ?thesis using a(2) run by (auto simp: plain_env_def)
qed

end
