(* ===== verification/Auth_Agree.thy ===== *)
theory Auth_Agree
  imports Auth_Stable
begin

text \<open>
  The authorization manager with two hosts that differ in their authentication only, and there
  only outside a set \<open>S\<close> of states which the host never leaves: requiring authorization gives the
  same result with both.
\<close>

definition sameOn :: "('h \<Rightarrow> bool) \<Rightarrow> ('t \<times> 'h, 'r) hm \<Rightarrow> ('t \<times> 'h, 'r) hm \<Rightarrow> bool" where
  "sameOn S m m' \<longleftrightarrow> (\<forall>t h. S h \<longrightarrow> m (t, h) = m' (t, h))"

lemma sameOn_refl [simp]: "sameOn S m m"
  by (simp add: sameOn_def)

lemma sameOn_D: "sameOn S m m' \<Longrightarrow> S h \<Longrightarrow> m (t, h) = m' (t, h)"
  unfolding sameOn_def by blast

lemma sameOn_seq:
  assumes "sameOn S m m'" "\<And>t h x t' h'. S h \<Longrightarrow> m (t, h) = (Inr x, (t', h')) \<Longrightarrow> T h'" "\<And>x. sameOn T (f x) (f' x)"
  shows "sameOn S (bindM m f) (bindM m' f')"
  unfolding sameOn_def
proof (intro allI impI)
  fix t h
  assume S: "S h"
  obtain r t1 h1 where m: "m (t, h) = (r, (t1, h1))" by (cases "m (t, h)") auto
  have m': "m' (t, h) = (r, (t1, h1))" using sameOn_D [OF assms(1) S] m by metis
  show "bindM m f (t, h) = bindM m' f' (t, h)"
    using assms(2) [OF S] assms(3) m m' by (cases r) (auto simp: bindM_def sameOn_def)
qed

lemma sameOn_bind:
  assumes "sameOn S m m'" "relM (\<lambda>s s'. S (snd s) \<longrightarrow> S (snd s')) m" "\<And>x. sameOn S (f x) (f' x)"
  shows "sameOn S (bindM m f) (bindM m' f')"
proof (rule sameOn_seq [OF assms(1) _ assms(3)])
  fix t h x t' h'
  assume "S h" "m (t, h) = (Inr x, (t', h'))"
  then show "S h'" using assms(2) unfolding relM_def by (metis snd_conv)
qed

lemma sameOn_then: "sameOn S m m' \<Longrightarrow> sameOn S (bindM m f) (bindM m' f)"
  by (auto simp: sameOn_def bindM_def)

lemma sameOn_get: "(\<And>x. sameOn (\<lambda>h. S h \<and> g h = x) (f x) (f' x)) \<Longrightarrow> sameOn S (bindM (onHost (getM g)) f) (bindM (onHost (getM g)) f')"
  by (auto simp: sameOn_def bindM_def onHost_run getM_def)

lemma sameOn_weaken: "sameOn T m m' \<Longrightarrow> (\<And>h. S h \<Longrightarrow> T h) \<Longrightarrow> sameOn S m m'"
  by (simp add: sameOn_def)

lemma sameOn_if: "(c \<Longrightarrow> sameOn S m m') \<Longrightarrow> (\<not> c \<Longrightarrow> sameOn S n n') \<Longrightarrow> sameOn S (if c then m else n) (if c then m' else n')"
  by simp

locale twin_hosts = stable_host R H for R :: "'h \<Rightarrow> 'h \<Rightarrow> bool" and H :: "('h, 'a, 'v, 'c) auth_host" +
  fixes S :: "'h \<Rightarrow> bool"
    and c' :: "'a \<Rightarrow> (int \<times> u32) option \<Rightarrow> 'v \<Rightarrow> ('a, 'v, 'c) auth_tree \<Rightarrow> (('a, 'v, 'c) AuthorizationManager \<times> 'h, unit) hm"
  assumes stays: "R h h' \<Longrightarrow> S h \<Longrightarrow> S h'"
    and authentication: "relM (on_rest R) (check_auth H a n sig root)"
    and agrees: "sameOn S (check_auth H a n sig root) (c' a n sig root)"
begin

abbreviation twin :: "('h, 'a, 'v, 'c) auth_host" where
  "twin \<equiv> H\<lparr>check_auth := c'\<rparr>"

lemma twin_fields:
  "cmp_address twin = cmp_address H" "cmp_symbol twin = cmp_symbol H" "cmp_args twin = cmp_args H" "cmp_create twin = cmp_create H"
  "init_cpy twin = init_cpy H" "clone_symbol twin = clone_symbol H" "clone_create twin = clone_create H"
  "address_handle twin = address_handle H" "source_account_address twin = source_account_address H"
  "ledger_of twin = ledger_of H" "nonce_prng twin = nonce_prng H" "consume_nonce twin = consume_nonce H"
  by simp_all

lemma twin_compare: "compare_authorized_function twin = compare_authorized_function H"
proof (intro ext)
  fix f g s
  show "compare_authorized_function twin f g s = compare_authorized_function H f g s"
    by (cases "(H, f, g)" rule: compare_authorized_function.cases)
      (simp_all add: compare_contract_function_def cong: if_cong)
qed

lemma twin_function: "to_authorized_function twin = to_authorized_function H"
  by (intro ext, case_tac x) simp_all

lemma twin_active: "has_active_tracker twin address cs = has_active_tracker H address cs"
proof (induction cs)
  case (Cons c cs)
  then show ?case by (cases c) (simp_all cong: if_cong)
qed simp

lemma twin_invoker_loop: "invoker_loop twin address function ts = invoker_loop H address function ts"
  by (induction ts)
    (simp_all add: fun_eq_iff invoker_maybe_authorize_invocation_def twin_compare cong: prod.case_cong sum.case_cong if_cong bool.case_cong)

lemma twin_check_invoker: "maybe_check_invoker_contract_auth twin address function = maybe_check_invoker_contract_auth H address function"
  unfolding maybe_check_invoker_contract_auth_def twin_invoker_loop twin_fields ..

lemma twin_record_loop: "record_loop twin address function js = record_loop H address function js"
proof (induction js)
  case (Cons i js)
  show ?case unfolding record_loop.simps Cons twin_fields ..
qed simp

lemma twin_recording:
  "require_auth_recording twin void address function handles disable = require_auth_recording H void address function handles disable"
  unfolding require_auth_recording_def account_new_recording_def twin_record_loop twin_fields ..

lemma keeps_S: "relM (on_rest R) m \<Longrightarrow> relM (\<lambda>s s'. S (snd s) \<longrightarrow> S (snd s')) m"
  using stays unfolding relM_def by blast

lemma twin_authenticate: "sameOn S (mapErrM g (authenticate H t)) (mapErrM g (authenticate twin t))"
  using agrees by (simp add: sameOn_def mapErrM_def authenticate_def)

lemma twin_authorize:
  "sameOn (S \<circ> snd) (account_maybe_authorize_invocation H function allow) (account_maybe_authorize_invocation twin function allow)"
proof -
  have k: "relM (on_rest (on_rest R)) m \<Longrightarrow> relM (\<lambda>s s'. (S \<circ> snd) (snd s) \<longrightarrow> (S \<circ> snd) (snd s')) m"
    for m :: "('t \<times> 'u \<times> 'h, 'r) hm"
    using stays unfolding relM_def comp_def by blast
  have z: "relM (on_rest (on_rest R)) (zoomM (\<lambda>(t, a, h). (acc_tracker t, h)) (\<lambda>(tr, h') (t, a, h). (t\<lparr>acc_tracker := tr\<rparr>, a, h'))
      (maybe_extend_invocation_match (compare_authorized_function H) function allow))"
  proof -
    have "relM (on_rest R) (maybe_extend_invocation_match (compare_authorized_function H) function allow)"
      by (rule stable_extend) (rule stable_compare)
    then show ?thesis by (auto simp: relM_def zoomM_def split: prod.splits) (metis snd_conv)
  qed
  have l: "sameOn S m m' \<Longrightarrow> sameOn (S \<circ> snd) (onHost m) (onHost m')" for m m' :: "('u \<times> 'h, 'r) hm"
    by (auto simp: sameOn_def onHost_def zoomM_def)
  have a: "relM (on_rest R) (mapErrM g (authenticate H t))" for g t
    using authentication by (auto simp: relM_def mapErrM_def authenticate_def retM_def split: prod.splits sum.splits) (metis snd_conv)+
  have la: "relM (on_rest (on_rest R)) (onHost (mapErrM g (authenticate H t)) ::
      (('a, 'v, 'c) AccountAuthorizationTracker \<times> ('a, 'v, 'c) AuthorizationManager \<times> 'h, unit) hm)" for g t
    using a by (auto simp: relM_def onHost_def zoomM_def split: prod.splits) (metis snd_conv)
  have v: "verify_and_consume_nonce twin t = verify_and_consume_nonce H t" for t
    unfolding verify_and_consume_nonce_def twin_fields ..
  show ?thesis
    unfolding account_maybe_authorize_invocation_def twin_compare v
    by (rule sameOn_bind [OF sameOn_refl k [OF z]])
      (rule sameOn_if, simp, rule sameOn_bind [OF sameOn_refl], simp add: relM_def getM_def, rule sameOn_if, simp,
        rule sameOn_bind [OF l [OF twin_authenticate] k [OF la] sameOn_refl])
qed

lemma twin_enforce: "sameOn S (enforce_loop H address function allow js) (enforce_loop twin address function allow js)"
proof (induction js)
  case (Cons i js)
  have b: "sameOn S (borrow_mut i (account_maybe_authorize_invocation H function allow) t)
      (borrow_mut i (account_maybe_authorize_invocation twin function allow) t)" for t
    using twin_authorize by (simp add: sameOn_def borrow_mut_def)
  have r: "relM (on_rest R) (borrow_mut i (account_maybe_authorize_invocation H function allow) t)" for t
    using stable_authorize [OF authentication]
    by (auto simp: relM_def borrow_mut_def split: prod.splits) (metis snd_conv)
  show ?case unfolding enforce_loop.simps
  proof (rule sameOn_bind)
    fix c
    show "sameOn S (case c of Free t \<Rightarrow> bindM (onHost (cmp_address H (acc_address t) address)) (\<lambda>ord.
           if ord \<noteq> Equal then enforce_loop H address function allow js
           else bindM (borrow_mut i (account_maybe_authorize_invocation H function allow) t) (\<lambda>b.
             if b then retM () else enforce_loop H address function allow js)) | Borrowed \<Rightarrow> enforce_loop H address function allow js)
      (case c of Free t \<Rightarrow> bindM (onHost (cmp_address twin (acc_address t) address)) (\<lambda>ord.
           if ord \<noteq> Equal then enforce_loop twin address function allow js
           else bindM (borrow_mut i (account_maybe_authorize_invocation twin function allow) t) (\<lambda>b.
             if b then retM () else enforce_loop twin address function allow js)) | Borrowed \<Rightarrow> enforce_loop twin address function allow js)"
      by (auto intro!: sameOn_bind keeps_S stable_onHost b r Cons simp: compares split: cell.split)
  qed (auto simp: relM_def getM_def)
qed simp

lemma twin_require: "sameOn S (require_auth H void address args) (require_auth twin void address args)"
proof -
  have e: "sameOn S (require_auth_enforcing H address fn) (require_auth_enforcing twin address fn)" for fn
    unfolding require_auth_enforcing_def twin_active
    by (auto intro!: sameOn_bind keeps_S stable_onHost stable_active twin_enforce simp: relM_def getM_def)
  show ?thesis unfolding require_auth_def require_auth_internal_def twin_function twin_check_invoker twin_recording
    by (auto intro!: sameOn_bind sameOn_if keeps_S stable_onHost stable_function stable_check_invoker e
        simp: relM_def getM_def split: AuthorizationMode.split)
qed

end

end
