(* ===== verification/Call_Nesting.thy ===== *)
theory Call_Nesting
  imports Frame_Stack Auth_Agree Frame_Instance
begin

text \<open>
  How deep calls nest, and which contracts may be active at a time (\<^verbatim>\<open>host/frame.rs\<close>).

  The locale \<open>nesting\<close> compares two runners of contract code that agree on the context stacks
  in a set \<open>Q\<close>: whatever a contract does from a stack in \<open>P\<close>, it gives the same result with both, when
  every frame the host lets in leads from \<open>P\<close> into \<open>Q\<close>. Two instances give the theorems: the nesting
  index of \<open>run_at\<close> makes no difference from a hundred on, and a runner that behaves arbitrarily on
  a stack that is too deep or re-entered makes no difference either, so it is never run there.
\<close>

section \<open>Operations on a set of stacks\<close>

abbreviation frames :: "('p, 'x, 'z) HostState \<Rightarrow> 'x Frame list" where
  "frames h \<equiv> map frame (context_stack h)"

abbreviation alike :: "('x Frame list \<Rightarrow> bool) \<Rightarrow> ('p, 'x, 'z, 'r) txM \<Rightarrow> ('p, 'x, 'z, 'r) txM \<Rightarrow> bool" where
  "alike P \<equiv> sameOn (\<lambda>h. P (frames h))"

lemma alike_bind [intro!]:
  assumes "alike P m m'" "calm m" "\<And>x. alike P (f x) (f' x)"
  shows "alike P (bindM m f) (bindM m' f')"
proof (rule sameOn_bind [OF assms(1) _ assms(3)])
  show "relM (\<lambda>s s'. P (frames (snd s)) \<longrightarrow> P (frames (snd s'))) m"
    using assms(2) unfolding relM_def host_rel_def by metis
qed

definition stack_ids :: "'x Frame list \<Rightarrow> u256 list" where
  "stack_ids fs = List.map_filter frame_contract_id (rev fs)"

lemma caller_ids_frames: "caller_ids cs = stack_ids (map frame cs)"
  by (simp add: caller_ids_def stack_ids_def rev_map map_filter_def filter_map comp_def)

lemma alike_try: "alike P m m' \<Longrightarrow> alike P (tryM m) (tryM m')"
  by (simp add: sameOn_def tryM_def)

lemma alike_frame:
  fixes E :: "('p, 'x, 'z, 'el, 'sg, 'bo) frame_env"
  assumes enter: "\<And>fs. P fs \<Longrightarrow> (of_nat (length fs) :: u32) < DEFAULT_HOST_DEPTH_LIMIT \<Longrightarrow> Q (fs @ [fr])" and "alike Q f f'"
  shows "alike P (with_frame E (base_host E) fr f) (with_frame E (base_host E) fr f')"
proof -
  let ?push = "push_context (base_host E) \<lparr>frame = fr, ctx_storage = None\<rparr>"
  have "sameOn (\<lambda>h. P (frames h) \<and> length (context_stack h) = d)
      (bindM ?push (\<lambda>rp. bindM (tryM f) (G rp))) (bindM ?push (\<lambda>rp. bindM (tryM f') (G rp)))"
    if lim: "\<not> DEFAULT_HOST_DEPTH_LIMIT \<le> (of_nat d :: u32)" for d and G :: "('p, 'x) RollbackPoint \<Rightarrow> Error + Val \<Rightarrow> ('p, 'x, 'z, Val) txM"
  proof (rule sameOn_seq [OF sameOn_refl, where T = "\<lambda>h. Q (frames h)"])
    fix am h rp am' h'
    assume S: "P (frames h) \<and> length (context_stack h) = d" and "?push (am, h) = (Inr rp, (am', h'))"
    from this(2) have "frames h' = frames h @ [fr]" by (cases rule: push_context_cases) simp_all
    then show "Q (frames h')" using enter [of "frames h"] S lim by simp
  qed (intro sameOn_then alike_try assms(2))
  then show ?thesis unfolding with_frame_def by (intro sameOn_get sameOn_if) simp_all
qed

lemma alike_clone:
  fixes f f' :: "'i \<Rightarrow> ('p, 'x, 'z, 'r) txM"
  assumes "alike P (f i) (f' i)"
  shows "alike P (bindM (onMeter (clone_sized n i)) f) (bindM (onMeter (clone_sized n i)) f')"
  unfolding sameOn_def
proof (intro allI impI)
  fix am :: manager and h :: "('p, 'x, 'z) HostState"
  assume S: "P (frames h)"
  obtain r b where c: "clone_sized n i (hbudget h) = (r, b)" by (cases "clone_sized n i (hbudget h)")
  have "r = Inr x \<Longrightarrow> x = i" for x using c by (auto simp: clone_sized_def dest: metered_clone_id)
  then show "bindM (onMeter (clone_sized n i)) f (am, h) = bindM (onMeter (clone_sized n i)) f' (am, h)"
    using c assms S by (cases r) (auto simp: bindM_def onHost_run onB_def zoomM_def sameOn_def)
qed

section \<open>Two runners\<close>

locale nesting =
  fixes P Q :: "'x Frame list \<Rightarrow> bool" and run run' :: "('p, 'x, 'z) runner"
  assumes run_calm: "calm_runner run"
    and agree: "alike Q (run code func args) (run' code func args)"
    and enter: "P fs \<Longrightarrow> (of_nat (length fs) :: u32) < DEFAULT_HOST_DEPTH_LIMIT \<Longrightarrow> frame_contract_id fr = Some i \<Longrightarrow>
      md \<noteq> Allowed \<Longrightarrow> reentry_allowed md (position i (stack_ids fs)) \<Longrightarrow> Q (fs @ [fr])"
    and enter_host: "P fs \<Longrightarrow> (of_nat (length fs) :: u32) < DEFAULT_HOST_DEPTH_LIMIT \<Longrightarrow> P (fs @ [HostFunctionFrame ty])"
begin

lemma alike_contract:
  assumes "md \<noteq> Allowed"
  shows "alike (\<lambda>fs. P fs \<and> reentry_allowed md (position i (stack_ids fs)))
    (call_contract_fn E run i func args) (call_contract_fn E run' i func args)"
proof -
  have f: "frame_contract_id fr = Some i \<Longrightarrow> alike (\<lambda>fs. P fs \<and> reentry_allowed md (position i (stack_ids fs)))
      (with_frame E (base_host E) fr (run code func args)) (with_frame E (base_host E) fr (run' code func args))" for fr code
    by (rule alike_frame [OF _ agree]) (use enter assms in blast)
  show ?thesis unfolding call_contract_fn_def
    by (auto intro!: f alike_clone calmH_keys calmH_instances split: ContractExecutable.split)
qed

lemma alike_call:
  assumes "md \<noteq> Allowed"
  shows "alike P (call_n_internal E run i func args md internal) (call_n_internal E run' i func args md internal)"
proof -
  have c: "alike P (bindM (onHost (getM context_stack)) (\<lambda>cs. thenM (if reentry_allowed md (position i (caller_ids cs))
        then retM () else throwM (Err Context InvalidAction)) (call_contract_fn E run i func args)))
      (bindM (onHost (getM context_stack)) (\<lambda>cs. thenM (if reentry_allowed md (position i (caller_ids cs))
        then retM () else throwM (Err Context InvalidAction)) (call_contract_fn E run' i func args)))"
    by (rule sameOn_get) (auto simp: caller_ids_frames bindM_def throwM_def retM_def sameOn_def
        intro!: sameOn_D [OF alike_contract [OF assms]])
  show ?thesis unfolding call_n_internal_def using assms c
    by (auto simp: bindM_assoc)
qed

lemma alike_authenticate: "alike P (authenticate_address E run a n sig root) (authenticate_address E run' a n sig root)"
  unfolding authenticate_address_def check_account_contract_auth_def
  by (auto intro!: alike_call calm_call run_calm [rule_format] split: ScAddress.split)

lemma alike_require: "alike P (require_auth (frame_host E run) void address args) (require_auth (frame_host E run') void address args)"
proof -
  have "twin_hosts host_rel (frame_host E run) (\<lambda>h. P (frames h)) (authenticate_address E run')"
    using run_calm alike_authenticate
    by unfold_locales (auto simp: frame_host_def base_host_def calmH_nonce calm_authenticate, simp add: host_rel_def)
  from twin_hosts.twin_require [OF this] show ?thesis by (simp add: frame_host_def)
qed

lemma alike_create: "alike P (create_contract_internal E run deployer args) (create_contract_internal E run' deployer args)"
  unfolding create_contract_internal_def create_contract_with_optional_auth_def
    maybe_initialize_stellar_asset_contract_def
  by (auto intro!: alike_try alike_require alike_call calm_require calm_call run_calm [rule_format] calmH_deploy
      frame_base.stable_push split: calm_cases ContractIdPreimage.split)

lemma alike_host_fn: "alike P (host_fn E run c) (host_fn E run' c)"
  by (cases c) (auto simp: require_auth_fn_def with_current_frame_def
      require_auth_for_args_def call_fn_def try_call_fn_def create_contract_def
      create_asset_contract_def intro!: calmH_deploy alike_try alike_create alike_require alike_call
      calm_require calm_call calm_create run_calm [rule_format] split: calm_cases)

lemma alike_exec: "alike P (exec E run g) (exec E run' g)"
  by (induction g) (auto intro!: alike_host_fn calm_host_fn run_calm [rule_format])

lemma alike_authorized_step: "calmH m \<Longrightarrow> alike P (authorized_step E run m f) (authorized_step E run' m f)"
  unfolding authorized_step_def require_auth_fn_def with_current_frame_def
  by (auto simp del: getM_bind intro!: alike_require calm_require run_calm [rule_format] split: calm_cases)

lemma alike_body: "alike P (contract_body E run code func args) (contract_body E run' code func args)"
proof -
  have "alike P (asset_function E run op) (asset_function E run' op)" for op
    by (cases op) (auto simp: approve_def transfer_def transfer_from_def burn_def burn_from_def clawback_def
        set_authorized_def mint_def set_admin_def event_burn_def event_clawback_def event_mint_def
        intro!: alike_authorized_step calm_authorized_step run_calm [rule_format]
        calmH_checks calmH_allowances calmH_balances calmH_asset_events calmH_move calmH_asset_info)
  then show ?thesis
    unfolding contract_body_def asset_call_def by (auto intro!: alike_exec calmH_op_of_call split: option.split)
qed

lemma alike_invoke: "alike P (invoke_function_and_return_val E run hf) (invoke_function_and_return_val E run' hf)"
  unfolding invoke_function_and_return_val_def
  by (auto intro!: alike_frame [where Q = P] enter_host alike_call alike_create split: HostFunction.split calm_cases ContractIdPreimage.split)

end

section \<open>Depth\<close>

lemma depth_of_nat: "length fs \<le> 100 \<Longrightarrow> (of_nat (length fs) :: u32) < DEFAULT_HOST_DEPTH_LIMIT \<Longrightarrow> length fs < 100"
proof -
  assume "length fs \<le> 100" "(of_nat (length fs) :: u32) < DEFAULT_HOST_DEPTH_LIMIT"
  then show "length fs < 100"
    by (cases "length fs = 100") (simp_all add: DEFAULT_HOST_DEPTH_LIMIT_def)
qed

text \<open>The nesting index is large enough for the stack.\<close>

definition deep :: "nat \<Rightarrow> nat \<Rightarrow> nat \<Rightarrow> 'x Frame list \<Rightarrow> bool" where
  "deep c n m fs \<longleftrightarrow> length fs \<le> 100 \<and> c \<le> n + length fs \<and> c \<le> m + length fs"

lemma run_at_deep: "alike (deep 101 n m) (run_at E n code func args) (run_at E m code func args)"
proof (induction n arbitrary: m code func args)
  case (Suc n)
  show ?case
  proof (cases m)
    case (Suc k)
    have "nesting (deep 100 n k) (deep 101 n k) (run_at E n) (run_at E k)"
      by unfold_locales (rule calm_run_at, rule Suc.IH, auto simp: deep_def dest: depth_of_nat)
    from nesting.alike_body [OF this] show ?thesis
      unfolding Suc run_at.simps by (rule sameOn_weaken) (simp add: deep_def)
  qed (auto simp: sameOn_def deep_def)
qed (auto simp: sameOn_def deep_def)

interpretation deep: nesting "deep 100 n m" "deep 101 n m" "run_at E n" "run_at E m"
  for E :: "('p, 'x, 'z, 'el, 'sg, 'bo) frame_env" and n m
  by unfold_locales (rule calm_run_at, rule run_at_deep, auto simp: deep_def dest: depth_of_nat)

section \<open>Re-entry\<close>

text \<open>
  A stack without re-entry: no contract is below another one that is below it. Frames of one
  contract may only lie directly on each other.
\<close>

definition well_nested :: "'x Frame list \<Rightarrow> bool" where
  "well_nested fs \<longleftrightarrow> length fs \<le> 100 \<and> distinct (remdups_adj (stack_ids fs))"

lemma position_None: "position x ys = None \<longleftrightarrow> x \<notin> set ys"
  by (induction ys) auto

lemma position_0: "position x ys = Some 0 \<longleftrightarrow> (\<exists>zs. ys = x # zs)"
  by (cases ys) auto

lemma well_nested_enter:
  assumes "well_nested fs" "length fs < 100" "frame_contract_id fr = Some i" "md \<noteq> Allowed"
    and "reentry_allowed md (position i (stack_ids fs))"
  shows "well_nested (fs @ [fr])"
proof -
  have ids: "stack_ids (fs @ [fr]) = i # stack_ids fs" using assms(3) by (simp add: stack_ids_def map_filter_simps)
  have "position i (stack_ids fs) = None \<or> position i (stack_ids fs) = Some 0"
    using assms(4,5) by (cases "(md, position i (stack_ids fs))" rule: reentry_allowed.cases) auto
  then have "i \<notin> set (stack_ids fs) \<or> (\<exists>zs. stack_ids fs = i # zs)" by (simp add: position_None position_0)
  then have "distinct (remdups_adj (i # stack_ids fs))"
    using assms(1) by (cases "stack_ids fs") (auto simp: well_nested_def)
  then show ?thesis using assms(2) ids by (simp add: well_nested_def)
qed

text \<open>Contract code that is run normally on such stacks and arbitrarily on others.\<close>

definition guarded :: "('p, 'x, 'z) runner \<Rightarrow> ('p, 'x, 'z) runner \<Rightarrow> ('p, 'x, 'z) runner" where
  "guarded other run = (\<lambda>code func args (am, h).
     if well_nested (frames h) then run code func args (am, h) else other code func args (am, h))"

primrec guarded_run_at :: "('p, 'x, 'z, 'el, 'sg, 'bo) frame_env \<Rightarrow> ('p, 'x, 'z) runner \<Rightarrow> nat \<Rightarrow> ('p, 'x, 'z) runner" where
  "guarded_run_at E other 0 = guarded other (run_at E 0)"
| "guarded_run_at E other (Suc n) = guarded other (contract_body E (guarded_run_at E other n))"

lemma guarded_alike: "alike well_nested (run code func args) (run' code func args) \<Longrightarrow>
    alike well_nested (run code func args) (guarded other run' code func args)"
  by (auto simp: sameOn_def guarded_def)

lemma well_nested_step: "well_nested fs \<Longrightarrow> (of_nat (length fs) :: u32) < DEFAULT_HOST_DEPTH_LIMIT \<Longrightarrow>
    frame_contract_id fr = Some i \<Longrightarrow> md \<noteq> Allowed \<Longrightarrow> reentry_allowed md (position i (stack_ids fs)) \<Longrightarrow> well_nested (fs @ [fr])"
  by (rule well_nested_enter) (auto simp: well_nested_def dest: depth_of_nat)

lemma well_nested_host: "well_nested fs \<Longrightarrow> (of_nat (length fs) :: u32) < DEFAULT_HOST_DEPTH_LIMIT \<Longrightarrow>
    well_nested (fs @ [HostFunctionFrame ty])"
  using depth_of_nat [of fs] by (simp add: well_nested_def stack_ids_def map_filter_simps)

lemma run_at_guarded: "alike well_nested (run_at E n code func args) (guarded_run_at E other n code func args)"
proof (induction n arbitrary: code func args)
  case 0
  show ?case unfolding guarded_run_at.simps by (rule guarded_alike) simp
next
  case (Suc n)
  have "nesting well_nested well_nested (run_at E n) (guarded_run_at E other n)"
    by unfold_locales (use Suc.IH calm_run_at well_nested_step well_nested_host in blast)+
  from nesting.alike_body [OF this] show ?case
    unfolding guarded_run_at.simps run_at.simps by (rule guarded_alike)
qed

interpretation guarded: nesting well_nested well_nested "run_at E n" "guarded_run_at E other n"
  for E :: "('p, 'x, 'z, 'el, 'sg, 'bo) frame_env" and other n
  by unfold_locales (use run_at_guarded calm_run_at well_nested_step well_nested_host in blast)+

section \<open>The guarantees\<close>

text \<open>
  C10: the recursion of contract calls is closed by the depth limit. On any stack that contract
  code can run on, running a contract function with a nesting index of a hundred or more is the
  same as with a hundred, and is running the function's program with every call it makes served
  the same way: no call is ever cut off by the index, and every call returns.
\<close>

theorem call_nesting_closed:
  assumes "0 < length (context_stack h)" and "length (context_stack h) \<le> 100" and "100 \<le> n"
  shows "run_at E n code func args (am, h) = run_at E 100 code func args (am, h) \<and>
    run_at E 100 code func args (am, h) = contract_body E (run_at E 100) code func args (am, h)"
proof -
  have eq: "run_at E k code func args (am, h) = run_at E 100 code func args (am, h)" if "100 \<le> k" for k
    using sameOn_D [OF run_at_deep [of k 100 E code func args], of h am] assms that by (simp add: deep_def)
  moreover have "run_at E (Suc 100) code func args (am, h) = contract_body E (run_at E 100) code func args (am, h)"
    by (simp only: run_at.simps)
  ultimately show ?thesis using assms(3) by (metis le_SucI order_refl)
qed

theorem call_nesting_closed_witness:
  "run_at (plain_frame (Trap (ContractErr 7))) 100 (Some [1]) 0 [] (calm_manager, callee_host) =
     (Inl (ContractErr 7), (calm_manager, callee_host))"
  using call_nesting_closed [of callee_host 100 "plain_frame (Trap (ContractErr 7))" "Some [1]" 0 "[]" calm_manager]
  by (simp add: callee_host_def calling_host_def plain_host_def contract_body_def plain_frame_def throwM_def del: run_at.simps)

text \<open>
  C7: contracts are not re-entered. Every function of a contract that a transaction runs starts on
  a context stack of at most a hundred frames in which the frames of one contract lie directly on
  each other: no contract is called again while another one that it called is still running. Stated
  as: replacing what runs on any other stack by something arbitrary (\<open>other\<close>), at every nesting level,
  does not change the result of the transaction.
\<close>

theorem contracts_not_reentered:
  assumes "well_nested (frames h)"
  shows "invoke_function_and_return_val E (guarded_run_at E other n) hf (am, h) =
    invoke_function_and_return_val E (run_at E n) hf (am, h)"
  by (rule sym, rule sameOn_D [OF guarded.alike_invoke]) (rule assms)

theorem contracts_not_reentered_witness:
  "invoke_function_and_return_val (plain_frame (Trap (ContractErr 7)))
      (guarded_run_at (plain_frame (Trap (ContractErr 7))) (\<lambda>_ _ _. retM 0) 100)
      (InvokeContractFn (ContractAddr 9) 0 []) (calm_manager, calling_host) =
    invoke_function_and_return_val (plain_frame (Trap (ContractErr 7))) (run_at (plain_frame (Trap (ContractErr 7))) 100)
      (InvokeContractFn (ContractAddr 9) 0 []) (calm_manager, calling_host)"
  by (rule contracts_not_reentered)
    (simp add: well_nested_def calling_host_def plain_host_def stack_ids_def map_filter_simps)

end
