(* ===== verification/Spec2Isabelle.thy ===== *)
theory Spec2Isabelle
  imports Fees Metered_Vector Symbol_Repr Asset_Safety Call_Nesting
begin

text \<open>
  A verification development for the Soroban contract environment: the host that runs smart
  contracts on a ledger (\<^verbatim>\<open>soroban-env-host\<close>), and the value types it shares with contracts
  (\<^verbatim>\<open>soroban-env-common\<close>). File names below are relative to \<^verbatim>\<open>src/soroban-env-host/src\<close>
  unless they say otherwise.

  \<^bold>\<open>The program.\<close> A transaction invokes a host function. The host pushes a frame on its context
  stack, runs the contract, and the contract calls back into the host: to read and write ledger
  entries, to ask whether an address authorized the call, to call or deploy other contracts, to
  record events. Everything is paid for from a budget. A frame that fails is rolled back: storage,
  authorization and events are those of the moment it was entered, and the caller may go on.

  \<^bold>\<open>State.\<close> A fallible operation on a state is a function \<open>'s \<Rightarrow> (Error + 'a) \<times> 's\<close> (theory
  \<open>Prelude\<close>), so the state after an error is visible. States nest as the components call each other:
  the budget; the budget with the store; the host (\<open>HostState\<close>: budget, store, contexts, ledger
  parameters, events); the host with the authorization manager. Lifting an operation into the next
  state is a definition (\<open>onBudget\<close>, \<open>onStore\<close>, \<open>onHost\<close>).

  \<^bold>\<open>Theories and sources.\<close>
  \<^item> \<open>Prelude\<close>: machine integers with the saturating and checked operations of Rust, errors, the
    error-and-state monad, comparison results. Shared lemmas and the collections of simplification
    rules.
  \<^item> \<open>Val_Repr\<close>, \<open>Symbol_Repr\<close>: the tagged 64-bit \<open>Val\<close>, small numbers, handles, error values and
    small symbols (\<^verbatim>\<open>soroban-env-common/src\<close>: \<^verbatim>\<open>val.rs\<close>, \<^verbatim>\<open>num.rs\<close>, \<^verbatim>\<open>object.rs\<close>, \<^verbatim>\<open>error.rs\<close>,
    \<^verbatim>\<open>symbol.rs\<close>). Round trips, and that \<open>is_good\<close> accepts exactly what the constructors build.
  \<^item> \<open>Budget_Meter\<close> (\<^verbatim>\<open>budget.rs\<close>, \<^verbatim>\<open>budget/\<close>): cost models, dimensions, charging, shadow mode, VM
    fuel, depth limits. Every other theory charges through it.
  \<^item> \<open>Metered_Clone\<close>, \<open>Metered_Map\<close>, \<open>Metered_Vector\<close> (\<^verbatim>\<open>host/metered_clone.rs\<close>,
    \<^verbatim>\<open>host/metered_map.rs\<close>, \<^verbatim>\<open>host/metered_vector.rs\<close>): the containers of the host, which refine
    finite maps and lists. The contracts they need are the locales \<open>key_order\<close> and
    \<open>metered_elements\<close>.
  \<^item> \<open>Ledger_Key\<close>, \<open>Host_Storage\<close> (\<^verbatim>\<open>storage.rs\<close>, \<^verbatim>\<open>host/comparison.rs\<close>,
    \<^verbatim>\<open>host/ledger_info_helper.rs\<close>): ledger keys interpret the contract of the ordered map, and
    storage is built on it: footprints, recording and enforcing mode, lifetimes.
  \<^item> \<open>Host_Events\<close>, \<open>Host_Data\<close> (\<^verbatim>\<open>events/\<close>, \<^verbatim>\<open>host/data_helper.rs\<close>, parts of \<^verbatim>\<open>host/frame.rs\<close>
    and \<^verbatim>\<open>host.rs\<close>): the event buffer, the context stack, contract data, instances, code and
    nonces.
  \<^item> \<open>Auth_Tree\<close>, \<open>Auth_Manager\<close>, \<open>Auth_Frames\<close> (\<^verbatim>\<open>auth.rs\<close>): authorized invocation trees and
    their matching, trackers, the manager in enforcing and recording mode, its frames and rollback.
    \<open>Auth_Mode\<close>, \<open>Auth_Stable\<close> and \<open>Auth_Agree\<close> hold the invariants of the manager that calls
    need: the mode never changes, no authorization is added, and two hosts that answer the manager
    alike are treated alike.
  \<^item> \<open>Account_Auth\<close> (\<^verbatim>\<open>builtin_contracts/account_contract.rs\<close>): signatures and signer weights of
    classic accounts.
  \<^item> \<open>Host_Frame\<close> (\<^verbatim>\<open>host/frame.rs\<close>, \<^verbatim>\<open>host/lifecycle.rs\<close>, \<^verbatim>\<open>host.rs\<close>): frames, calls, try-calls,
    authorization of calls, deployment and update of contracts.
  \<^item> \<open>Asset_Types\<close>, \<open>Asset_Balance\<close>, \<open>Asset_Contract\<close>
    (\<^verbatim>\<open>builtin_contracts/stellar_asset_contract/\<close>): the built-in token contract, with its metadata,
    classic and contract balances, allowances, events and administration, and the dispatch of its
    functions by name (\<^verbatim>\<open>src/soroban-builtin-sdk-macros/src/derive_fn.rs\<close>).
  \<^item> \<open>Host_Run\<close>: the functions a contract can call, contract code as programs over them, the asset
    contract, and the host functions a transaction invokes. \<open>run_at\<close> closes the recursion.
  \<^item> \<open>Frame_Stack\<close>, \<open>Call_Safety\<close>, \<open>Call_Nesting\<close> and \<open>Asset_Safety\<close> hold what this composition
    guarantees, \<open>Frame_Instance\<close> and \<open>Asset_Instance\<close> a concrete environment on which the theorems are
    applied.
  \<^item> \<open>Fees\<close> (\<^verbatim>\<open>fees.rs\<close>): resource fees, the write fee and rent.

  \<^bold>\<open>What the theorems show.\<close> Authorization: a successful check uses up an authorization that was
  given, contract code cannot add one, rollback restores the manager unless entries a contract
  supplied still wait for their call, nonces are consumed once, accepted signatures reach the
  threshold. Isolation: enforcing mode never leaves the footprint, a
  recorded footprint is enough to run again, a contract's storage calls touch its own data only, a
  failed call leaves no trace. Assets: nothing is done in the name of a holder or of the
  administrator without authorization, a classic balance changes by exactly the amount, names are
  unambiguous. Calls: no contract is re-entered, and the depth limit closes the
  recursion. Metering: charges, exhaustion, shadow mode, fuel and depth. Fees: bounds, monotonicity,
  the exact rent, no gain from splitting. Data: the containers refine their mathematical counterparts, encodings
  round trip.

  \<^bold>\<open>Interfaces.\<close> What one component needs from another, or from a library, is a locale, and it is
  interpreted on the model's own definitions: the order of keys (\<open>key_order\<close>, \<open>storage_keys\<close>,
  \<open>payload_order\<close>), the element types, ceiled division, the numbering of errors, the contract of
  account authentication the manager relies on, nested runs (\<open>nesting\<close>, \<open>twin_hosts\<close>).

  \<^bold>\<open>Recursion.\<close> Loops of the source are structural recursion or carry a termination proof. Contract
  calls are the only unbounded recursion: contract code is an argument of the host's operations
  (\<open>run\<close>), and \<open>run_at E n\<close> ties the knot for calls nested at most \<open>n\<close> deep. The index 100 is enough,
  because \<open>with_frame\<close> refuses a deeper stack (\<open>DEFAULT_HOST_DEPTH_LIMIT\<close>); this is the theorem
  \<open>call_nesting_closed\<close>.

  \<^bold>\<open>Parameters.\<close> The XDR library, hashing and signatures, the object table and the snapshot of the
  ledger are not part of the repository or hold no state the theorems are about. They are records
  of functions (\<open>host_env\<close>, \<open>frame_env\<close>, \<open>asset_env\<close>, \<open>event_conv\<close>, \<open>map_ctx\<close>), and what is assumed of them is
  written in the statements that need it. The comparison of the values inside contract data keys is
  such a parameter: \<open>storage_keys\<close> assumes that it fails on an exhausted budget only, so values nested
  beyond the depth limit and the XDR values without content are outside those statements.

  \<^bold>\<open>Integers.\<close> Words where the source wraps, saturates or checks, \<^typ>\<open>int\<close> with the range written
  out for signed arithmetic. Unchecked operators wrap, as in the release build.

  \<^bold>\<open>Not modelled.\<close> The virtual machine and its dispatch (\<^verbatim>\<open>vm.rs\<close>, \<^verbatim>\<open>vm/\<close>): contract code is a
  program that calls host functions. The object table, linear memory and the conversions to XDR
  (\<^verbatim>\<open>host_object.rs\<close>, \<^verbatim>\<open>host/mem_helper.rs\<close>, \<^verbatim>\<open>host/conversion.rs\<close>, \<^verbatim>\<open>host/metered_xdr.rs\<close>,
  \<^verbatim>\<open>e2e_invoke.rs\<close>), and the host functions that only build or read objects, whose containers are
  modelled. Cryptography and random numbers, which are calls of other crates. Display and
  debug output, macros other than the dispatch above, test utilities and calibration code.
\<close>

end
